theory Spec2Isabelle
  imports Complex_Main
begin

section \<open>Floating-point values and arrays\<close>

text \<open>
  The library computes with IEEE double-precision numbers. They are modelled in exact
  arithmetic: a float is a real number, one of the two infinities, or NaN. The special
  values follow IEEE-754 (as numpy computes them); rounding, overflow and the sign of zero
  are not modelled. \<open>x / 0\<close> is the numpy result (an infinity or NaN); the division of one
  Python float by another raises instead and is \<open>py_div\<close>.
\<close>

datatype num = Fin real | PInf | NInf | NaN

datatype error =
  AssertionError | NameError string | ValueError | IndexError | LinAlgError | ZeroDivisionError

fun isnan :: "num \<Rightarrow> bool" where
  "isnan NaN = True"
| "isnan _ = False"

fun isfinite :: "num \<Rightarrow> bool" where
  "isfinite (Fin _) = True"
| "isfinite _ = False"

fun isinf :: "num \<Rightarrow> bool" where
  "isinf PInf = True"
| "isinf NInf = True"
| "isinf _ = False"

instantiation num :: "{plus,minus,uminus,times,inverse,abs,ord}"
begin

fun plus_num :: "num \<Rightarrow> num \<Rightarrow> num" where
  "plus_num (Fin a) (Fin b) = Fin (a + b)"
| "plus_num NaN _ = NaN"
| "plus_num _ NaN = NaN"
| "plus_num PInf NInf = NaN"
| "plus_num NInf PInf = NaN"
| "plus_num PInf _ = PInf"
| "plus_num _ PInf = PInf"
| "plus_num NInf _ = NInf"
| "plus_num _ NInf = NInf"

fun uminus_num :: "num \<Rightarrow> num" where
  "uminus_num (Fin a) = Fin (- a)"
| "uminus_num PInf = NInf"
| "uminus_num NInf = PInf"
| "uminus_num NaN = NaN"

definition minus_num :: "num \<Rightarrow> num \<Rightarrow> num" where
  "minus_num x y = x + (- y)"

fun times_num :: "num \<Rightarrow> num \<Rightarrow> num" where
  "times_num (Fin a) (Fin b) = Fin (a * b)"
| "times_num NaN _ = NaN"
| "times_num _ NaN = NaN"
| "times_num PInf (Fin b) = (if 0 < b then PInf else if b < 0 then NInf else NaN)"
| "times_num NInf (Fin b) = (if 0 < b then NInf else if b < 0 then PInf else NaN)"
| "times_num (Fin a) PInf = (if 0 < a then PInf else if a < 0 then NInf else NaN)"
| "times_num (Fin a) NInf = (if 0 < a then NInf else if a < 0 then PInf else NaN)"
| "times_num PInf PInf = PInf"
| "times_num PInf NInf = NInf"
| "times_num NInf PInf = NInf"
| "times_num NInf NInf = PInf"

fun divide_num :: "num \<Rightarrow> num \<Rightarrow> num" where
  "divide_num (Fin a) (Fin b) =
     (if b \<noteq> 0 then Fin (a / b) else if a = 0 then NaN else if 0 < a then PInf else NInf)"
| "divide_num NaN _ = NaN"
| "divide_num _ NaN = NaN"
| "divide_num (Fin a) _ = Fin 0"
| "divide_num PInf (Fin b) = (if 0 \<le> b then PInf else NInf)"
| "divide_num NInf (Fin b) = (if 0 \<le> b then NInf else PInf)"
| "divide_num _ _ = NaN"

fun inverse_num :: "num \<Rightarrow> num" where
  "inverse_num (Fin a) = (if a \<noteq> 0 then Fin (1 / a) else PInf)"
| "inverse_num NaN = NaN"
| "inverse_num _ = Fin 0"

fun abs_num :: "num \<Rightarrow> num" where
  "abs_num (Fin a) = Fin \<bar>a\<bar>"
| "abs_num PInf = PInf"
| "abs_num NInf = PInf"
| "abs_num NaN = NaN"

fun less_num :: "num \<Rightarrow> num \<Rightarrow> bool" where
  "less_num (Fin a) (Fin b) = (a < b)"
| "less_num NaN _ = False"
| "less_num _ NaN = False"
| "less_num NInf NInf = False"
| "less_num NInf _ = True"
| "less_num (Fin a) PInf = True"
| "less_num _ _ = False"

definition less_eq_num :: "num \<Rightarrow> num \<Rightarrow> bool" where
  "less_eq_num x y = (x < y \<or> (x = y \<and> \<not> isnan x))"

instance ..

end

text \<open>\<open>==\<close> on floats: NaN is equal to nothing.\<close>

definition np_equal :: "num \<Rightarrow> num \<Rightarrow> bool" where
  "np_equal x y = (x = y \<and> \<not> isnan x)"

text \<open>\<open>np.log\<close> returns \<open>-inf\<close> at zero and NaN below it; \<open>math.log\<close> raises there.\<close>

fun np_log :: "num \<Rightarrow> num" where
  "np_log (Fin a) = (if 0 < a then Fin (ln a) else if a = 0 then NInf else NaN)"
| "np_log PInf = PInf"
| "np_log _ = NaN"

fun math_log :: "num \<Rightarrow> error + num" where
  "math_log (Fin a) = (if 0 < a then Inr (Fin (ln a)) else Inl ValueError)"
| "math_log PInf = Inr PInf"
| "math_log NInf = Inl ValueError"
| "math_log NaN = Inr NaN"

definition py_div :: "num \<Rightarrow> num \<Rightarrow> error + num" where
  "py_div x y = (if y = Fin 0 then Inl ZeroDivisionError else Inr (x / y))"

definition bind_err :: "error + 'a \<Rightarrow> ('a \<Rightarrow> error + 'b) \<Rightarrow> error + 'b" where
  "bind_err m f = (case m of Inl e \<Rightarrow> Inl e | Inr x \<Rightarrow> f x)"

text \<open>
  A one-dimensional array is a list, a two-dimensional array the list of its rows, all of
  one length (\<open>ndim2\<close>; a ragged nesting is not a two-dimensional array and fails the
  code's \<open>np.ndim(obs) == 2\<close>). \<open>np_sum\<close> is \<open>np.sum\<close>; the order of the additions does
  not matter in exact arithmetic.
\<close>

fun np_sum :: "num list \<Rightarrow> num" where
  "np_sum [] = Fin 0"
| "np_sum (x # xs) = x + np_sum xs"

fun ndim2 :: "num list list \<Rightarrow> bool" where
  "ndim2 [] = True"
| "ndim2 (r # rs) = list_all (\<lambda>r'. length r' = length r) rs"

definition shape1 :: "num list list \<Rightarrow> nat" where
  "shape1 m = (case m of [] \<Rightarrow> 0 | r # _ \<Rightarrow> length r)"

text \<open>
  An elementwise operation on two one-dimensional arrays: numpy stretches an array of one
  element to the length of the other and raises ValueError on any other mismatch.
\<close>

definition np2 :: "('a \<Rightarrow> 'b \<Rightarrow> 'c) \<Rightarrow> 'a list \<Rightarrow> 'b list \<Rightarrow> error + 'c list" where
  "np2 f xs ys =
     (if length xs = length ys then Inr (map2 f xs ys)
      else if length xs = 1 then Inr (map (f (hd xs)) ys)
      else if length ys = 1 then Inr (map (\<lambda>x. f x (hd ys)) xs)
      else Inl ValueError)"

definition logical_xor :: "bool \<Rightarrow> bool \<Rightarrow> bool" where
  "logical_xor a b = (a \<noteq> b)"

text \<open>\<open>np.where(mask)\<close> and indexing by an index array (IndexError out of range).\<close>

definition np_where :: "bool list \<Rightarrow> nat list" where
  "np_where cond = filter (\<lambda>i. cond ! i) [0..<length cond]"

definition take_ind :: "num list \<Rightarrow> nat list \<Rightarrow> error + num list" where
  "take_ind xs ind =
     (if list_all (\<lambda>i. i < length xs) ind then Inr (map (\<lambda>i. xs ! i) ind) else Inl IndexError)"

definition np_dot :: "num list \<Rightarrow> num list \<Rightarrow> error + num" where
  "np_dot xs ys =
     (if length xs = length ys then Inr (np_sum (map2 (\<lambda>x y. x * y) xs ys)) else Inl ValueError)"

text \<open>What a method returns besides the new state of \<open>self\<close>: \<open>self\<close> or \<open>None\<close>.\<close>

datatype ret = RetSelf | RetNone

section \<open>The Dirichlet distribution\<close>

text \<open>
  \<open>dirich.param\<close>; the field \<open>pi\<close> is \<open>pi_d\<close> here (\<open>pi\<close> is the real number).
  An instance holds \<open>__dim__\<close> and \<open>__param__\<close>.
\<close>

record dirich_param =
  pi_d :: "num list"
  alpha_d :: num

record dirich =
  dim_d :: nat
  param_d :: dirich_param

text \<open>
  \<open>dirich.__init__\<close>: the only check is \<open>dim > 0\<close>; the parameters are written to
  \<open>__param__\<close> as they are, not through the property setters.
\<close>

definition dirich_init :: "int \<Rightarrow> num list option \<Rightarrow> num option \<Rightarrow> error + dirich" where
  "dirich_init d pi0 alpha0 =
     (if \<not> 0 < d then Inl AssertionError
      else
        let pi1 = (case pi0 of None \<Rightarrow> replicate (nat d) (Fin (1 / of_int d)) | Some p \<Rightarrow> p);
            alpha1 = (case alpha0 of None \<Rightarrow> Fin 1 | Some a \<Rightarrow> a)
        in Inr \<lparr>dim_d = nat d, param_d = \<lparr>pi_d = pi1, alpha_d = alpha1\<rparr>\<rparr>)"

text \<open>\<open>np.spacing(1.0)\<close>, the distance from 1.0 to the next double.\<close>

definition spacing1 :: real where
  "spacing1 = 1 / 2 ^ 52"

text \<open>The two property setters.\<close>

definition dirich_pi_setter :: "dirich \<Rightarrow> num list \<Rightarrow> error + dirich" where
  "dirich_pi_setter self p =
     (if length p \<noteq> dim_d self then Inl AssertionError
      else if \<not> (list_all (\<lambda>x. Fin 0 \<le> x) p \<and> \<bar>np_sum p - Fin 1\<bar> < Fin spacing1)
        then Inl AssertionError
      else Inr (self\<lparr>param_d := (param_d self)\<lparr>pi_d := p\<rparr>\<rparr>))"

definition dirich_alpha_setter :: "dirich \<Rightarrow> num \<Rightarrow> error + dirich" where
  "dirich_alpha_setter self a =
     (if \<not> (\<not> isnan a \<and> Fin 0 < a) then Inl AssertionError
      else Inr (self\<lparr>param_d := (param_d self)\<lparr>alpha_d := a\<rparr>\<rparr>))"

text \<open>
  \<open>dirich.div\<close>. \<open>gammaln\<close> and \<open>psi\<close> are \<open>scipy.special\<close>'s functions, parameters
  of the model.
\<close>

definition dirich_div ::
  "(num \<Rightarrow> num) \<Rightarrow> (num \<Rightarrow> num) \<Rightarrow> dirich \<Rightarrow> dirich \<Rightarrow> error + num" where
  "dirich_div gammaln psi self other =
     (if dim_d other \<noteq> dim_d self then Inl AssertionError
      else
        let post = param_d self; prior = param_d other in
        if isfinite (alpha_d post) \<and> isfinite (alpha_d prior) then
          let ind = map (\<lambda>x. Fin 0 < x) (pi_d post) in
          bind_err (np2 logical_xor ind (map (\<lambda>x. Fin 0 < x) (pi_d prior))) (\<lambda>x.
            if list_ex (\<lambda>b. b) x then Inr PInf
            else
              let ind = np_where ind in
              bind_err (take_ind (pi_d post) ind) (\<lambda>qi.
              bind_err (take_ind (pi_d prior) ind) (\<lambda>ri.
                let a = map (\<lambda>q. alpha_d post * q) qi;
                    b = map (\<lambda>r. alpha_d prior * r) ri
                in
                  bind_err (np_dot (map2 (\<lambda>x y. x - y) a b)
                                   (map (\<lambda>x. psi x - psi (alpha_d post)) a)) (\<lambda>d.
                    Inr (gammaln (alpha_d post) - gammaln (alpha_d prior)
                         - np_sum (map2 (\<lambda>x y. gammaln x - gammaln y) a b)
                         + d)))))
        else if isinf (alpha_d post) \<and> isinf (alpha_d prior) then
          bind_err (np2 np_equal (pi_d post) (pi_d prior)) (\<lambda>eqs.
            if list_all (\<lambda>b. b) eqs then Inr (Fin 0) else Inr PInf)
        else Inr PInf)"

text \<open>\<open>dirich.stat\<close>: the loop over the evidence, then the method.\<close>

fun dirich_stat_loop :: "nat \<Rightarrow> num list list list \<Rightarrow> dirich_param \<Rightarrow> error + dirich_param" where
  "dirich_stat_loop d [] stat = Inr stat"
| "dirich_stat_loop d (prob # evidence) stat =
     (if \<not> ndim2 prob then Inl AssertionError
      else if length prob \<noteq> d then Inl AssertionError
      else
        let count = map np_sum prob in
        bind_err (np2 (\<lambda>x y. x + y) (pi_d stat) count) (\<lambda>p.
          dirich_stat_loop d evidence \<lparr>pi_d = p, alpha_d = alpha_d stat + np_sum count\<rparr>))"

definition dirich_stat :: "dirich \<Rightarrow> num list list list \<Rightarrow> error + dirich_param" where
  "dirich_stat self evidence =
     dirich_stat_loop (dim_d self) evidence \<lparr>pi_d = replicate (dim_d self) (Fin 0), alpha_d = Fin 0\<rparr>"

text \<open>
  \<open>dirich.update\<close>: the new state of the instance and the value returned. The singular
  branch ends in a bare \<open>return\<close>, which returns \<open>None\<close>.
\<close>

definition dirich_update :: "dirich \<Rightarrow> dirich_param \<Rightarrow> error + (dirich \<times> ret)" where
  "dirich_update self stat =
     (if length (pi_d stat) \<noteq> dim_d self then Inl AssertionError
      else
        let pi0 = pi_d (param_d self); alpha = alpha_d (param_d self) in
        if isinf alpha then Inr (self, RetNone)
        else
          bind_err (np2 (\<lambda>x y. x + y) (map (\<lambda>p. alpha * p) pi0) (pi_d stat)) (\<lambda>pi1.
            let alpha1 = alpha + alpha_d stat;
                pi2 = map (\<lambda>p. p / alpha1) pi1
            in Inr (self\<lparr>param_d := \<lparr>pi_d = pi2, alpha_d = alpha1\<rparr>\<rparr>, RetSelf)))"

text \<open>
  The arithmetic of this theory is exact. The code computes in IEEE binary64, where every
  operation returns the double nearest to the exact result, ties to the even significand.
  \<open>fl\<close> is that rounding: \<open>expo n x\<close> is the binary exponent of a positive \<open>x\<close>, found in at
  most \<open>n\<close> doublings or halvings; the subnormal numbers share the exponent -1022; the
  unit in the last place is \<open>pow2 (e - 52)\<close>; a result of magnitude \<open>2 ^ 1024\<close> or more is an
  infinity. \<open>dirich_update_rounded rnd\<close> is \<open>dirich.update\<close> with \<open>rnd\<close> applied to the
  result of each arithmetic operation; with the identity it is \<open>dirich_update\<close>.
\<close>

fun expo :: "nat \<Rightarrow> real \<Rightarrow> int" where
  "expo 0 x = 0"
| "expo (Suc n) x =
     (if x < 1 then expo n (2 * x) - 1 else if 2 \<le> x then expo n (x / 2) + 1 else 0)"

definition pow2 :: "int \<Rightarrow> real" where
  "pow2 k = (if 0 \<le> k then 2 ^ nat k else 1 / 2 ^ nat (- k))"

definition round_even :: "real \<Rightarrow> int" where
  "round_even x =
     (let f = \<lfloor>x\<rfloor>; d = x - of_int f
      in if d < 1 / 2 then f else if 1 / 2 < d then f + 1 else if even f then f else f + 1)"

definition fl_real :: "real \<Rightarrow> num" where
  "fl_real x =
     (if x = 0 then Fin 0
      else
        let e = max (expo 1100 \<bar>x\<bar>) (- 1022);
            u = pow2 (e - 52);
            r = of_int (round_even (x / u)) * u
        in if 2 ^ 1024 \<le> \<bar>r\<bar> then (if 0 < x then PInf else NInf) else Fin r)"

fun fl :: "num \<Rightarrow> num" where
  "fl (Fin x) = fl_real x"
| "fl x = x"

definition dirich_update_rounded ::
  "(num \<Rightarrow> num) \<Rightarrow> dirich \<Rightarrow> dirich_param \<Rightarrow> error + (dirich \<times> ret)" where
  "dirich_update_rounded rnd self stat =
     (if length (pi_d stat) \<noteq> dim_d self then Inl AssertionError
      else
        let pi0 = pi_d (param_d self); alpha = alpha_d (param_d self) in
        if isinf alpha then Inr (self, RetNone)
        else
          bind_err (np2 (\<lambda>x y. rnd (x + y)) (map (\<lambda>p. rnd (alpha * p)) pi0) (pi_d stat)) (\<lambda>pi1.
            let alpha1 = rnd (alpha + alpha_d stat);
                pi2 = map (\<lambda>p. rnd (p / alpha1)) pi1
            in Inr (self\<lparr>param_d := \<lparr>pi_d = pi2, alpha_d = alpha1\<rparr>\<rparr>, RetSelf)))"

section \<open>The Gauss-Gamma distribution\<close>

text \<open>
  More of numpy: \<open>x**2\<close>, \<open>np.log1p\<close>, the sums of a two-dimensional array along its
  axes (\<open>n\<close> is the number of columns), the product of a matrix and a vector, and a value
  that is a scalar or a one-dimensional array, combined with an array.
\<close>

definition np_sq :: "num \<Rightarrow> num" where
  "np_sq x = x * x"

fun np_log1p :: "num \<Rightarrow> num" where
  "np_log1p (Fin a) = (if - 1 < a then Fin (ln (1 + a)) else if a = - 1 then NInf else NaN)"
| "np_log1p PInf = PInf"
| "np_log1p _ = NaN"

definition sum_axis1 :: "num list list \<Rightarrow> num list" where
  "sum_axis1 m = map np_sum m"

definition sum_axis0 :: "nat \<Rightarrow> num list list \<Rightarrow> num list" where
  "sum_axis0 n m = foldr (\<lambda>r acc. map2 (\<lambda>x y. x + y) r acc) m (replicate n (Fin 0))"

definition dot_mv :: "num list list \<Rightarrow> num list \<Rightarrow> num list" where
  "dot_mv m v = map (\<lambda>r. np_sum (map2 (\<lambda>x y. x * y) r v)) m"

datatype nd = Scalar num | Array "num list"

fun nd2a :: "(num \<Rightarrow> num \<Rightarrow> num) \<Rightarrow> nd \<Rightarrow> num list \<Rightarrow> error + num list" where
  "nd2a f (Scalar a) ys = Inr (map (f a) ys)"
| "nd2a f (Array xs) ys = np2 f xs ys"

fun nd_map :: "(num \<Rightarrow> num) \<Rightarrow> nd \<Rightarrow> nd" where
  "nd_map f (Scalar a) = Scalar (f a)"
| "nd_map f (Array xs) = Array (map f xs)"

text \<open>
  The names the module \<open>__dist__\<close> binds are \<open>math\<close>, \<open>np\<close>, \<open>linalg\<close>, \<open>random\<close>,
  \<open>special\<close> and the three classes. None of them is a number, so the table of the
  module's numeric globals is empty; a name that is not found raises NameError.
\<close>

definition dist_globals :: "string \<Rightarrow> num option" where
  "dist_globals = (\<lambda>name. None)"

definition lookup_name :: "(string \<Rightarrow> num option) \<Rightarrow> string \<Rightarrow> error + num" where
  "lookup_name glob name = (case glob name of None \<Rightarrow> Inl (NameError name) | Some v \<Rightarrow> Inr v)"

text \<open>What \<open>loglik\<close> returns: the log-likelihoods, or the pair of them and the weights.\<close>

datatype lik = Lik "num list" | LikWeights "num list" "num list"

record gaussgamma_param =
  mu_g :: "num list"
  omega_g :: num
  sigma_g :: "num list"
  eta_g :: num

record gaussgamma =
  dim_g :: nat
  param_g :: gaussgamma_param

definition gaussgamma_init ::
  "int \<Rightarrow> num list option \<Rightarrow> num option \<Rightarrow> num list option \<Rightarrow> num option \<Rightarrow> error + gaussgamma" where
  "gaussgamma_init d mu0 omega0 sigma0 eta0 =
     (if \<not> 0 < d then Inl AssertionError
      else Inr \<lparr>dim_g = nat d, param_g = \<lparr>
        mu_g = (case mu0 of None \<Rightarrow> replicate (nat d) (Fin 0) | Some m \<Rightarrow> m),
        omega_g = (case omega0 of None \<Rightarrow> Fin 1 | Some w \<Rightarrow> w),
        sigma_g = (case sigma0 of None \<Rightarrow> replicate (nat d) (Fin 1) | Some s \<Rightarrow> s),
        eta_g = (case eta0 of None \<Rightarrow> Fin 1 | Some e \<Rightarrow> e)\<rparr>\<rparr>)"

definition gaussgamma_mu_setter :: "gaussgamma \<Rightarrow> num list \<Rightarrow> error + gaussgamma" where
  "gaussgamma_mu_setter self m =
     (if length m \<noteq> dim_g self then Inl AssertionError
      else if \<not> (\<not> list_ex isnan m \<and> list_all isfinite m) then Inl AssertionError
      else Inr (self\<lparr>param_g := (param_g self)\<lparr>mu_g := m\<rparr>\<rparr>))"

definition gaussgamma_omega_setter :: "gaussgamma \<Rightarrow> num \<Rightarrow> error + gaussgamma" where
  "gaussgamma_omega_setter self w =
     (if \<not> (\<not> isnan w \<and> Fin 0 < w) then Inl AssertionError
      else Inr (self\<lparr>param_g := (param_g self)\<lparr>omega_g := w\<rparr>\<rparr>))"

definition gaussgamma_sigma_setter :: "gaussgamma \<Rightarrow> num list \<Rightarrow> error + gaussgamma" where
  "gaussgamma_sigma_setter self s =
     (if length s \<noteq> dim_g self then Inl AssertionError
      else if \<not> (\<not> list_ex isnan s \<and> list_all isfinite s \<and> list_all (\<lambda>x. Fin 0 < x) s)
        then Inl AssertionError
      else Inr (self\<lparr>param_g := (param_g self)\<lparr>sigma_g := s\<rparr>\<rparr>))"

definition gaussgamma_eta_setter :: "gaussgamma \<Rightarrow> num \<Rightarrow> error + gaussgamma" where
  "gaussgamma_eta_setter self e =
     (if \<not> (\<not> isnan e \<and> Fin 0 < e) then Inl AssertionError
      else Inr (self\<lparr>param_g := (param_g self)\<lparr>eta_g := e\<rparr>\<rparr>))"

text \<open>
  The three ways \<open>loglik\<close> ends, shared by both Gaussian families. With \<open>nu\<close> \<open>None\<close> or
  infinite the code reads the global name \<open>numdim\<close> first.
\<close>

definition loglik_result ::
  "(string \<Rightarrow> num option) \<Rightarrow> (num \<Rightarrow> num) \<Rightarrow> nat \<Rightarrow> nat \<Rightarrow> nd \<Rightarrow> num list \<Rightarrow> num option
     \<Rightarrow> error + lik" where
  "loglik_result glob gammaln d sz logdet sqerr nu =
     (case nu of
        None \<Rightarrow>
          bind_err (lookup_name glob ''numdim'') (\<lambda>numdim.
          bind_err (nd2a (\<lambda>x y. x - y)
                      (nd_map (\<lambda>l. - (numdim / Fin 2) * Fin (ln (2 * pi)) - l) logdet)
                      (map (\<lambda>e. e / Fin 2) sqerr)) (\<lambda>v.
            Inr (Lik v)))
      | Some n \<Rightarrow>
          if isinf n then
            bind_err (lookup_name glob ''numdim'') (\<lambda>numdim.
            bind_err (nd2a (\<lambda>x y. x - y)
                        (nd_map (\<lambda>l. - (numdim / Fin 2) * Fin (ln (2 * pi)) - l) logdet)
                        (map (\<lambda>e. e / Fin 2) sqerr)) (\<lambda>v.
              Inr (LikWeights v (replicate sz (Fin 1)))))
          else
            bind_err (math_log (Fin pi * n)) (\<lambda>lg.
              let const = nd_map (\<lambda>l. gammaln (n / Fin 2) - gammaln ((n + Fin (real d)) / Fin 2)
                                       + Fin (real d / 2) * lg + l) logdet
              in
              bind_err (nd2a (\<lambda>x y. x - y) (nd_map (\<lambda>c. - c) const)
                          (map (\<lambda>e. ((n + Fin (real d)) / Fin 2) * np_log1p (e / n)) sqerr)) (\<lambda>v.
                Inr (LikWeights v (map (\<lambda>e. (n + Fin (real d)) / (n + e)) sqerr)))))"

definition gaussgamma_loglik ::
  "(string \<Rightarrow> num option) \<Rightarrow> (num \<Rightarrow> num) \<Rightarrow> (num \<Rightarrow> num) \<Rightarrow> gaussgamma \<Rightarrow> num list list
     \<Rightarrow> num option \<Rightarrow> error + lik" where
  "gaussgamma_loglik glob gammaln psi self obs nu =
     (if \<not> ndim2 obs then Inl AssertionError
      else
        let d = length obs; sz = shape1 obs in
        if d \<noteq> dim_g self then Inl AssertionError
        else
          let mu = mu_g (param_g self); omega = omega_g (param_g self);
              sigma = sigma_g (param_g self); eta = eta_g (param_g self)
          in
          bind_err (np2 (\<lambda>r m. map (\<lambda>x. np_sq \<bar>x - m\<bar>) r) obs mu) (\<lambda>dev.
          bind_err (np2 (\<lambda>r s. map (\<lambda>x. x / s) r) dev sigma) (\<lambda>q.
          bind_err (if isfinite omega
                    then bind_err (py_div (Fin (real d)) omega) (\<lambda>c.
                           Inr (map (\<lambda>e. e + c) (sum_axis0 sz q)))
                    else Inr (sum_axis0 sz q)) (\<lambda>sqerr.
          let logdet0 = np_sum (map np_log sigma) / Fin 2 in
          bind_err (if isfinite eta
                    then bind_err (math_log (eta / Fin 2)) (\<lambda>lg.
                           Inr (Array (map (\<lambda>k. logdet0 + (Fin (real d / 2) * lg
                                  - psi ((eta - Fin (real k)) / Fin 2) / Fin 2)) [0..<d])))
                    else Inr (Scalar logdet0)) (\<lambda>logdet.
            loglik_result glob gammaln d sz logdet sqerr nu)))))"

text \<open>
  \<open>gaussgamma.div\<close>. The first part yields the divergence of the conditional Gauss
  distributions, or \<open>None\<close> where the code returns \<open>np.inf\<close> at once.
\<close>

definition gauss_part_diag ::
  "nat \<Rightarrow> gaussgamma_param \<Rightarrow> gaussgamma_param \<Rightarrow> error + num option" where
  "gauss_part_diag d post prior =
     (if isfinite (omega_g post) \<and> isfinite (omega_g prior) then
        bind_err (py_div (omega_g prior) (omega_g post)) (\<lambda>r.
        bind_err (math_log r) (\<lambda>lr.
        bind_err (np2 (\<lambda>a b. np_sq \<bar>a - b\<bar>) (mu_g post) (mu_g prior)) (\<lambda>dm.
        bind_err (np2 (\<lambda>a b. a / b) dm (sigma_g post)) (\<lambda>q.
          Inr (Some (Fin (real d / 2) * (r - lr - Fin 1)
                     + (omega_g prior / Fin 2) * np_sum q))))))
      else if isinf (omega_g post) \<and> isinf (omega_g prior) then
        bind_err (np2 np_equal (mu_g post) (mu_g prior)) (\<lambda>eqs.
          Inr (if list_all (\<lambda>b. b) eqs then Some (Fin 0) else None))
      else Inr None)"

definition gaussgamma_div ::
  "(num \<Rightarrow> num) \<Rightarrow> (num \<Rightarrow> num) \<Rightarrow> gaussgamma \<Rightarrow> gaussgamma \<Rightarrow> error + num" where
  "gaussgamma_div gammaln psi self other =
     (if dim_g other \<noteq> dim_g self then Inl AssertionError
      else
        let d = dim_g self; dn = Fin (real (dim_g self));
            post = param_g self; prior = param_g other
        in
        bind_err (gauss_part_diag d post prior) (\<lambda>dv.
          case dv of
            None \<Rightarrow> Inr PInf
          | Some dv \<Rightarrow>
              if isfinite (eta_g post) \<and> isfinite (eta_g prior) then
                let post_det = np_sum (map np_log (sigma_g post));
                    prior_det = np_sum (map np_log (sigma_g prior))
                in
                bind_err (math_log (eta_g post / Fin 2)) (\<lambda>lq.
                  let aux = lq - psi (eta_g post / Fin 2) in
                  bind_err (np2 (\<lambda>a b. a / b) (sigma_g prior) (sigma_g post)) (\<lambda>ratio.
                  bind_err (math_log (eta_g prior / Fin 2)) (\<lambda>lp.
                    Inr (dv - (eta_g post / Fin 2) * dn + (eta_g prior / Fin 2) * np_sum ratio
                         + ((eta_g prior - eta_g post) / Fin 2) * (post_det + dn * aux)
                         - (eta_g prior / Fin 2) * prior_det + (eta_g post / Fin 2) * post_det
                         + dn * gammaln (eta_g prior / Fin 2)
                         - dn * gammaln (eta_g post / Fin 2)
                         - dn * (eta_g prior / Fin 2) * lp
                         + dn * (eta_g post / Fin 2) * lq))))
              else if isinf (eta_g post) \<and> isinf (eta_g prior) then
                bind_err (np2 np_equal (sigma_g post) (sigma_g prior)) (\<lambda>eqs.
                  Inr (if list_all (\<lambda>b. b) eqs then dv else PInf))
              else Inr PInf))"

text \<open>
  The evidence of \<open>stat\<close>, with the two flags \<open>weighted\<close> and \<open>scaled\<close> that say how
  its items are read: observation batches, pairs \<open>(obs, scale)\<close>, triples
  \<open>(obs, weight, scale)\<close> or pairs \<open>(obs, weight)\<close>.
\<close>

datatype evidence =
  Plain "num list list list"
| Scaled "(num list list \<times> num list) list"
| WeightedScaled "(num list list \<times> num list \<times> num list) list"
| Weighted "(num list list \<times> num list) list"

fun stat_loop :: "('e \<Rightarrow> 's \<Rightarrow> error + 's) \<Rightarrow> 'e list \<Rightarrow> 's \<Rightarrow> error + 's" where
  "stat_loop step [] stat = Inr stat"
| "stat_loop step (e # es) stat = bind_err (step e stat) (\<lambda>stat'. stat_loop step es stat')"

text \<open>\<open>obs - ref[:, np.newaxis]\<close>: row \<open>i\<close> of \<open>obs\<close> less \<open>ref[i]\<close>.\<close>

definition resid_of :: "num list list \<Rightarrow> num list \<Rightarrow> error + num list list" where
  "resid_of obs rf = np2 (\<lambda>r c. map (\<lambda>x. x - c) r) obs rf"

text \<open>
  The bodies of the four loops of \<open>gaussgamma.stat\<close>. The three with a weight or a scale
  add the same terms for their weight vector \<open>w\<close> and differ in what they add to
  \<open>stat.eta\<close>.
\<close>

definition gaussgamma_step_plain ::
  "nat \<Rightarrow> num list \<Rightarrow> num list list \<Rightarrow> gaussgamma_param \<Rightarrow> error + gaussgamma_param" where
  "gaussgamma_step_plain d rf obs stat =
     (if \<not> ndim2 obs then Inl AssertionError
      else if length obs \<noteq> d then Inl AssertionError
      else
        let sz = shape1 obs in
        bind_err (np2 (\<lambda>x y. x + y) (mu_g stat) (sum_axis1 obs)) (\<lambda>m.
        bind_err (resid_of obs rf) (\<lambda>rs.
        bind_err (np2 (\<lambda>x y. x + y) (sigma_g stat)
                    (sum_axis1 (map (map (\<lambda>x. np_sq \<bar>x\<bar>)) rs))) (\<lambda>sg.
          Inr \<lparr>mu_g = m, omega_g = omega_g stat + Fin (real sz),
               sigma_g = sg, eta_g = eta_g stat + Fin (real sz)\<rparr>))))"

definition gaussgamma_accum ::
  "num list \<Rightarrow> num list list \<Rightarrow> num list \<Rightarrow> num \<Rightarrow> gaussgamma_param \<Rightarrow> error + gaussgamma_param" where
  "gaussgamma_accum rf obs w eta_inc stat =
     bind_err (np2 (\<lambda>x y. x + y) (mu_g stat) (dot_mv obs w)) (\<lambda>m.
     bind_err (resid_of obs rf) (\<lambda>rs.
     bind_err (np2 (\<lambda>x y. x + y) (sigma_g stat)
                 (dot_mv (map (map (\<lambda>x. np_sq \<bar>x\<bar>)) rs) w)) (\<lambda>sg.
       Inr \<lparr>mu_g = m, omega_g = omega_g stat + np_sum w,
            sigma_g = sg, eta_g = eta_g stat + eta_inc\<rparr>)))"

definition gaussgamma_step_scaled ::
  "nat \<Rightarrow> num list \<Rightarrow> num list list \<times> num list \<Rightarrow> gaussgamma_param \<Rightarrow> error + gaussgamma_param" where
  "gaussgamma_step_scaled d rf e stat =
     (case e of (obs, scale) \<Rightarrow>
        if \<not> ndim2 obs then Inl AssertionError
        else if length obs \<noteq> d then Inl AssertionError
        else if length scale \<noteq> shape1 obs then Inl AssertionError
        else gaussgamma_accum rf obs scale (np_sum scale) stat)"

definition gaussgamma_step_weighted_scaled ::
  "nat \<Rightarrow> num list \<Rightarrow> num list list \<times> num list \<times> num list \<Rightarrow> gaussgamma_param
     \<Rightarrow> error + gaussgamma_param" where
  "gaussgamma_step_weighted_scaled d rf e stat =
     (case e of (obs, weight, scale) \<Rightarrow>
        if \<not> ndim2 obs then Inl AssertionError
        else if length obs \<noteq> d then Inl AssertionError
        else if length weight \<noteq> shape1 obs then Inl AssertionError
        else if length scale \<noteq> shape1 obs then Inl AssertionError
        else gaussgamma_accum rf obs (map2 (\<lambda>x y. x * y) weight scale) (np_sum scale) stat)"

definition gaussgamma_step_weighted ::
  "nat \<Rightarrow> num list \<Rightarrow> num list list \<times> num list \<Rightarrow> gaussgamma_param \<Rightarrow> error + gaussgamma_param" where
  "gaussgamma_step_weighted d rf e stat =
     (case e of (obs, weight) \<Rightarrow>
        if \<not> ndim2 obs then Inl AssertionError
        else if length obs \<noteq> d then Inl AssertionError
        else if length weight \<noteq> shape1 obs then Inl AssertionError
        else gaussgamma_accum rf obs weight (Fin (real (shape1 obs))) stat)"

definition gaussgamma_stat :: "gaussgamma \<Rightarrow> evidence \<Rightarrow> error + gaussgamma_param" where
  "gaussgamma_stat self ev =
     (let d = dim_g self; rf = mu_g (param_g self);
          stat0 = \<lparr>mu_g = replicate d (Fin 0), omega_g = Fin 0,
                   sigma_g = replicate d (Fin 0), eta_g = Fin 0\<rparr>
      in
      bind_err (case ev of
                  Plain es \<Rightarrow> stat_loop (gaussgamma_step_plain d rf) es stat0
                | Scaled es \<Rightarrow> stat_loop (gaussgamma_step_scaled d rf) es stat0
                | WeightedScaled es \<Rightarrow> stat_loop (gaussgamma_step_weighted_scaled d rf) es stat0
                | Weighted es \<Rightarrow> stat_loop (gaussgamma_step_weighted d rf) es stat0) (\<lambda>stat.
      bind_err (if Fin 0 < omega_g stat
                then np2 (\<lambda>x y. x - y) rf (map (\<lambda>m. m / omega_g stat) (mu_g stat))
                else Inr rf) (\<lambda>rf'.
      bind_err (np2 (\<lambda>x y. x - y) (sigma_g stat)
                  (map (\<lambda>r. omega_g stat * np_sq \<bar>r\<bar>) rf')) (\<lambda>sg.
        Inr (stat\<lparr>sigma_g := sg\<rparr>)))))"

text \<open>
  \<open>update\<close>. Both Gaussian families compute the mean shift \<open>diff\<close>, the weight and the
  new \<open>mu\<close> and \<open>omega\<close> with the same statements, \<open>update_gauss\<close>. \<open>omega\<close> and
  \<open>stat.omega\<close> are Python floats, so the quotient that gives \<open>weight\<close> raises
  ZeroDivisionError when their sum is zero.
\<close>

definition update_gauss ::
  "num list \<Rightarrow> num \<Rightarrow> num list \<Rightarrow> num \<Rightarrow> error + (num list \<times> num \<times> num list \<times> num)" where
  "update_gauss mu omega stat_mu stat_omega =
     bind_err (if Fin 0 < stat_omega
               then np2 (\<lambda>x y. x - y) mu (map (\<lambda>m. m / stat_omega) stat_mu)
               else Inr mu) (\<lambda>diff.
       if isfinite omega
       then bind_err (py_div (omega * stat_omega) (omega + stat_omega)) (\<lambda>weight.
            bind_err (np2 (\<lambda>x y. x + y) (map (\<lambda>m. omega * m) mu) stat_mu) (\<lambda>mu1.
              Inr (diff, weight, map (\<lambda>m. m / (omega + stat_omega)) mu1, omega + stat_omega)))
       else Inr (diff, stat_omega, mu, omega))"

definition update_gamma ::
  "num list \<Rightarrow> num \<Rightarrow> num list \<Rightarrow> num \<Rightarrow> num list \<Rightarrow> num \<Rightarrow> error + (num list \<times> num)" where
  "update_gamma sigma eta stat_sigma stat_eta diff weight =
     bind_err (np2 (\<lambda>x y. x + y) (map (\<lambda>s. eta * s) sigma) stat_sigma) (\<lambda>s1.
     bind_err (np2 (\<lambda>x y. x + y) s1 (map (\<lambda>x. weight * np_sq \<bar>x\<bar>) diff)) (\<lambda>s2.
       Inr (map (\<lambda>s. s / (eta + stat_eta)) s2, eta + stat_eta)))"

definition gaussgamma_update ::
  "gaussgamma \<Rightarrow> gaussgamma_param \<Rightarrow> error + (gaussgamma \<times> ret)" where
  "gaussgamma_update self stat =
     (if \<not> (length (mu_g stat) = dim_g self \<and> length (sigma_g stat) = dim_g self)
        then Inl AssertionError
      else
        let mu = mu_g (param_g self); omega = omega_g (param_g self);
            sigma = sigma_g (param_g self); eta = eta_g (param_g self)
        in
        if isinf omega \<and> isinf eta then Inr (self, RetSelf)
        else
          bind_err (update_gauss mu omega (mu_g stat) (omega_g stat)) (\<lambda>(diff, weight, mu', omega').
          bind_err (if isfinite eta
                    then update_gamma sigma eta (sigma_g stat) (eta_g stat) diff weight
                    else Inr (sigma, eta)) (\<lambda>(sigma', eta').
            Inr (self\<lparr>param_g := \<lparr>mu_g = mu', omega_g = omega', sigma_g = sigma', eta_g = eta'\<rparr>\<rparr>,
                 RetSelf))))"

text \<open>
  \<open>rand\<close>. The generator of \<open>numpy.random\<close> is a state that every draw reads and
  advances; its two samplers that the module calls, one gamma variate of a given shape
  and one standard normal variate, are parameters. An array of variates is drawn element
  after element, a matrix row after row. \<open>random.gamma\<close> checks its shapes first and
  raises ValueError on a negative one; \<open>np.sqrt\<close> is NaN below zero, where
  \<open>math.sqrt\<close> raises ValueError.
\<close>

fun draws :: "('a \<Rightarrow> 'g \<Rightarrow> num \<times> 'g) \<Rightarrow> 'a list \<Rightarrow> 'g \<Rightarrow> num list \<times> 'g" where
  "draws f [] g = ([], g)"
| "draws f (a # as) g =
     (case f a g of (x, g') \<Rightarrow> case draws f as g' of (xs, g'') \<Rightarrow> (x # xs, g''))"

definition random_gamma ::
  "(num \<Rightarrow> 'g \<Rightarrow> num \<times> 'g) \<Rightarrow> num list \<Rightarrow> 'g \<Rightarrow> error + (num list \<times> 'g)" where
  "random_gamma gam shapes g =
     (if list_ex (\<lambda>a. a < Fin 0) shapes then Inl ValueError else Inr (draws gam shapes g))"

definition random_randn :: "('g \<Rightarrow> num \<times> 'g) \<Rightarrow> nat \<Rightarrow> 'g \<Rightarrow> num list \<times> 'g" where
  "random_randn nrm n g = draws (\<lambda>u. nrm) (replicate n ()) g"

definition random_randn2 ::
  "('g \<Rightarrow> num \<times> 'g) \<Rightarrow> nat \<Rightarrow> nat \<Rightarrow> 'g \<Rightarrow> num list list \<times> 'g" where
  "random_randn2 nrm r c g =
     foldl (\<lambda>(rows, g') u. case random_randn nrm c g' of (row, g'') \<Rightarrow> (rows @ [row], g''))
       ([], g) (replicate r ())"

fun np_sqrt :: "num \<Rightarrow> num" where
  "np_sqrt (Fin a) = (if 0 \<le> a then Fin (sqrt a) else NaN)"
| "np_sqrt PInf = PInf"
| "np_sqrt _ = NaN"

fun math_sqrt :: "num \<Rightarrow> error + num" where
  "math_sqrt (Fin a) = (if 0 \<le> a then Inr (Fin (sqrt a)) else Inl ValueError)"
| "math_sqrt PInf = Inr PInf"
| "math_sqrt NInf = Inl ValueError"
| "math_sqrt NaN = Inr NaN"

definition gaussgamma_rand ::
  "(num \<Rightarrow> 'g \<Rightarrow> num \<times> 'g) \<Rightarrow> ('g \<Rightarrow> num \<times> 'g) \<Rightarrow> gaussgamma \<Rightarrow> 'g
     \<Rightarrow> error + ((num list \<times> num list) \<times> 'g)" where
  "gaussgamma_rand gam nrm self g =
     (let d = dim_g self;
          mu = mu_g (param_g self); omega = omega_g (param_g self);
          sigma = sigma_g (param_g self); eta = eta_g (param_g self)
      in
      bind_err (if isfinite eta
                then bind_err (random_gamma gam (replicate d (eta / Fin 2)) g) (\<lambda>(gs, g1).
                     bind_err (np2 (\<lambda>s x. s / x) sigma (map (\<lambda>x. x / (eta / Fin 2)) gs)) (\<lambda>disp.
                       Inr (disp, g1)))
                else Inr (sigma, g)) (\<lambda>(disp, g1).
      bind_err (if isfinite omega
                then (case random_randn nrm d g1 of (zs, g2) \<Rightarrow>
                     bind_err (np2 (\<lambda>s z. s * z) (map np_sqrt disp) zs) (\<lambda>sz.
                     bind_err (math_sqrt omega) (\<lambda>so.
                     bind_err (np2 (\<lambda>m x. m + x) mu (map (\<lambda>x. x / so) sz)) (\<lambda>loc.
                       Inr (loc, g2)))))
                else Inr (mu, g1)) (\<lambda>(loc, g2).
        Inr ((loc, disp), g2))))"

section \<open>The Gauss-Wishart distribution\<close>

text \<open>
  Matrices. \<open>mat2\<close> is an elementwise operation on two matrices, with numpy's stretching
  along both axes; \<open>mat_T n\<close> transposes a matrix of \<open>n\<close> columns; \<open>dot_T a b\<close> is
  \<open>np.dot(a, b.T)\<close>, whose entry \<open>(i, j)\<close> is the inner product of row \<open>i\<close> of \<open>a\<close> and
  row \<open>j\<close> of \<open>b\<close>; \<open>outer\<close> is \<open>np.outer\<close>.
\<close>

fun seq_err :: "(error + 'a) list \<Rightarrow> error + 'a list" where
  "seq_err [] = Inr []"
| "seq_err (x # xs) = bind_err x (\<lambda>y. bind_err (seq_err xs) (\<lambda>ys. Inr (y # ys)))"

definition mat2 ::
  "('a \<Rightarrow> 'b \<Rightarrow> 'c) \<Rightarrow> 'a list list \<Rightarrow> 'b list list \<Rightarrow> error + 'c list list" where
  "mat2 f a b = bind_err (np2 (\<lambda>r r'. np2 f r r') a b) seq_err"

definition mat_T :: "nat \<Rightarrow> num list list \<Rightarrow> num list list" where
  "mat_T n m = map (\<lambda>j. map (\<lambda>r. r ! j) m) [0..<n]"

definition dot_T :: "num list list \<Rightarrow> num list list \<Rightarrow> num list list" where
  "dot_T a b = map (\<lambda>r. map (\<lambda>r'. np_sum (map2 (\<lambda>x y. x * y) r r')) b) a"

definition outer :: "num list \<Rightarrow> num list \<Rightarrow> num list list" where
  "outer u v = map (\<lambda>x. map (\<lambda>y. x * y) v) u"

definition np_eye :: "nat \<Rightarrow> num list list" where
  "np_eye n = map (\<lambda>i. map (\<lambda>j. if i = j then Fin 1 else Fin 0) [0..<n]) [0..<n]"

definition np_diag :: "num list list \<Rightarrow> num list" where
  "np_diag m = map (\<lambda>i. m ! i ! i) [0..<length m]"

definition is_shape :: "nat \<Rightarrow> nat \<Rightarrow> num list list \<Rightarrow> bool" where
  "is_shape r c m = (length m = r \<and> list_all (\<lambda>row. length row = c) m)"

text \<open>
  \<open>numpy.linalg.cholesky\<close> and \<open>numpy.linalg.solve\<close> in exact arithmetic.
  \<open>cholesky\<close> reads the lower triangle of its argument row by row and returns the
  lower-triangular factor; it raises LinAlgError when the matrix is not square or a
  pivot is not positive. Every call of \<open>solve\<close> in the library passes a lower-triangular
  matrix, where the solution is the forward substitution; a zero on the diagonal is a
  singular matrix and raises LinAlgError.
\<close>

fun chol_offdiag :: "num list list \<Rightarrow> num list \<Rightarrow> num list \<Rightarrow> num list" where
  "chol_offdiag [] a acc = acc"
| "chol_offdiag (l # ls) a acc =
     (let j = length acc;
          s = np_sum (map2 (\<lambda>x y. x * y) acc (take j l))
      in chol_offdiag ls a (acc @ [(a ! j - s) / (l ! j)]))"

fun chol_rows :: "nat \<Rightarrow> num list list \<Rightarrow> num list list \<Rightarrow> error + num list list" where
  "chol_rows n [] ls = Inr ls"
| "chol_rows n (a # as) ls =
     (let i = length ls;
          acc = chol_offdiag ls a [];
          piv = a ! i - np_sum (map (\<lambda>x. x * x) acc)
      in if \<not> Fin 0 < piv then Inl LinAlgError
         else chol_rows n as (ls @ [acc @ [np_sqrt piv] @ replicate (n - Suc i) (Fin 0)]))"

definition linalg_cholesky :: "num list list \<Rightarrow> error + num list list" where
  "linalg_cholesky a =
     (if \<not> is_shape (length a) (length a) a then Inl LinAlgError
      else chol_rows (length a) a [])"

fun solve_rows :: "num list list \<Rightarrow> num list list \<Rightarrow> num list list \<Rightarrow> error + num list list" where
  "solve_rows [] [] xs = Inr xs"
| "solve_rows (l # ls) (b # bs) xs =
     (let i = length xs in
      if l ! i = Fin 0 then Inl LinAlgError
      else
        let s = foldr (\<lambda>(c, x) acc. map2 (\<lambda>u v. c * u + v) x acc) (zip (take i l) xs)
                  (replicate (length b) (Fin 0))
        in solve_rows ls bs (xs @ [map2 (\<lambda>u v. (u - v) / (l ! i)) b s]))"
| "solve_rows _ _ xs = Inl ValueError"

definition linalg_solve :: "num list list \<Rightarrow> num list list \<Rightarrow> error + num list list" where
  "linalg_solve a b =
     (if \<not> is_shape (length a) (length a) a then Inl LinAlgError
      else solve_rows a b [])"

text \<open>\<open>solve\<close> with a one-dimensional right-hand side: a single column.\<close>

definition linalg_solve_vec :: "num list list \<Rightarrow> num list \<Rightarrow> error + num list" where
  "linalg_solve_vec a b =
     bind_err (linalg_solve a (map (\<lambda>x. [x]) b)) (\<lambda>xs. Inr (map hd xs))"

record gausswish_param =
  mu_w :: "num list"
  omega_w :: num
  sigma_w :: "num list list"
  eta_w :: num

record gausswish =
  dim_w :: nat
  param_w :: gausswish_param

definition gausswish_init ::
  "int \<Rightarrow> num list option \<Rightarrow> num option \<Rightarrow> num list list option \<Rightarrow> num option
     \<Rightarrow> error + gausswish" where
  "gausswish_init d mu0 omega0 sigma0 eta0 =
     (if \<not> 0 < d then Inl AssertionError
      else Inr \<lparr>dim_w = nat d, param_w = \<lparr>
        mu_w = (case mu0 of None \<Rightarrow> replicate (nat d) (Fin 0) | Some m \<Rightarrow> m),
        omega_w = (case omega0 of None \<Rightarrow> Fin 1 | Some w \<Rightarrow> w),
        sigma_w = (case sigma0 of None \<Rightarrow> np_eye (nat d) | Some s \<Rightarrow> s),
        eta_w = (case eta0 of None \<Rightarrow> Fin (of_int d) | Some e \<Rightarrow> e)\<rparr>\<rparr>)"

definition gausswish_mu_setter :: "gausswish \<Rightarrow> num list \<Rightarrow> error + gausswish" where
  "gausswish_mu_setter self m =
     (if length m \<noteq> dim_w self then Inl AssertionError
      else if \<not> (\<not> list_ex isnan m \<and> list_all isfinite m) then Inl AssertionError
      else Inr (self\<lparr>param_w := (param_w self)\<lparr>mu_w := m\<rparr>\<rparr>))"

definition gausswish_omega_setter :: "gausswish \<Rightarrow> num \<Rightarrow> error + gausswish" where
  "gausswish_omega_setter self w =
     (if \<not> (\<not> isnan w \<and> Fin 0 < w) then Inl AssertionError
      else Inr (self\<lparr>param_w := (param_w self)\<lparr>omega_w := w\<rparr>\<rparr>))"

text \<open>
  \<open>np.allclose(a, b)\<close> with its default tolerances, on finite entries:
  \<open>|a - b| <= 1e-8 + 1e-5 * |b|\<close> everywhere. \<open>numpy.linalg.eigvals\<close> is a parameter of
  the setter of \<open>sigma\<close>.
\<close>

definition allclose :: "num list list \<Rightarrow> num list list \<Rightarrow> bool" where
  "allclose a b =
     list_all (\<lambda>(r, r'). list_all (\<lambda>(x, y). \<bar>x - y\<bar> \<le> Fin (1 / 10 ^ 8) + Fin (1 / 10 ^ 5) * \<bar>y\<bar>)
                          (zip r r')) (zip a b)"

definition gausswish_sigma_setter ::
  "(num list list \<Rightarrow> num list) \<Rightarrow> gausswish \<Rightarrow> num list list \<Rightarrow> error + gausswish" where
  "gausswish_sigma_setter eigvals self s =
     (if \<not> is_shape (dim_w self) (dim_w self) s then Inl AssertionError
      else if \<not> (\<not> list_ex (list_ex isnan) s \<and> list_all (list_all isfinite) s
                 \<and> allclose (mat_T (dim_w self) s) s
                 \<and> list_all (\<lambda>x. Fin 0 < x) (eigvals s))
        then Inl AssertionError
      else Inr (self\<lparr>param_w := (param_w self)\<lparr>sigma_w := s\<rparr>\<rparr>))"

definition gausswish_eta_setter :: "gausswish \<Rightarrow> num \<Rightarrow> error + gausswish" where
  "gausswish_eta_setter self e =
     (if \<not> (\<not> isnan e \<and> Fin (real (dim_w self) - 1) < e) then Inl AssertionError
      else Inr (self\<lparr>param_w := (param_w self)\<lparr>eta_w := e\<rparr>\<rparr>))"

definition gausswish_loglik ::
  "(string \<Rightarrow> num option) \<Rightarrow> (num \<Rightarrow> num) \<Rightarrow> (num \<Rightarrow> num) \<Rightarrow> gausswish \<Rightarrow> num list list
     \<Rightarrow> num option \<Rightarrow> error + lik" where
  "gausswish_loglik glob gammaln psi self obs nu =
     (if \<not> ndim2 obs then Inl AssertionError
      else
        let d = length obs; sz = shape1 obs in
        if d \<noteq> dim_w self then Inl AssertionError
        else
          let mu = mu_w (param_w self); omega = omega_w (param_w self);
              sigma = sigma_w (param_w self); eta = eta_w (param_w self)
          in
          bind_err (linalg_cholesky sigma) (\<lambda>fct.
          bind_err (resid_of obs mu) (\<lambda>rs.
          bind_err (linalg_solve fct rs) (\<lambda>z.
          bind_err (if isfinite omega
                    then bind_err (py_div (Fin (real d)) omega) (\<lambda>c.
                           Inr (map (\<lambda>e. e + c) (sum_axis0 sz (map (map (\<lambda>x. np_sq \<bar>x\<bar>)) z))))
                    else Inr (sum_axis0 sz (map (map (\<lambda>x. np_sq \<bar>x\<bar>)) z))) (\<lambda>sqerr.
          let logdet0 = np_sum (map np_log (np_diag fct)) in
          bind_err (if isfinite eta
                    then bind_err (math_log (eta / Fin 2)) (\<lambda>lg.
                           Inr (logdet0 + (Fin (real d / 2) * lg
                                  - np_sum (map (\<lambda>k. psi ((eta - Fin (real k)) / Fin 2)) [0..<d])
                                    / Fin 2)))
                    else Inr logdet0) (\<lambda>logdet.
            loglik_result glob gammaln d sz (Scalar logdet) sqerr nu))))))"

text \<open>
  \<open>gausswish.div\<close>: the factor of the posterior's \<open>sigma\<close> first, then the two parts as
  in the diagonal family.
\<close>

definition gauss_part_full ::
  "nat \<Rightarrow> num list list \<Rightarrow> gausswish_param \<Rightarrow> gausswish_param \<Rightarrow> error + num option" where
  "gauss_part_full d post_fact post prior =
     (if isfinite (omega_w post) \<and> isfinite (omega_w prior) then
        bind_err (py_div (omega_w prior) (omega_w post)) (\<lambda>r.
        bind_err (math_log r) (\<lambda>lr.
        bind_err (np2 (\<lambda>a b. a - b) (mu_w post) (mu_w prior)) (\<lambda>dm.
        bind_err (linalg_solve_vec post_fact dm) (\<lambda>z.
          Inr (Some (Fin (real d / 2) * (r - lr - Fin 1)
                     + (omega_w prior / Fin 2) * np_sum (map (\<lambda>x. np_sq \<bar>x\<bar>) z)))))))
      else if isinf (omega_w post) \<and> isinf (omega_w prior) then
        bind_err (np2 np_equal (mu_w post) (mu_w prior)) (\<lambda>eqs.
          Inr (if list_all (\<lambda>b. b) eqs then Some (Fin 0) else None))
      else Inr None)"

definition gausswish_div ::
  "(num \<Rightarrow> num) \<Rightarrow> (num \<Rightarrow> num) \<Rightarrow> gausswish \<Rightarrow> gausswish \<Rightarrow> error + num" where
  "gausswish_div gammaln psi self other =
     (if dim_w other \<noteq> dim_w self then Inl AssertionError
      else
        let d = dim_w self; dn = Fin (real (dim_w self));
            post = param_w self; prior = param_w other
        in
        bind_err (linalg_cholesky (sigma_w post)) (\<lambda>post_fact.
        bind_err (gauss_part_full d post_fact post prior) (\<lambda>dv.
          case dv of
            None \<Rightarrow> Inr PInf
          | Some dv \<Rightarrow>
              if isfinite (eta_w post) \<and> isfinite (eta_w prior) then
                bind_err (linalg_cholesky (sigma_w prior)) (\<lambda>prior_fact.
                  let post_det = np_sum (map np_log (np_diag post_fact));
                      prior_det = np_sum (map np_log (np_diag prior_fact))
                  in
                  bind_err (math_log (eta_w post / Fin 2)) (\<lambda>lq.
                    let aux = dn / Fin 2 * lq
                              - np_sum (map (\<lambda>k. psi ((eta_w post - Fin (real k)) / Fin 2)) [0..<d])
                                / Fin 2
                    in
                    bind_err (linalg_solve post_fact prior_fact) (\<lambda>z.
                    bind_err (math_log (eta_w prior / Fin 2)) (\<lambda>lp.
                      Inr (dv - (eta_w post / Fin 2) * dn
                           + (eta_w prior / Fin 2)
                             * np_sum (map (\<lambda>r. np_sum (map (\<lambda>x. np_sq \<bar>x\<bar>) r)) z)
                           + (eta_w prior - eta_w post) * (post_det + aux)
                           - eta_w prior * prior_det + eta_w post * post_det
                           + np_sum (map (\<lambda>k. gammaln ((eta_w prior - Fin (real k)) / Fin 2)) [0..<d])
                           - np_sum (map (\<lambda>k. gammaln ((eta_w post - Fin (real k)) / Fin 2)) [0..<d])
                           - dn * (eta_w prior / Fin 2) * lp
                           + dn * (eta_w post / Fin 2) * lq)))))
              else if isinf (eta_w post) \<and> isinf (eta_w prior) then
                bind_err (mat2 np_equal (sigma_w post) (sigma_w prior)) (\<lambda>eqs.
                  Inr (if list_all (list_all (\<lambda>b. b)) eqs then dv else PInf))
              else Inr PInf)))"

text \<open>The loops of \<open>gausswish.stat\<close>, as in the diagonal family.\<close>

definition gausswish_step_plain ::
  "nat \<Rightarrow> num list \<Rightarrow> num list list \<Rightarrow> gausswish_param \<Rightarrow> error + gausswish_param" where
  "gausswish_step_plain d rf obs stat =
     (if \<not> ndim2 obs then Inl AssertionError
      else if length obs \<noteq> d then Inl AssertionError
      else
        let sz = shape1 obs in
        bind_err (np2 (\<lambda>x y. x + y) (mu_w stat) (sum_axis1 obs)) (\<lambda>m.
        bind_err (resid_of obs rf) (\<lambda>rs.
        bind_err (mat2 (\<lambda>x y. x + y) (sigma_w stat) (dot_T rs rs)) (\<lambda>sg.
          Inr \<lparr>mu_w = m, omega_w = omega_w stat + Fin (real sz),
               sigma_w = sg, eta_w = eta_w stat + Fin (real sz)\<rparr>))))"

definition gausswish_accum ::
  "num list \<Rightarrow> num list list \<Rightarrow> num list \<Rightarrow> num \<Rightarrow> gausswish_param \<Rightarrow> error + gausswish_param" where
  "gausswish_accum rf obs w eta_inc stat =
     bind_err (np2 (\<lambda>x y. x + y) (mu_w stat) (dot_mv obs w)) (\<lambda>m.
     bind_err (resid_of obs rf) (\<lambda>rs.
     bind_err (mat2 (\<lambda>x y. x + y) (sigma_w stat)
                 (dot_T rs (map (\<lambda>r. map2 (\<lambda>x y. x * y) w r) rs))) (\<lambda>sg.
       Inr \<lparr>mu_w = m, omega_w = omega_w stat + np_sum w,
            sigma_w = sg, eta_w = eta_w stat + eta_inc\<rparr>)))"

definition gausswish_step_scaled ::
  "nat \<Rightarrow> num list \<Rightarrow> num list list \<times> num list \<Rightarrow> gausswish_param \<Rightarrow> error + gausswish_param" where
  "gausswish_step_scaled d rf e stat =
     (case e of (obs, scale) \<Rightarrow>
        if \<not> ndim2 obs then Inl AssertionError
        else if length obs \<noteq> d then Inl AssertionError
        else if length scale \<noteq> shape1 obs then Inl AssertionError
        else gausswish_accum rf obs scale (np_sum scale) stat)"

definition gausswish_step_weighted_scaled ::
  "nat \<Rightarrow> num list \<Rightarrow> num list list \<times> num list \<times> num list \<Rightarrow> gausswish_param
     \<Rightarrow> error + gausswish_param" where
  "gausswish_step_weighted_scaled d rf e stat =
     (case e of (obs, weight, scale) \<Rightarrow>
        if \<not> ndim2 obs then Inl AssertionError
        else if length obs \<noteq> d then Inl AssertionError
        else if length weight \<noteq> shape1 obs then Inl AssertionError
        else if length scale \<noteq> shape1 obs then Inl AssertionError
        else gausswish_accum rf obs (map2 (\<lambda>x y. x * y) weight scale) (np_sum scale) stat)"

definition gausswish_step_weighted ::
  "nat \<Rightarrow> num list \<Rightarrow> num list list \<times> num list \<Rightarrow> gausswish_param \<Rightarrow> error + gausswish_param" where
  "gausswish_step_weighted d rf e stat =
     (case e of (obs, weight) \<Rightarrow>
        if \<not> ndim2 obs then Inl AssertionError
        else if length obs \<noteq> d then Inl AssertionError
        else if length weight \<noteq> shape1 obs then Inl AssertionError
        else gausswish_accum rf obs weight (Fin (real (shape1 obs))) stat)"

definition gausswish_stat :: "gausswish \<Rightarrow> evidence \<Rightarrow> error + gausswish_param" where
  "gausswish_stat self ev =
     (let d = dim_w self; rf = mu_w (param_w self);
          stat0 = \<lparr>mu_w = replicate d (Fin 0), omega_w = Fin 0,
                   sigma_w = replicate d (replicate d (Fin 0)), eta_w = Fin 0\<rparr>
      in
      bind_err (case ev of
                  Plain es \<Rightarrow> stat_loop (gausswish_step_plain d rf) es stat0
                | Scaled es \<Rightarrow> stat_loop (gausswish_step_scaled d rf) es stat0
                | WeightedScaled es \<Rightarrow> stat_loop (gausswish_step_weighted_scaled d rf) es stat0
                | Weighted es \<Rightarrow> stat_loop (gausswish_step_weighted d rf) es stat0) (\<lambda>stat.
      bind_err (if Fin 0 < omega_w stat
                then np2 (\<lambda>x y. x - y) rf (map (\<lambda>m. m / omega_w stat) (mu_w stat))
                else Inr rf) (\<lambda>rf'.
      bind_err (mat2 (\<lambda>x y. x - y) (sigma_w stat)
                  (map (map (\<lambda>x. omega_w stat * x)) (outer rf' rf'))) (\<lambda>sg.
        Inr (stat\<lparr>sigma_w := sg\<rparr>)))))"

text \<open>
  \<open>gausswish.update\<close>. The singular branch ends in a bare \<open>return\<close>; every other path
  makes \<open>sigma\<close> symmetric at the end.
\<close>

definition update_wishart ::
  "num list list \<Rightarrow> num \<Rightarrow> num list list \<Rightarrow> num \<Rightarrow> num list \<Rightarrow> num
     \<Rightarrow> error + (num list list \<times> num)" where
  "update_wishart sigma eta stat_sigma stat_eta diff weight =
     bind_err (mat2 (\<lambda>x y. x + y) (map (map (\<lambda>s. eta * s)) sigma) stat_sigma) (\<lambda>s1.
     bind_err (mat2 (\<lambda>x y. x + y) s1 (map (map (\<lambda>x. weight * x)) (outer diff diff))) (\<lambda>s2.
       Inr (map (map (\<lambda>s. s / (eta + stat_eta))) s2, eta + stat_eta)))"

definition symmetrize :: "num list list \<Rightarrow> error + num list list" where
  "symmetrize sigma =
     mat2 (\<lambda>x y. x + y) (map (map (\<lambda>s. s / Fin 2)) sigma)
       (mat_T (shape1 sigma) (map (map (\<lambda>s. s / Fin 2)) sigma))"

definition gausswish_update ::
  "gausswish \<Rightarrow> gausswish_param \<Rightarrow> error + (gausswish \<times> ret)" where
  "gausswish_update self stat =
     (if \<not> (length (mu_w stat) = dim_w self \<and> is_shape (dim_w self) (dim_w self) (sigma_w stat))
        then Inl AssertionError
      else
        let mu = mu_w (param_w self); omega = omega_w (param_w self);
            sigma = sigma_w (param_w self); eta = eta_w (param_w self)
        in
        if isinf omega \<and> isinf eta then Inr (self, RetNone)
        else
          bind_err (update_gauss mu omega (mu_w stat) (omega_w stat)) (\<lambda>(diff, weight, mu', omega').
          bind_err (if isfinite eta
                    then update_wishart sigma eta (sigma_w stat) (eta_w stat) diff weight
                    else Inr (sigma, eta)) (\<lambda>(sigma', eta').
          bind_err (symmetrize sigma') (\<lambda>sigma''.
            Inr (self\<lparr>param_w := \<lparr>mu_w = mu', omega_w = omega', sigma_w = sigma'', eta_w = eta'\<rparr>\<rparr>,
                 RetSelf)))))"

text \<open>
  \<open>gausswish.rand\<close>: the factor of Bartlett's decomposition, whose diagonal comes from
  the gamma variates and whose part below the diagonal from a \<open>dim\<close> by \<open>dim\<close> matrix of
  normal variates (\<open>np.tril(..., -1)\<close> keeps the entries below the diagonal), then the
  location from \<open>dim\<close> further normal variates. \<open>np_diagflat\<close> is \<open>np.diag\<close> of a vector.
\<close>

definition np_diagflat :: "num list \<Rightarrow> num list list" where
  "np_diagflat v =
     map (\<lambda>i. map (\<lambda>j. if i = j then v ! i else Fin 0) [0..<length v]) [0..<length v]"

definition np_tril :: "num list list \<Rightarrow> int \<Rightarrow> num list list" where
  "np_tril m k =
     map (\<lambda>i. map (\<lambda>j. if int j \<le> int i + k then m ! i ! j else Fin 0) [0..<length (m ! i)])
       [0..<length m]"

definition gausswish_rand ::
  "(num \<Rightarrow> 'g \<Rightarrow> num \<times> 'g) \<Rightarrow> ('g \<Rightarrow> num \<times> 'g) \<Rightarrow> gausswish \<Rightarrow> 'g
     \<Rightarrow> error + ((num list \<times> num list list) \<times> 'g)" where
  "gausswish_rand gam nrm self g =
     (let d = dim_w self;
          mu = mu_w (param_w self); omega = omega_w (param_w self);
          sigma = sigma_w (param_w self); eta = eta_w (param_w self)
      in
      bind_err (if isfinite eta
                then bind_err (random_gamma gam (map (\<lambda>k. (eta - Fin (real k)) / Fin 2) [0..<d]) g)
                       (\<lambda>(gs, g1).
                     (case random_randn2 nrm d d g1 of (ns, g2) \<Rightarrow>
                     bind_err (mat2 (\<lambda>x y. x + y)
                                 (np_diagflat (map (\<lambda>x. np_sqrt (Fin 2 * x)) gs))
                                 (np_tril ns (- 1))) (\<lambda>fct0.
                     bind_err (math_sqrt eta) (\<lambda>se.
                     bind_err (linalg_cholesky sigma) (\<lambda>ch.
                     bind_err (linalg_solve fct0
                                 (map (map (\<lambda>x. se * x)) (mat_T (shape1 ch) ch))) (\<lambda>fct.
                       Inr (dot_T (mat_T (shape1 fct) fct) (mat_T (shape1 fct) fct), g2)))))))
                else Inr (sigma, g)) (\<lambda>(disp, g2).
      bind_err (if isfinite omega
                then bind_err (linalg_cholesky disp) (\<lambda>ch.
                     (case random_randn nrm d g2 of (zs, g3) \<Rightarrow>
                     if shape1 ch \<noteq> length zs then Inl ValueError
                     else
                       bind_err (math_sqrt omega) (\<lambda>so.
                       bind_err (np2 (\<lambda>m x. m + x) mu (map (\<lambda>x. x / so) (dot_mv ch zs))) (\<lambda>loc.
                         Inr (loc, g3)))))
                else Inr (mu, g2)) (\<lambda>(loc, g3).
        Inr ((loc, disp), g3))))"

section \<open>The invariants of the parameters\<close>

text \<open>
  The invariants of the data model: a vector on the unit simplex (nonnegative reals whose
  sum is within \<open>np.spacing(1.0)\<close> of one), a positive scalar that may be \<open>+inf\<close>, a vector
  of finite numbers, a vector of positive finite numbers. \<open>support\<close> is the set of the
  coordinates where a vector is positive.
\<close>

fun real_of :: "num \<Rightarrow> real" where
  "real_of (Fin a) = a"
| "real_of _ = 0"

definition nonneg_real :: "num \<Rightarrow> bool" where
  "nonneg_real x = (isfinite x \<and> 0 \<le> real_of x)"

definition pos_real :: "num \<Rightarrow> bool" where
  "pos_real x = (isfinite x \<and> 0 < real_of x)"

definition pos_or_inf :: "num \<Rightarrow> bool" where
  "pos_or_inf x = (x = PInf \<or> pos_real x)"

definition simplex :: "nat \<Rightarrow> num list \<Rightarrow> bool" where
  "simplex d p = (length p = d \<and> list_all nonneg_real p
                   \<and> \<bar>sum_list (map real_of p) - 1\<bar> < spacing1)"

definition finite_vec :: "nat \<Rightarrow> num list \<Rightarrow> bool" where
  "finite_vec d m = (length m = d \<and> list_all isfinite m)"

definition pos_vec :: "nat \<Rightarrow> num list \<Rightarrow> bool" where
  "pos_vec d s = (length s = d \<and> list_all pos_real s)"

definition support :: "num list \<Rightarrow> nat set" where
  "support p = set (np_where (map (\<lambda>x. Fin 0 < x) p))"

definition dirich_valid :: "dirich \<Rightarrow> bool" where
  "dirich_valid self =
     (simplex (dim_d self) (pi_d (param_d self)) \<and> pos_or_inf (alpha_d (param_d self)))"

definition gaussgamma_valid :: "gaussgamma \<Rightarrow> bool" where
  "gaussgamma_valid self =
     (finite_vec (dim_g self) (mu_g (param_g self)) \<and> pos_or_inf (omega_g (param_g self))
      \<and> pos_vec (dim_g self) (sigma_g (param_g self)) \<and> pos_or_inf (eta_g (param_g self)))"

text \<open>
  The invariants of the full-covariance family: the check of the setter of \<open>sigma\<close>
  (a \<open>d\<close> by \<open>d\<close> matrix of finite numbers, symmetric within the tolerance of
  \<open>np.allclose\<close>, with positive eigenvalues), the degrees of freedom above \<open>d - 1\<close>, and a
  valid instance, whose dimension is positive (the constructor's \<open>dim > 0\<close>) and
  whose \<open>sigma\<close> is symmetric and has a Cholesky factor (it is positive definite).
\<close>

definition sigma_check :: "(num list list \<Rightarrow> num list) \<Rightarrow> nat \<Rightarrow> num list list \<Rightarrow> bool" where
  "sigma_check eigvals d s =
     (is_shape d d s \<and> list_all (list_all isfinite) s \<and> allclose (mat_T d s) s
      \<and> list_all (\<lambda>x. Fin 0 < x) (eigvals s))"

definition dof_ok :: "nat \<Rightarrow> num \<Rightarrow> bool" where
  "dof_ok d e = (e = PInf \<or> (isfinite e \<and> real d - 1 < real_of e))"

definition pos_def :: "num list list \<Rightarrow> bool" where
  "pos_def s = (case linalg_cholesky s of Inl e \<Rightarrow> False | Inr l \<Rightarrow> True)"

definition gausswish_valid :: "gausswish \<Rightarrow> bool" where
  "gausswish_valid self =
     (0 < dim_w self \<and> finite_vec (dim_w self) (mu_w (param_w self)) \<and> pos_or_inf (omega_w (param_w self))
      \<and> is_shape (dim_w self) (dim_w self) (sigma_w (param_w self))
      \<and> list_all (list_all isfinite) (sigma_w (param_w self))
      \<and> mat_T (dim_w self) (sigma_w (param_w self)) = sigma_w (param_w self)
      \<and> pos_def (sigma_w (param_w self))
      \<and> dof_ok (dim_w self) (eta_w (param_w self)))"

text \<open>The statistics record of no evidence: every accumulator is zero.\<close>

definition dirich_zero :: "nat \<Rightarrow> dirich_param" where
  "dirich_zero d = \<lparr>pi_d = replicate d (Fin 0), alpha_d = Fin 0\<rparr>"

definition gaussgamma_zero :: "nat \<Rightarrow> gaussgamma_param" where
  "gaussgamma_zero d =
     \<lparr>mu_g = replicate d (Fin 0), omega_g = Fin 0, sigma_g = replicate d (Fin 0), eta_g = Fin 0\<rparr>"

definition gausswish_zero :: "nat \<Rightarrow> gausswish_param" where
  "gausswish_zero d =
     \<lparr>mu_w = replicate d (Fin 0), omega_w = Fin 0,
      sigma_w = replicate d (replicate d (Fin 0)), eta_w = Fin 0\<rparr>"

text \<open>
  \<open>scipy.special.gammaln\<close> and \<open>scipy.special.psi\<close> are finite at every positive
  argument; that is all the properties below use of them.
\<close>

definition finite_on_pos :: "(num \<Rightarrow> num) \<Rightarrow> bool" where
  "finite_on_pos f = (\<forall>x. 0 < x \<longrightarrow> isfinite (f (Fin x)))"

text \<open>
  Two predicates for the proofs about the factorisation: the rows of a lower-triangular
  factor (finite, with a positive diagonal and zeros to its right), and the equation that
  row \<open>i\<close> of the result of the forward substitution satisfies.
\<close>

definition lower_factor :: "nat \<Rightarrow> num list list \<Rightarrow> bool" where
  "lower_factor n l =
     (\<forall>i < length l. length (l ! i) = n \<and> list_all isfinite (l ! i)
        \<and> (\<exists>x. l ! i ! i = Fin x \<and> 0 < x)
        \<and> (\<forall>j. i < j \<and> j < n \<longrightarrow> l ! i ! j = Fin 0))"

definition fsub_row :: "num list list \<Rightarrow> num list list \<Rightarrow> num list list \<Rightarrow> nat \<Rightarrow> bool" where
  "fsub_row l b x i =
     (l ! i ! i \<noteq> Fin 0
      \<and> x ! i = map2 (\<lambda>u v. (u - v) / (l ! i ! i)) (b ! i)
                  (foldr (\<lambda>(c, y) acc. map2 (\<lambda>u v. c * u + v) y acc) (zip (take i (l ! i)) (take i x))
                     (replicate (length (b ! i)) (Fin 0))))"

text \<open>
  The statistics of a batch of evidence. A batch is an observation matrix with the weight
  of each observation (each column); \<open>batches\<close> gives the batches of an evidence with the
  weights \<open>stat\<close> uses in each of its four modes: one, the scale, the product of weight
  and scale, the weight. \<open>weighted_sq_dev\<close> is the weighted sum of the squared deviations
  of the observations from a point \<open>m\<close>, coordinate by coordinate, and
  \<open>weighted_outer_dev\<close> the weighted sum of the outer products of the deviations.
  An evidence is well formed when every item passes the assertions of \<open>stat\<close> and holds
  finite numbers.
\<close>

type_synonym batch = "num list list \<times> num list"

definition batches :: "evidence \<Rightarrow> batch list" where
  "batches ev =
     (case ev of
        Plain es \<Rightarrow> map (\<lambda>obs. (obs, replicate (shape1 obs) (Fin 1))) es
      | Scaled es \<Rightarrow> es
      | WeightedScaled es \<Rightarrow> map (\<lambda>(obs, weight, scale). (obs, map2 (\<lambda>x y. x * y) weight scale)) es
      | Weighted es \<Rightarrow> es)"

definition weighted_sq_dev :: "nat \<Rightarrow> batch list \<Rightarrow> num list \<Rightarrow> num list" where
  "weighted_sq_dev d bs m =
     map (\<lambda>i. np_sum (map (\<lambda>(obs, w).
                 np_sum (map (\<lambda>k. w ! k * np_sq (obs ! i ! k - m ! i)) [0..<length w])) bs))
       [0..<d]"

definition weighted_outer_dev :: "nat \<Rightarrow> batch list \<Rightarrow> num list \<Rightarrow> num list list" where
  "weighted_outer_dev d bs m =
     map (\<lambda>i. map (\<lambda>j. np_sum (map (\<lambda>(obs, w).
                 np_sum (map (\<lambda>k. w ! k * ((obs ! i ! k - m ! i) * (obs ! j ! k - m ! j)))
                           [0..<length w])) bs))
                 [0..<d])
       [0..<d]"

definition batch_ok :: "nat \<Rightarrow> batch \<Rightarrow> bool" where
  "batch_ok d b =
     (ndim2 (fst b) \<and> length (fst b) = d \<and> length (snd b) = shape1 (fst b)
      \<and> list_all (list_all isfinite) (fst b) \<and> list_all isfinite (snd b))"

definition evidence_ok :: "nat \<Rightarrow> evidence \<Rightarrow> bool" where
  "evidence_ok d ev =
     (case ev of
        Plain es \<Rightarrow> list_all (\<lambda>obs. batch_ok d (obs, replicate (shape1 obs) (Fin 1))) es
      | Scaled es \<Rightarrow> list_all (batch_ok d) es
      | WeightedScaled es \<Rightarrow>
          list_all (\<lambda>(obs, weight, scale). batch_ok d (obs, weight) \<and> batch_ok d (obs, scale)) es
      | Weighted es \<Rightarrow> list_all (batch_ok d) es)"

text \<open>
  The sums of one batch and of a list of batches over the reals, for the proofs: the
  total weight, the weighted sum of coordinate \<open>i\<close>, and the weighted sum of the products
  of the deviations of coordinates \<open>i\<close> and \<open>j\<close> from \<open>a\<close> and \<open>c\<close>.
\<close>

definition bW :: "batch \<Rightarrow> real" where
  "bW b = (\<Sum>k<length (snd b). real_of (snd b ! k))"

definition bM :: "batch \<Rightarrow> nat \<Rightarrow> real" where
  "bM b i = (\<Sum>k<length (snd b). real_of (fst b ! i ! k) * real_of (snd b ! k))"

definition bC :: "batch \<Rightarrow> nat \<Rightarrow> nat \<Rightarrow> real \<Rightarrow> real \<Rightarrow> real" where
  "bC b i j a c =
     (\<Sum>k<length (snd b). (real_of (fst b ! i ! k) - a)
                            * (real_of (snd b ! k) * (real_of (fst b ! j ! k) - c)))"

definition tW :: "batch list \<Rightarrow> real" where
  "tW bs = sum_list (map bW bs)"

definition tM :: "batch list \<Rightarrow> nat \<Rightarrow> real" where
  "tM bs i = sum_list (map (\<lambda>b. bM b i) bs)"

definition tC :: "batch list \<Rightarrow> nat \<Rightarrow> nat \<Rightarrow> real \<Rightarrow> real \<Rightarrow> real" where
  "tC bs i j a c = sum_list (map (\<lambda>b. bC b i j a c) bs)"

text \<open>
  The full-covariance instance with the parameters of an instance of the diagonal family:
  the same \<open>mu\<close>, \<open>omega\<close> and \<open>eta\<close>, and the matrix with the entries of \<open>sigma\<close> on its
  diagonal, which for one dimension is the one by one matrix of its entry. A gamma sampler
  returns a positive finite variate at every positive finite shape.
\<close>

definition as_full_param :: "gaussgamma_param \<Rightarrow> gausswish_param" where
  "as_full_param p =
     \<lparr>mu_w = mu_g p, omega_w = omega_g p, sigma_w = np_diagflat (sigma_g p), eta_w = eta_g p\<rparr>"

definition as_full :: "gaussgamma \<Rightarrow> gausswish" where
  "as_full g = \<lparr>dim_w = dim_g g, param_w = as_full_param (param_g g)\<rparr>"

definition gamma_sampler :: "(num \<Rightarrow> 'g \<Rightarrow> num \<times> 'g) \<Rightarrow> bool" where
  "gamma_sampler gam = (\<forall>a g. pos_real a \<longrightarrow> pos_real (fst (gam a g)))"

section \<open>Properties\<close>

lemma np2_same_length: "length xs = length ys \<Longrightarrow> np2 f xs ys = Inr (map2 f xs ys)"
  by (simp add: np2_def)

lemma minus_Fin [simp]: "Fin a - Fin b = Fin (a - b)"
  by (simp add: minus_num_def)

lemma all_finite_Fin [simp]: "list_all isfinite (map Fin rs)"
  by (induction rs) simp_all

lemma finite_list_conv: "list_all isfinite xs \<longleftrightarrow> xs = map Fin (map real_of xs)"
proof (induction xs)
  case Nil
  show ?case by simp
next
  case (Cons x xs)
  then show ?case by (cases x) auto
qed

lemma np_sum_Fin [simp]: "np_sum (map Fin rs) = Fin (sum_list rs)"
  by (induction rs) simp_all

lemma np_sum_not_finite:
  "\<not> list_all isfinite xs \<Longrightarrow> list_all (\<lambda>x. Fin 0 \<le> x) xs \<Longrightarrow> np_sum xs = PInf"
proof (induction xs)
  case Nil
  then show ?case by simp
next
  case (Cons x xs)
  show ?case
  proof (cases "list_all isfinite xs")
    case True
    then obtain rs where "xs = map Fin rs" using finite_list_conv by blast
    with Cons.prems show ?thesis
      by (cases x) (auto simp: less_eq_num_def)
  next
    case False
    with Cons have "np_sum xs = PInf" by simp
    with Cons.prems show ?thesis
      by (cases x) (auto simp: less_eq_num_def)
  qed
qed

lemma pi_check_iff:
  "(list_all (\<lambda>x. Fin 0 \<le> x) p \<and> \<bar>np_sum p - Fin 1\<bar> < Fin spacing1)
     \<longleftrightarrow> (list_all nonneg_real p \<and> \<bar>sum_list (map real_of p) - 1\<bar> < spacing1)"
proof (cases "list_all isfinite p")
  case True
  then obtain rs where p: "p = map Fin rs" using finite_list_conv by blast
  show ?thesis
    by (simp add: p list_all_iff nonneg_real_def less_eq_num_def comp_def) (auto simp: image_iff)
next
  case False
  then have "\<not> list_all nonneg_real p"
    by (auto simp: list_all_iff nonneg_real_def)
  moreover have "\<not> (list_all (\<lambda>x. Fin 0 \<le> x) p \<and> \<bar>np_sum p - Fin 1\<bar> < Fin spacing1)"
    using np_sum_not_finite[OF False] by (auto simp: minus_num_def)
  ultimately show ?thesis by blast
qed

lemma alpha_check_iff: "(\<not> isnan a \<and> Fin 0 < a) \<longleftrightarrow> pos_or_inf a"
  by (cases a) (auto simp: pos_or_inf_def pos_real_def)

lemma support_iff: "i \<in> support p \<longleftrightarrow> i < length p \<and> Fin 0 < p ! i"
  by (auto simp: support_def np_where_def)

lemma xor_support:
  assumes "length p = length q" "support p \<noteq> support q"
  shows "list_ex (\<lambda>b. b) (map2 logical_xor (map (\<lambda>x. Fin 0 < x) p) (map (\<lambda>x. Fin 0 < x) q))"
proof -
  from assms(2) obtain i where i: "(i \<in> support p) \<noteq> (i \<in> support q)" by blast
  then have il: "i < length p" using assms(1) by (auto simp: support_iff)
  with i assms(1) have "(Fin 0 < p ! i) \<noteq> (Fin 0 < q ! i)" by (auto simp: support_iff)
  then have "logical_xor (Fin 0 < p ! i) (Fin 0 < q ! i)" by (simp add: logical_xor_def)
  then have "map2 logical_xor (map (\<lambda>x. Fin 0 < x) p) (map (\<lambda>x. Fin 0 < x) q) ! i"
    using il assms(1) by simp
  then show ?thesis
    unfolding list_ex_iff using il assms(1)
    by (metis (no_types, lifting) length_map length_zip min.idem nth_mem)
qed

lemma all_equal_iff:
  assumes "length p = length q"
  shows "list_all (\<lambda>b. b) (map2 np_equal p q) \<longleftrightarrow> p = q \<and> list_all (\<lambda>x. \<not> isnan x) p"
  using assms
  by (induction p q rule: list_induct2) (auto simp: np_equal_def)

text \<open>
  C3. The Dirichlet instance with \<open>dim = 3\<close>, \<open>pi = [1/3, 1/3, 1/3]\<close>, \<open>alpha = 1\<close>:
  \<open>stat\<close> over the single responsibility matrix \<open>[[1,0],[0,1],[0,0]]\<close> returns
  \<open>stat.pi = [1,1,0]\<close> and \<open>stat.alpha = 2\<close>, and \<open>update\<close> with that record sets
  \<open>pi\<close> to \<open>[(1/3+1)/3, (1/3+1)/3, (1/3)/3]\<close> and \<open>alpha\<close> to 3.
\<close>

theorem dirich_stat_update_scenario:
  "dirich_init 3 (Some [Fin (1/3), Fin (1/3), Fin (1/3)]) (Some (Fin 1))
     = Inr \<lparr>dim_d = 3, param_d = \<lparr>pi_d = [Fin (1/3), Fin (1/3), Fin (1/3)], alpha_d = Fin 1\<rparr>\<rparr>
   \<and> dirich_stat \<lparr>dim_d = 3, param_d = \<lparr>pi_d = [Fin (1/3), Fin (1/3), Fin (1/3)], alpha_d = Fin 1\<rparr>\<rparr>
        [[[Fin 1, Fin 0], [Fin 0, Fin 1], [Fin 0, Fin 0]]]
     = Inr \<lparr>pi_d = [Fin 1, Fin 1, Fin 0], alpha_d = Fin 2\<rparr>
   \<and> dirich_update \<lparr>dim_d = 3, param_d = \<lparr>pi_d = [Fin (1/3), Fin (1/3), Fin (1/3)], alpha_d = Fin 1\<rparr>\<rparr>
        \<lparr>pi_d = [Fin 1, Fin 1, Fin 0], alpha_d = Fin 2\<rparr>
     = Inr (\<lparr>dim_d = 3, param_d = \<lparr>pi_d = [Fin ((1/3 + 1) / 3), Fin ((1/3 + 1) / 3), Fin ((1/3) / 3)],
                                    alpha_d = Fin 3\<rparr>\<rparr>, RetSelf)"
  by (simp add: dirich_init_def dirich_stat_def dirich_update_def np2_def bind_err_def
      minus_num_def Let_def numeral_3_eq_3)

text \<open>
  C4. For two Dirichlet instances of one dimension, \<open>div\<close> returns \<open>+inf\<close> whenever the
  supports differ; when both \<open>alpha\<close> are \<open>+inf\<close> it returns 0 if the \<open>pi\<close> vectors are
  equal and \<open>+inf\<close> otherwise; when exactly one \<open>alpha\<close> is finite it returns \<open>+inf\<close>.
  The vectors have the length of the dimension and hold no NaN.
\<close>

theorem dirich_div_degenerate:
  assumes "dim_d other = dim_d self"
    and "length (pi_d (param_d self)) = dim_d self"
    and "length (pi_d (param_d other)) = dim_d self"
    and "list_all (\<lambda>x. \<not> isnan x) (pi_d (param_d self))"
  shows "(support (pi_d (param_d self)) \<noteq> support (pi_d (param_d other))
            \<longrightarrow> dirich_div gammaln psi self other = Inr PInf)
       \<and> (alpha_d (param_d self) = PInf \<and> alpha_d (param_d other) = PInf
            \<longrightarrow> dirich_div gammaln psi self other
                  = Inr (if pi_d (param_d self) = pi_d (param_d other) then Fin 0 else PInf))
       \<and> (isfinite (alpha_d (param_d self)) \<noteq> isfinite (alpha_d (param_d other))
            \<longrightarrow> dirich_div gammaln psi self other = Inr PInf)"
proof -
  let ?p = "pi_d (param_d self)" and ?q = "pi_d (param_d other)"
  have len: "length ?p = length ?q" using assms by simp
  have eqs: "np2 np_equal ?p ?q = Inr (map2 np_equal ?p ?q)"
    using len by (rule np2_same_length)
  have xors: "np2 logical_xor (map (\<lambda>x. Fin 0 < x) ?p) (map (\<lambda>x. Fin 0 < x) ?q)
      = Inr (map2 logical_xor (map (\<lambda>x. Fin 0 < x) ?p) (map (\<lambda>x. Fin 0 < x) ?q))"
    using len by (simp add: np2_same_length)
  have all: "list_all (\<lambda>b. b) (map2 np_equal ?p ?q) \<longleftrightarrow> ?p = ?q"
    using all_equal_iff[OF len] assms(4) by simp
  have one: "dirich_div gammaln psi self other = Inr PInf"
    if "support ?p \<noteq> support ?q"
  proof -
    have ne: "?p \<noteq> ?q" using that by auto
    show ?thesis
      using xor_support[OF len that] ne
      by (simp add: dirich_div_def assms(1) Let_def xors eqs all bind_err_def)
  qed
  have two: "dirich_div gammaln psi self other = Inr (if ?p = ?q then Fin 0 else PInf)"
    if "alpha_d (param_d self) = PInf \<and> alpha_d (param_d other) = PInf"
    using that by (simp add: dirich_div_def assms(1) Let_def eqs all bind_err_def)
  have three: "dirich_div gammaln psi self other = Inr PInf"
    if "isfinite (alpha_d (param_d self)) \<noteq> isfinite (alpha_d (param_d other))"
    using that
    by (cases "alpha_d (param_d self)"; cases "alpha_d (param_d other)")
       (simp_all add: dirich_div_def assms(1) Let_def eqs bind_err_def)
  from one two three show ?thesis by blast
qed

theorem dirich_div_degenerate_witness:
  "dirich_div (\<lambda>x. x) (\<lambda>x. x)
      \<lparr>dim_d = 2, param_d = \<lparr>pi_d = [Fin 1, Fin 0], alpha_d = Fin 1\<rparr>\<rparr>
      \<lparr>dim_d = 2, param_d = \<lparr>pi_d = [Fin 0, Fin 1], alpha_d = Fin 1\<rparr>\<rparr> = Inr PInf
   \<and> dirich_div (\<lambda>x. x) (\<lambda>x. x)
      \<lparr>dim_d = 2, param_d = \<lparr>pi_d = [Fin 1, Fin 0], alpha_d = PInf\<rparr>\<rparr>
      \<lparr>dim_d = 2, param_d = \<lparr>pi_d = [Fin 1, Fin 0], alpha_d = PInf\<rparr>\<rparr> = Inr (Fin 0)
   \<and> dirich_div (\<lambda>x. x) (\<lambda>x. x)
      \<lparr>dim_d = 2, param_d = \<lparr>pi_d = [Fin 1, Fin 0], alpha_d = Fin 1\<rparr>\<rparr>
      \<lparr>dim_d = 2, param_d = \<lparr>pi_d = [Fin 1, Fin 0], alpha_d = PInf\<rparr>\<rparr> = Inr PInf"
proof -
  have s: "support [Fin 1, Fin 0] \<noteq> support [Fin 0, Fin 1]"
    by (auto simp: support_iff set_eq_iff intro!: exI[of _ 0])
  show ?thesis
    using s
      dirich_div_degenerate[of "\<lparr>dim_d = 2, param_d = \<lparr>pi_d = [Fin 0, Fin 1], alpha_d = Fin 1\<rparr>\<rparr>"
        "\<lparr>dim_d = 2, param_d = \<lparr>pi_d = [Fin 1, Fin 0], alpha_d = Fin 1\<rparr>\<rparr>" "\<lambda>x. x" "\<lambda>x. x"]
      dirich_div_degenerate[of "\<lparr>dim_d = 2, param_d = \<lparr>pi_d = [Fin 1, Fin 0], alpha_d = PInf\<rparr>\<rparr>"
        "\<lparr>dim_d = 2, param_d = \<lparr>pi_d = [Fin 1, Fin 0], alpha_d = PInf\<rparr>\<rparr>" "\<lambda>x. x" "\<lambda>x. x"]
      dirich_div_degenerate[of "\<lparr>dim_d = 2, param_d = \<lparr>pi_d = [Fin 1, Fin 0], alpha_d = PInf\<rparr>\<rparr>"
        "\<lparr>dim_d = 2, param_d = \<lparr>pi_d = [Fin 1, Fin 0], alpha_d = Fin 1\<rparr>\<rparr>" "\<lambda>x. x" "\<lambda>x. x"]
    by simp
qed

text \<open>
  C9. \<open>update\<close> returns \<open>self\<close> in every case, the singular branches included. The
  code does not: in the singular branch (\<open>alpha\<close> infinite; \<open>omega\<close> and \<open>eta\<close> both
  infinite) \<open>dirich.update\<close> and \<open>gausswish.update\<close> end in a bare \<open>return\<close> and
  return \<open>None\<close>, where \<open>gaussgamma.update\<close> returns \<open>self\<close>.
\<close>

theorem update_singular_returns_none:
  "dirich_update \<lparr>dim_d = 1, param_d = \<lparr>pi_d = [Fin 1], alpha_d = PInf\<rparr>\<rparr>
       \<lparr>pi_d = [Fin 0], alpha_d = Fin 0\<rparr>
     = Inr (\<lparr>dim_d = 1, param_d = \<lparr>pi_d = [Fin 1], alpha_d = PInf\<rparr>\<rparr>, RetNone)
   \<and> gausswish_update
       \<lparr>dim_w = 1, param_w = \<lparr>mu_w = [Fin 0], omega_w = PInf, sigma_w = [[Fin 1]], eta_w = PInf\<rparr>\<rparr>
       \<lparr>mu_w = [Fin 0], omega_w = Fin 0, sigma_w = [[Fin 0]], eta_w = Fin 0\<rparr>
     = Inr (\<lparr>dim_w = 1, param_w = \<lparr>mu_w = [Fin 0], omega_w = PInf, sigma_w = [[Fin 1]], eta_w = PInf\<rparr>\<rparr>,
            RetNone)
   \<and> gaussgamma_update
       \<lparr>dim_g = 1, param_g = \<lparr>mu_g = [Fin 0], omega_g = PInf, sigma_g = [Fin 1], eta_g = PInf\<rparr>\<rparr>
       \<lparr>mu_g = [Fin 0], omega_g = Fin 0, sigma_g = [Fin 0], eta_g = Fin 0\<rparr>
     = Inr (\<lparr>dim_g = 1, param_g = \<lparr>mu_g = [Fin 0], omega_g = PInf, sigma_g = [Fin 1], eta_g = PInf\<rparr>\<rparr>,
            RetSelf)"
  by (simp add: dirich_update_def gausswish_update_def gaussgamma_update_def is_shape_def)

text \<open>
  C2. An invalid hyperparameter is refused at the point of assignment, also when it is
  passed to the constructor. The constructors do not: they check \<open>dim > 0\<close> only and
  store what they are given.
\<close>

theorem constructor_stores_invalid_parameters:
  "dirich_init 2 (Some [Fin 2, Fin (- 1)]) (Some (Fin (- 1)))
     = Inr \<lparr>dim_d = 2, param_d = \<lparr>pi_d = [Fin 2, Fin (- 1)], alpha_d = Fin (- 1)\<rparr>\<rparr>
   \<and> \<not> simplex 2 [Fin 2, Fin (- 1)] \<and> \<not> pos_or_inf (Fin (- 1))
   \<and> gausswish_init 1 (Some [PInf]) (Some NaN) (Some [[Fin (- 1)]]) (Some (Fin 0))
     = Inr \<lparr>dim_w = 1, param_w = \<lparr>mu_w = [PInf], omega_w = NaN, sigma_w = [[Fin (- 1)]],
                                   eta_w = Fin 0\<rparr>\<rparr>
   \<and> \<not> finite_vec 1 [PInf] \<and> \<not> pos_or_inf NaN"
  by (simp add: dirich_init_def gausswish_init_def simplex_def nonneg_real_def pos_or_inf_def
      pos_real_def finite_vec_def)

lemma mu_check_iff: "(\<not> list_ex isnan m \<and> list_all isfinite m) \<longleftrightarrow> list_all isfinite m"
proof (induction m)
  case Nil
  show ?case by simp
next
  case (Cons x m)
  then show ?case by (cases x) auto
qed

lemma sigma_vec_check_iff:
  "(\<not> list_ex isnan s \<and> list_all isfinite s \<and> list_all (\<lambda>x. Fin 0 < x) s) \<longleftrightarrow> list_all pos_real s"
proof (induction s)
  case Nil
  show ?case by simp
next
  case (Cons x s)
  then show ?case by (cases x) (auto simp: pos_real_def)
qed

lemma sigma_mat_check_iff:
  "(\<not> list_ex (list_ex isnan) s \<and> list_all (list_all isfinite) s) \<longleftrightarrow> list_all (list_all isfinite) s"
proof (induction s)
  case Nil
  show ?case by simp
next
  case (Cons r s)
  then show ?case using mu_check_iff[of r] by auto
qed

lemma dof_check_iff: "(\<not> isnan e \<and> Fin (real d - 1) < e) \<longleftrightarrow> dof_ok d e"
  by (cases e) (auto simp: dof_ok_def)

text \<open>
  C2, amended. Every property setter of the three families raises AssertionError for a
  value that breaks the invariant of its parameter (the instance is then as it was) and
  stores the value otherwise, leaving the other parameters alone; a constructor given
  all its hyperparameters checks \<open>dim > 0\<close> only and stores them as they are.
\<close>

theorem setters_fail_fast:
  "dirich_pi_setter a p
     = (if simplex (dim_d a) p then Inr (a\<lparr>param_d := (param_d a)\<lparr>pi_d := p\<rparr>\<rparr>)
        else Inl AssertionError)
   \<and> dirich_alpha_setter a x
     = (if pos_or_inf x then Inr (a\<lparr>param_d := (param_d a)\<lparr>alpha_d := x\<rparr>\<rparr>)
        else Inl AssertionError)
   \<and> gaussgamma_mu_setter b m
     = (if finite_vec (dim_g b) m then Inr (b\<lparr>param_g := (param_g b)\<lparr>mu_g := m\<rparr>\<rparr>)
        else Inl AssertionError)
   \<and> gaussgamma_omega_setter b x
     = (if pos_or_inf x then Inr (b\<lparr>param_g := (param_g b)\<lparr>omega_g := x\<rparr>\<rparr>)
        else Inl AssertionError)
   \<and> gaussgamma_sigma_setter b s
     = (if pos_vec (dim_g b) s then Inr (b\<lparr>param_g := (param_g b)\<lparr>sigma_g := s\<rparr>\<rparr>)
        else Inl AssertionError)
   \<and> gaussgamma_eta_setter b x
     = (if pos_or_inf x then Inr (b\<lparr>param_g := (param_g b)\<lparr>eta_g := x\<rparr>\<rparr>)
        else Inl AssertionError)
   \<and> gausswish_mu_setter c m
     = (if finite_vec (dim_w c) m then Inr (c\<lparr>param_w := (param_w c)\<lparr>mu_w := m\<rparr>\<rparr>)
        else Inl AssertionError)
   \<and> gausswish_omega_setter c x
     = (if pos_or_inf x then Inr (c\<lparr>param_w := (param_w c)\<lparr>omega_w := x\<rparr>\<rparr>)
        else Inl AssertionError)
   \<and> gausswish_sigma_setter eigvals c t
     = (if sigma_check eigvals (dim_w c) t then Inr (c\<lparr>param_w := (param_w c)\<lparr>sigma_w := t\<rparr>\<rparr>)
        else Inl AssertionError)
   \<and> gausswish_eta_setter c x
     = (if dof_ok (dim_w c) x then Inr (c\<lparr>param_w := (param_w c)\<lparr>eta_w := x\<rparr>\<rparr>)
        else Inl AssertionError)
   \<and> dirich_init n (Some p) (Some x)
     = (if 0 < n then Inr \<lparr>dim_d = nat n, param_d = \<lparr>pi_d = p, alpha_d = x\<rparr>\<rparr>
        else Inl AssertionError)
   \<and> gaussgamma_init n (Some m) (Some x) (Some s) (Some y)
     = (if 0 < n then Inr \<lparr>dim_g = nat n, param_g = \<lparr>mu_g = m, omega_g = x, sigma_g = s, eta_g = y\<rparr>\<rparr>
        else Inl AssertionError)
   \<and> gausswish_init n (Some m) (Some x) (Some t) (Some y)
     = (if 0 < n then Inr \<lparr>dim_w = nat n, param_w = \<lparr>mu_w = m, omega_w = x, sigma_w = t, eta_w = y\<rparr>\<rparr>
        else Inl AssertionError)"
proof -
  have 1: "dirich_pi_setter a p
     = (if simplex (dim_d a) p then Inr (a\<lparr>param_d := (param_d a)\<lparr>pi_d := p\<rparr>\<rparr>)
        else Inl AssertionError)"
    using pi_check_iff[of p] by (auto simp: dirich_pi_setter_def simplex_def)
  have 2: "dirich_alpha_setter a x
     = (if pos_or_inf x then Inr (a\<lparr>param_d := (param_d a)\<lparr>alpha_d := x\<rparr>\<rparr>)
        else Inl AssertionError)"
    using alpha_check_iff[of x] by (auto simp: dirich_alpha_setter_def)
  have 3: "gaussgamma_mu_setter b m
     = (if finite_vec (dim_g b) m then Inr (b\<lparr>param_g := (param_g b)\<lparr>mu_g := m\<rparr>\<rparr>)
        else Inl AssertionError)"
    using mu_check_iff[of m] by (auto simp: gaussgamma_mu_setter_def finite_vec_def)
  have 4: "gaussgamma_omega_setter b x
     = (if pos_or_inf x then Inr (b\<lparr>param_g := (param_g b)\<lparr>omega_g := x\<rparr>\<rparr>)
        else Inl AssertionError)"
    using alpha_check_iff[of x] by (auto simp: gaussgamma_omega_setter_def)
  have 5: "gaussgamma_sigma_setter b s
     = (if pos_vec (dim_g b) s then Inr (b\<lparr>param_g := (param_g b)\<lparr>sigma_g := s\<rparr>\<rparr>)
        else Inl AssertionError)"
    using sigma_vec_check_iff[of s] by (auto simp: gaussgamma_sigma_setter_def pos_vec_def)
  have 6: "gaussgamma_eta_setter b x
     = (if pos_or_inf x then Inr (b\<lparr>param_g := (param_g b)\<lparr>eta_g := x\<rparr>\<rparr>)
        else Inl AssertionError)"
    using alpha_check_iff[of x] by (auto simp: gaussgamma_eta_setter_def)
  have 7: "gausswish_mu_setter c m
     = (if finite_vec (dim_w c) m then Inr (c\<lparr>param_w := (param_w c)\<lparr>mu_w := m\<rparr>\<rparr>)
        else Inl AssertionError)"
    using mu_check_iff[of m] by (auto simp: gausswish_mu_setter_def finite_vec_def)
  have 8: "gausswish_omega_setter c x
     = (if pos_or_inf x then Inr (c\<lparr>param_w := (param_w c)\<lparr>omega_w := x\<rparr>\<rparr>)
        else Inl AssertionError)"
    using alpha_check_iff[of x] by (auto simp: gausswish_omega_setter_def)
  have 9: "gausswish_sigma_setter eigvals c t
     = (if sigma_check eigvals (dim_w c) t then Inr (c\<lparr>param_w := (param_w c)\<lparr>sigma_w := t\<rparr>\<rparr>)
        else Inl AssertionError)"
    using sigma_mat_check_iff[of t] by (auto simp: gausswish_sigma_setter_def sigma_check_def)
  have 10: "gausswish_eta_setter c x
     = (if dof_ok (dim_w c) x then Inr (c\<lparr>param_w := (param_w c)\<lparr>eta_w := x\<rparr>\<rparr>)
        else Inl AssertionError)"
    using dof_check_iff[of x "dim_w c"] by (auto simp: gausswish_eta_setter_def)
  have 11: "dirich_init n (Some p) (Some x)
     = (if 0 < n then Inr \<lparr>dim_d = nat n, param_d = \<lparr>pi_d = p, alpha_d = x\<rparr>\<rparr>
        else Inl AssertionError)"
    by (simp add: dirich_init_def)
  have 12: "gaussgamma_init n (Some m) (Some x) (Some s) (Some y)
     = (if 0 < n then Inr \<lparr>dim_g = nat n, param_g = \<lparr>mu_g = m, omega_g = x, sigma_g = s, eta_g = y\<rparr>\<rparr>
        else Inl AssertionError)"
    by (simp add: gaussgamma_init_def)
  have 13: "gausswish_init n (Some m) (Some x) (Some t) (Some y)
     = (if 0 < n then Inr \<lparr>dim_w = nat n, param_w = \<lparr>mu_w = m, omega_w = x, sigma_w = t, eta_w = y\<rparr>\<rparr>
        else Inl AssertionError)"
    by (simp add: gausswish_init_def)
  from 1 2 3 4 5 6 7 8 9 10 11 12 13 show ?thesis by (intro conjI)
qed

lemma map2_replicate_right:
  "length xs = d \<Longrightarrow> map2 f xs (replicate d z) = map (\<lambda>x. f x z) xs"
  by (induction xs arbitrary: d) auto

lemma pos_or_inf_cases:
  assumes "pos_or_inf x"
  obtains "x = PInf" | r where "x = Fin r" "0 < r"
  using assms by (cases x) (auto simp: pos_or_inf_def pos_real_def)

lemma pos_vec_conv:
  "pos_vec d s \<Longrightarrow> \<exists>rs. s = map Fin rs \<and> length rs = d \<and> (\<forall>r \<in> set rs. 0 < r)"
proof -
  assume a: "pos_vec d s"
  then have "list_all isfinite s" by (auto simp: pos_vec_def pos_real_def list_all_iff)
  then have s: "s = map Fin (map real_of s)" using finite_list_conv by blast
  have "\<forall>r \<in> set (map real_of s). 0 < r"
    using a by (auto simp: pos_vec_def pos_real_def list_all_iff)
  with s a show ?thesis by (metis length_map pos_vec_def)
qed

lemma finite_vec_conv:
  "finite_vec d m \<Longrightarrow> \<exists>rs. m = map Fin rs \<and> length rs = d"
  by (metis finite_list_conv finite_vec_def length_map)

lemma is_shape_nth: "is_shape r c a \<Longrightarrow> i < r \<Longrightarrow> length (a ! i) = c"
  by (auto simp: is_shape_def list_all_length)

lemma mat_eqI:
  assumes "is_shape r c a" "is_shape r c b"
    and "\<And>i j. i < r \<Longrightarrow> j < c \<Longrightarrow> a ! i ! j = b ! i ! j"
  shows "a = b"
proof (rule nth_equalityI)
  show "length a = length b" using assms by (simp add: is_shape_def)
next
  fix i assume "i < length a"
  then have i: "i < r" using assms(1) by (simp add: is_shape_def)
  show "a ! i = b ! i"
    using assms i by (intro nth_equalityI) (simp_all add: is_shape_nth)
qed

lemma seq_err_Inr: "seq_err (map Inr xs) = Inr xs"
  by (induction xs) (simp_all add: bind_err_def)

lemma rows_np2:
  "length a = length b \<Longrightarrow> list_all (\<lambda>r. length r = c) a \<Longrightarrow> list_all (\<lambda>r. length r = c) b
     \<Longrightarrow> map2 (\<lambda>r r'. np2 f r r') a b = map Inr (map2 (map2 f) a b)"
  by (induction a b rule: list_induct2) (simp_all add: np2_same_length)

lemma mat2_same_shape:
  assumes "is_shape r c a" "is_shape r c b"
  shows "mat2 f a b = Inr (map2 (map2 f) a b)"
proof -
  have len: "length a = length b" using assms by (simp add: is_shape_def)
  have 1: "np2 (\<lambda>r r'. np2 f r r') a b = Inr (map2 (\<lambda>r r'. np2 f r r') a b)"
    using len by (rule np2_same_length)
  have 2: "map2 (\<lambda>r r'. np2 f r r') a b = map Inr (map2 (map2 f) a b)"
    using len assms by (intro rows_np2[where c = c]) (simp_all add: is_shape_def)
  show ?thesis
    unfolding mat2_def 1 2 bind_err_def by (simp only: sum.case seq_err_Inr)
qed

lemma shape_map2: "is_shape r c a \<Longrightarrow> is_shape r c b \<Longrightarrow> is_shape r c (map2 (map2 f) a b)"
  by (auto simp: is_shape_def list_all_length)

lemma shape_map: "is_shape r c a \<Longrightarrow> is_shape r c (map (map f) a)"
  by (auto simp: is_shape_def list_all_length)

lemma shape_mat_T: "length a = r \<Longrightarrow> is_shape c r (mat_T c a)"
  by (auto simp: is_shape_def mat_T_def list_all_length)

lemma shape_outer: "is_shape (length u) (length v) (outer u v)"
  by (auto simp: is_shape_def outer_def list_all_length)

lemma shape_replicate: "is_shape r c (replicate r (replicate c z))"
  by (auto simp: is_shape_def list_all_length)

lemma nth_mat_map2:
  "is_shape r c a \<Longrightarrow> is_shape r c b \<Longrightarrow> i < r \<Longrightarrow> j < c
     \<Longrightarrow> map2 (map2 f) a b ! i ! j = f (a ! i ! j) (b ! i ! j)"
  by (simp add: is_shape_def list_all_length)

lemma nth_mat_map: "is_shape r c a \<Longrightarrow> i < r \<Longrightarrow> j < c \<Longrightarrow> map (map f) a ! i ! j = f (a ! i ! j)"
  by (simp add: is_shape_def list_all_length)

lemma nth_mat_T: "length a = r \<Longrightarrow> i < c \<Longrightarrow> j < r \<Longrightarrow> mat_T c a ! i ! j = a ! j ! i"
  by (simp add: mat_T_def)

lemma nth_outer: "i < length u \<Longrightarrow> j < length v \<Longrightarrow> outer u v ! i ! j = u ! i * v ! j"
  by (simp add: outer_def)

lemma finite_entry:
  "list_all (list_all isfinite) a \<Longrightarrow> is_shape r c a \<Longrightarrow> i < r \<Longrightarrow> j < c
     \<Longrightarrow> \<exists>x. a ! i ! j = Fin x"
proof -
  assume "list_all (list_all isfinite) a" "is_shape r c a" "i < r" "j < c"
  then have "isfinite (a ! i ! j)" by (simp add: is_shape_def list_all_length)
  then show ?thesis by (cases "a ! i ! j") auto
qed

lemma shape1_square: "is_shape d d a \<Longrightarrow> shape1 a = d"
  by (cases a) (auto simp: shape1_def is_shape_def)

lemma symmetrize_symmetric:
  assumes sh: "is_shape d d s" and fin: "list_all (list_all isfinite) s" and sym: "mat_T d s = s"
  shows "symmetrize s = Inr s"
proof -
  let ?h = "map (map (\<lambda>x. x / Fin 2)) s"
  have hs: "is_shape d d ?h" using sh by (rule shape_map)
  have len: "length s = d" using sh by (simp add: is_shape_def)
  have ht: "is_shape d d (mat_T d ?h)" by (rule shape_mat_T) (simp add: len)
  have "map2 (map2 (\<lambda>x y. x + y)) ?h (mat_T d ?h) = s"
  proof (rule mat_eqI[OF shape_map2[OF hs ht] sh])
    fix i j assume ij: "i < d" "j < d"
    obtain x where x: "s ! i ! j = Fin x" using finite_entry[OF fin sh ij] by blast
    have "s ! j ! i = mat_T d s ! i ! j" using len ij by (simp add: nth_mat_T)
    then have y: "s ! j ! i = Fin x" using sym x by simp
    have e1: "map2 (map2 (\<lambda>x y. x + y)) ?h (mat_T d ?h) ! i ! j
                = ?h ! i ! j + mat_T d ?h ! i ! j"
      by (rule nth_mat_map2[OF hs ht ij])
    have e2: "?h ! i ! j = s ! i ! j / Fin 2" by (rule nth_mat_map[OF sh ij])
    have e3: "mat_T d ?h ! i ! j = ?h ! j ! i"
      by (rule nth_mat_T[OF _ ij]) (simp add: len)
    have e4: "?h ! j ! i = s ! j ! i / Fin 2" by (rule nth_mat_map[OF sh ij(2) ij(1)])
    show "map2 (map2 (\<lambda>x y. x + y)) ?h (mat_T d ?h) ! i ! j = s ! i ! j"
      unfolding e1 e2 e3 e4 x y by simp
  qed
  then show ?thesis
    by (simp add: symmetrize_def shape1_square[OF sh] mat2_same_shape[OF hs ht])
qed

lemma update_gauss_zero:
  assumes "pos_or_inf omega"
  shows "update_gauss (map Fin ms) omega (replicate (length ms) (Fin 0)) (Fin 0)
           = Inr (map Fin ms, Fin 0, map Fin ms, omega)"
  using assms
proof (cases rule: pos_or_inf_cases)
  case 1
  then show ?thesis by (simp add: update_gauss_def bind_err_def)
next
  case (2 w)
  then show ?thesis
    by (simp add: update_gauss_def bind_err_def py_div_def np2_same_length map2_replicate_right
        comp_def)
qed

lemma map_zip_fst: "length xs = length ys \<Longrightarrow> map (\<lambda>(x, y). f x) (zip xs ys) = map f xs"
  by (induction xs ys rule: list_induct2) auto

lemma update_gamma_zero:
  assumes "0 < e" "length ss = length ms"
  shows "update_gamma (map Fin ss) (Fin e) (replicate (length ss) (Fin 0)) (Fin 0)
           (map Fin ms) (Fin 0) = Inr (map Fin ss, Fin e)"
proof -
  have "map2 (\<lambda>x y. x + y) (map (\<lambda>x. Fin (e * x)) ss) (map (\<lambda>x. Fin 0) ms)
          = map (\<lambda>x. Fin (e * x)) ss"
    using assms(2) by (induction ss ms rule: list_induct2) auto
  then show ?thesis
    using assms
    by (simp add: update_gamma_def bind_err_def np2_same_length map2_replicate_right comp_def
        np_sq_def)
qed

lemma update_wishart_zero:
  assumes e: "0 < e" and sh: "is_shape d d s" and fin: "list_all (list_all isfinite) s"
    and len: "length ms = d"
  shows "update_wishart s (Fin e) (replicate d (replicate d (Fin 0))) (Fin 0)
           (map Fin ms) (Fin 0) = Inr (s, Fin e)"
proof -
  let ?a = "map (map (\<lambda>x. Fin e * x)) s"
  let ?z = "replicate d (replicate d (Fin 0))"
  let ?o = "map (map (\<lambda>x. Fin 0 * x)) (outer (map Fin ms) (map Fin ms))"
  let ?s1 = "map2 (map2 (\<lambda>x y. x + y)) ?a ?z"
  let ?s2 = "map2 (map2 (\<lambda>x y. x + y)) ?s1 ?o"
  have sa: "is_shape d d ?a" using sh by (rule shape_map)
  have sz: "is_shape d d ?z" by (rule shape_replicate)
  have so0: "is_shape d d (outer (map Fin ms) (map Fin ms))"
    using shape_outer[of "map Fin ms" "map Fin ms"] len by simp
  have so: "is_shape d d ?o" using so0 by (rule shape_map)
  have s1: "is_shape d d ?s1" using sa sz by (rule shape_map2)
  have s2: "is_shape d d ?s2" using s1 so by (rule shape_map2)
  have "map (map (\<lambda>x. x / (Fin e + Fin 0))) ?s2 = s"
  proof (rule mat_eqI[OF shape_map[OF s2] sh])
    fix i j assume ij: "i < d" "j < d"
    obtain x where x: "s ! i ! j = Fin x" using finite_entry[OF fin sh ij] by blast
    have e1: "map (map (\<lambda>x. x / (Fin e + Fin 0))) ?s2 ! i ! j = ?s2 ! i ! j / (Fin e + Fin 0)"
      by (rule nth_mat_map[OF s2 ij])
    have e2: "?s2 ! i ! j = ?s1 ! i ! j + ?o ! i ! j" by (rule nth_mat_map2[OF s1 so ij])
    have e3: "?s1 ! i ! j = ?a ! i ! j + ?z ! i ! j" by (rule nth_mat_map2[OF sa sz ij])
    have e4: "?a ! i ! j = Fin e * s ! i ! j" by (rule nth_mat_map[OF sh ij])
    have e5: "?z ! i ! j = Fin 0" using ij by simp
    have e6: "?o ! i ! j = Fin 0 * outer (map Fin ms) (map Fin ms) ! i ! j"
      by (rule nth_mat_map[OF so0 ij])
    have e7: "outer (map Fin ms) (map Fin ms) ! i ! j = Fin (ms ! i * ms ! j)"
      using ij len by (simp add: nth_outer)
    show "map (map (\<lambda>x. x / (Fin e + Fin 0))) ?s2 ! i ! j = s ! i ! j"
      unfolding e1 e2 e3 e4 e5 e6 e7 x using e by simp
  qed
  then show ?thesis
    by (simp add: update_wishart_def mat2_same_shape[OF sa sz] mat2_same_shape[OF s1 so]
        bind_err_def)
qed

lemma dirich_update_zero:
  assumes "dirich_valid a"
  shows "\<exists>r. dirich_update a (dirich_zero (dim_d a)) = Inr (a, r)"
proof -
  from assms have "list_all isfinite (pi_d (param_d a))"
    by (auto simp: dirich_valid_def simplex_def nonneg_real_def list_all_iff)
  then obtain ps where ps: "pi_d (param_d a) = map Fin ps" using finite_list_conv by blast
  have len: "length ps = dim_d a"
    using assms ps by (metis dirich_valid_def simplex_def length_map)
  from assms have "pos_or_inf (alpha_d (param_d a))" by (simp add: dirich_valid_def)
  then show ?thesis
  proof (cases rule: pos_or_inf_cases)
    case 1
    then show ?thesis by (simp add: dirich_update_def dirich_zero_def)
  next
    case (2 r)
    have "a\<lparr>param_d := \<lparr>pi_d = map Fin ps, alpha_d = Fin r\<rparr>\<rparr> = a"
      using ps 2 by (cases a) (auto intro: dirich_param.equality)
    then show ?thesis
      using 2 len
      by (simp add: dirich_update_def dirich_zero_def ps np2_same_length bind_err_def
          map2_replicate_right Let_def comp_def)
  qed
qed

lemma gaussgamma_update_zero:
  assumes "gaussgamma_valid b"
  shows "\<exists>r. gaussgamma_update b (gaussgamma_zero (dim_g b)) = Inr (b, r)"
proof -
  from assms obtain ms where ms: "mu_g (param_g b) = map Fin ms" "length ms = dim_g b"
    using finite_vec_conv unfolding gaussgamma_valid_def by blast
  from assms obtain ss where ss: "sigma_g (param_g b) = map Fin ss" "length ss = dim_g b"
    using pos_vec_conv unfolding gaussgamma_valid_def by blast
  from assms have om: "pos_or_inf (omega_g (param_g b))" and et: "pos_or_inf (eta_g (param_g b))"
    by (simp_all add: gaussgamma_valid_def)
  have g: "update_gauss (map Fin ms) (omega_g (param_g b)) (replicate (dim_g b) (Fin 0)) (Fin 0)
             = Inr (map Fin ms, Fin 0, map Fin ms, omega_g (param_g b))"
    using update_gauss_zero[OF om, of ms] ms(2) by simp
  have eq: "b\<lparr>param_g := \<lparr>mu_g = map Fin ms, omega_g = omega_g (param_g b),
              sigma_g = map Fin ss, eta_g = eta_g (param_g b)\<rparr>\<rparr> = b"
    using ms ss by (cases b) (auto intro: gaussgamma_param.equality)
  from et show ?thesis
  proof (cases rule: pos_or_inf_cases)
    case 1
    then show ?thesis
      using eq by (simp add: gaussgamma_update_def gaussgamma_zero_def ms ss g bind_err_def Let_def)
  next
    case (2 e)
    have "update_gamma (map Fin ss) (Fin e) (replicate (dim_g b) (Fin 0)) (Fin 0)
            (map Fin ms) (Fin 0) = Inr (map Fin ss, Fin e)"
      using update_gamma_zero[of e ss ms] 2 ms(2) ss(2) by simp
    then show ?thesis
      using eq 2 by (simp add: gaussgamma_update_def gaussgamma_zero_def ms ss g bind_err_def Let_def)
  qed
qed

lemma gausswish_update_zero:
  assumes "gausswish_valid c"
  shows "\<exists>r. gausswish_update c (gausswish_zero (dim_w c)) = Inr (c, r)"
proof -
  let ?s = "sigma_w (param_w c)"
  from assms obtain ms where ms: "mu_w (param_w c) = map Fin ms" "length ms = dim_w c"
    using finite_vec_conv unfolding gausswish_valid_def by blast
  from assms have sh: "is_shape (dim_w c) (dim_w c) ?s" and fin: "list_all (list_all isfinite) ?s"
    and sym: "mat_T (dim_w c) ?s = ?s" and om: "pos_or_inf (omega_w (param_w c))"
    and et: "dof_ok (dim_w c) (eta_w (param_w c))" and dpos: "0 < dim_w c"
    by (simp_all add: gausswish_valid_def)
  have g: "update_gauss (map Fin ms) (omega_w (param_w c)) (replicate (dim_w c) (Fin 0)) (Fin 0)
             = Inr (map Fin ms, Fin 0, map Fin ms, omega_w (param_w c))"
    using update_gauss_zero[OF om, of ms] ms(2) by simp
  have y: "symmetrize ?s = Inr ?s" using sh fin sym by (rule symmetrize_symmetric)
  have eq: "c\<lparr>param_w := \<lparr>mu_w = map Fin ms, omega_w = omega_w (param_w c),
              sigma_w = ?s, eta_w = eta_w (param_w c)\<rparr>\<rparr> = c"
    using ms by (cases c) (auto intro: gausswish_param.equality)
  from et consider "eta_w (param_w c) = PInf" | e where "eta_w (param_w c) = Fin e" "real (dim_w c) - 1 < e"
    by (cases "eta_w (param_w c)") (auto simp: dof_ok_def)
  then show ?thesis
  proof cases
    case 1
    then show ?thesis
      using eq
      by (simp add: gausswish_update_def gausswish_zero_def shape_replicate ms g y bind_err_def Let_def)
  next
    case 2
    then have e: "0 < e" using dpos by simp
    have "update_wishart ?s (Fin e) (replicate (dim_w c) (replicate (dim_w c) (Fin 0))) (Fin 0)
            (map Fin ms) (Fin 0) = Inr (?s, Fin e)"
      using e sh fin ms(2) by (rule update_wishart_zero)
    then show ?thesis
      using eq 2
      by (simp add: gausswish_update_def gausswish_zero_def shape_replicate ms g y bind_err_def Let_def)
  qed
qed

text \<open>
  C6. For every valid instance of the three families, \<open>update\<close> with the all-zero
  statistics record leaves the stored parameters as they are in exact arithmetic: the
  values it recomputes, \<open>(alpha * pi + 0) / (alpha + 0)\<close> and the like, are the stored ones
  as real numbers. In doubles the product and the quotient round, and a stored
  parameter can change.
\<close>

theorem update_zero_is_identity:
  "(dirich_valid a \<longrightarrow> (\<exists>r. dirich_update a (dirich_zero (dim_d a)) = Inr (a, r)))
   \<and> (gaussgamma_valid b \<longrightarrow> (\<exists>r. gaussgamma_update b (gaussgamma_zero (dim_g b)) = Inr (b, r)))
   \<and> (gausswish_valid c \<longrightarrow> (\<exists>r. gausswish_update c (gausswish_zero (dim_w c)) = Inr (c, r)))"
  using dirich_update_zero gaussgamma_update_zero gausswish_update_zero by blast

theorem update_zero_is_identity_witness:
  "(\<exists>r. dirich_update \<lparr>dim_d = 2, param_d = \<lparr>pi_d = [Fin (1/2), Fin (1/2)], alpha_d = Fin 2\<rparr>\<rparr>
          (dirich_zero 2)
        = Inr (\<lparr>dim_d = 2, param_d = \<lparr>pi_d = [Fin (1/2), Fin (1/2)], alpha_d = Fin 2\<rparr>\<rparr>, r))
   \<and> (\<exists>r. gaussgamma_update
          \<lparr>dim_g = 2, param_g = \<lparr>mu_g = [Fin 0, Fin 1], omega_g = Fin 1,
                                  sigma_g = [Fin 1, Fin 2], eta_g = PInf\<rparr>\<rparr>
          (gaussgamma_zero 2)
        = Inr (\<lparr>dim_g = 2, param_g = \<lparr>mu_g = [Fin 0, Fin 1], omega_g = Fin 1,
                                       sigma_g = [Fin 1, Fin 2], eta_g = PInf\<rparr>\<rparr>, r))
   \<and> (\<exists>r. gausswish_update
          \<lparr>dim_w = 2, param_w = \<lparr>mu_w = [Fin 0, Fin 1], omega_w = PInf,
                                  sigma_w = [[Fin 4, Fin 2], [Fin 2, Fin 5]], eta_w = Fin 3\<rparr>\<rparr>
          (gausswish_zero 2)
        = Inr (\<lparr>dim_w = 2, param_w = \<lparr>mu_w = [Fin 0, Fin 1], omega_w = PInf,
                                       sigma_w = [[Fin 4, Fin 2], [Fin 2, Fin 5]], eta_w = Fin 3\<rparr>\<rparr>, r))"
proof -
  have a: "dirich_valid \<lparr>dim_d = 2, param_d = \<lparr>pi_d = [Fin (1/2), Fin (1/2)], alpha_d = Fin 2\<rparr>\<rparr>"
    by (simp add: dirich_valid_def simplex_def nonneg_real_def pos_or_inf_def pos_real_def
        spacing1_def)
  have b: "gaussgamma_valid \<lparr>dim_g = 2, param_g = \<lparr>mu_g = [Fin 0, Fin 1], omega_g = Fin 1,
                                  sigma_g = [Fin 1, Fin 2], eta_g = PInf\<rparr>\<rparr>"
    by (simp add: gaussgamma_valid_def finite_vec_def pos_vec_def pos_or_inf_def pos_real_def)
  have c: "gausswish_valid \<lparr>dim_w = 2, param_w = \<lparr>mu_w = [Fin 0, Fin 1], omega_w = PInf,
      sigma_w = [[Fin 4, Fin 2], [Fin 2, Fin 5]], eta_w = Fin 3\<rparr>\<rparr>"
    by (simp add: gausswish_valid_def finite_vec_def pos_or_inf_def is_shape_def mat_T_def
        pos_def_def linalg_cholesky_def dof_ok_def Let_def upt_rec numeral_2_eq_2)
  show ?thesis
    using a b c
      update_zero_is_identity[of
        "\<lparr>dim_d = 2, param_d = \<lparr>pi_d = [Fin (1/2), Fin (1/2)], alpha_d = Fin 2\<rparr>\<rparr>"
        "\<lparr>dim_g = 2, param_g = \<lparr>mu_g = [Fin 0, Fin 1], omega_g = Fin 1,
                                  sigma_g = [Fin 1, Fin 2], eta_g = PInf\<rparr>\<rparr>"
        "\<lparr>dim_w = 2, param_w = \<lparr>mu_w = [Fin 0, Fin 1], omega_w = PInf,
                                  sigma_w = [[Fin 4, Fin 2], [Fin 2, Fin 5]], eta_w = Fin 3\<rparr>\<rparr>"]
    by simp
qed

lemma gaussgamma_update_changes:
  assumes v: "gaussgamma_valid b"
    and ne: "\<not> (omega_g (param_g b) = PInf \<and> eta_g (param_g b) = PInf)"
  shows "gaussgamma_update b \<lparr>mu_g = replicate (dim_g b) (Fin 0), omega_g = Fin 1,
            sigma_g = replicate (dim_g b) (Fin 0), eta_g = Fin 1\<rparr> \<noteq> Inr (b, r)"
proof
  let ?st = "\<lparr>mu_g = replicate (dim_g b) (Fin 0), omega_g = Fin 1,
            sigma_g = replicate (dim_g b) (Fin 0), eta_g = Fin 1\<rparr>"
  assume eq: "gaussgamma_update b ?st = Inr (b, r)"
  from v obtain ms where ms: "mu_g (param_g b) = map Fin ms" "length ms = dim_g b"
    using finite_vec_conv unfolding gaussgamma_valid_def by blast
  from v obtain ss where ss: "sigma_g (param_g b) = map Fin ss" "length ss = dim_g b"
    using pos_vec_conv unfolding gaussgamma_valid_def by blast
  from v have om: "pos_or_inf (omega_g (param_g b))" and et: "pos_or_inf (eta_g (param_g b))"
    by (simp_all add: gaussgamma_valid_def)
  from om show False
  proof (cases rule: pos_or_inf_cases)
    case (2 w)
    have g: "update_gauss (map Fin ms) (Fin w) (replicate (dim_g b) (Fin 0)) (Fin 1)
        = Inr (map Fin ms, Fin (w / (w + 1)), map (\<lambda>m. Fin (w * m / (w + 1))) ms, Fin (w + 1))"
      using 2 ms(2)
      by (simp add: update_gauss_def bind_err_def py_div_def np2_same_length map2_replicate_right
          comp_def)
    have "omega_g (param_g b) = Fin (w + 1)"
      using eq 2
      by (simp add: gaussgamma_update_def ms ss g bind_err_def Let_def split: if_splits sum.splits
              prod.splits)
         (auto dest!: arg_cong[where f = "\<lambda>x. omega_g (param_g x)"])
    with 2 show False by simp
  next
    case 1
    with ne et obtain e where e: "eta_g (param_g b) = Fin e" "0 < e"
      by (auto elim: pos_or_inf_cases)
    have g: "update_gauss (map Fin ms) PInf (replicate (dim_g b) (Fin 0)) (Fin 1)
        = Inr (map Fin ms, Fin 1, map Fin ms, PInf)"
      using ms(2)
      by (simp add: update_gauss_def bind_err_def np2_same_length map2_replicate_right comp_def)
    have "\<exists>s. update_gamma (map Fin ss) (Fin e) (replicate (dim_g b) (Fin 0)) (Fin 1)
            (map Fin ms) (Fin 1) = Inr (s, Fin (e + 1))"
      using ms(2) ss(2)
      by (simp add: update_gamma_def bind_err_def np2_same_length map2_replicate_right comp_def)
    then obtain s where s: "update_gamma (map Fin ss) (Fin e) (replicate (dim_g b) (Fin 0)) (Fin 1)
            (map Fin ms) (Fin 1) = Inr (s, Fin (e + 1))" by blast
    have "eta_g (param_g b) = Fin (e + 1)"
      using eq 1 e
      by (simp add: gaussgamma_update_def ms ss g s bind_err_def Let_def)
         (auto dest!: arg_cong[where f = "\<lambda>x. eta_g (param_g x)"])
    with e show False by simp
  qed
qed

lemma gaussgamma_update_singular:
  assumes "omega_g (param_g b) = PInf" "eta_g (param_g b) = PInf"
    and "length (mu_g stat) = dim_g b" "length (sigma_g stat) = dim_g b"
  shows "gaussgamma_update b stat = Inr (b, RetSelf)"
  using assms by (simp add: gaussgamma_update_def)

text \<open>
  C7. The Gauss-Gamma instance with \<open>dim = 2\<close>, \<open>mu = [0,0]\<close>, \<open>omega = 1\<close>,
  \<open>sigma = [1,1]\<close>, \<open>eta = +inf\<close>: \<open>update\<close> with a statistics record leaves \<open>sigma\<close>
  and \<open>eta\<close> as they are and sets \<open>mu\<close> to \<open>(omega*mu + stat.mu)/(omega + stat.omega)\<close>
  and \<open>omega\<close> to \<open>omega + stat.omega\<close> (the record has two coordinates and its total
  weight is not \<open>-1\<close>, where the weight's quotient divides by zero). And for a valid
  instance, \<open>update\<close> changes nothing whatever the record exactly when \<open>omega\<close> and \<open>eta\<close>
  are both infinite.
\<close>

theorem gaussgamma_update_eta_infinite:
  assumes "length (mu_g stat) = 2" and "length (sigma_g stat) = 2" and "omega_g stat \<noteq> Fin (- 1)"
  shows "gaussgamma_update
           \<lparr>dim_g = 2, param_g = \<lparr>mu_g = [Fin 0, Fin 0], omega_g = Fin 1,
                                   sigma_g = [Fin 1, Fin 1], eta_g = PInf\<rparr>\<rparr> stat
         = Inr (\<lparr>dim_g = 2, param_g = \<lparr>
                   mu_g = map (\<lambda>m. m / (Fin 1 + omega_g stat))
                            (map2 (\<lambda>x y. x + y) (map (\<lambda>m. Fin 1 * m) [Fin 0, Fin 0]) (mu_g stat)),
                   omega_g = Fin 1 + omega_g stat,
                   sigma_g = [Fin 1, Fin 1], eta_g = PInf\<rparr>\<rparr>, RetSelf)
       \<and> (gaussgamma_valid b \<longrightarrow>
            ((\<forall>st. length (mu_g st) = dim_g b \<and> length (sigma_g st) = dim_g b
                    \<longrightarrow> (\<exists>r. gaussgamma_update b st = Inr (b, r)))
             \<longleftrightarrow> (omega_g (param_g b) = PInf \<and> eta_g (param_g b) = PInf)))"
proof (intro conjI impI)
  have nz: "Fin 1 + omega_g stat \<noteq> Fin 0"
    using assms(3) by (cases "omega_g stat") auto
  have one: "Fin 1 * omega_g stat = omega_g stat"
    by (cases "omega_g stat") auto
  obtain x y where xy: "mu_g stat = [x, y]"
    using assms(1) by (cases "mu_g stat"; cases "tl (mu_g stat)") auto
  show "gaussgamma_update
           \<lparr>dim_g = 2, param_g = \<lparr>mu_g = [Fin 0, Fin 0], omega_g = Fin 1,
                                   sigma_g = [Fin 1, Fin 1], eta_g = PInf\<rparr>\<rparr> stat
         = Inr (\<lparr>dim_g = 2, param_g = \<lparr>
                   mu_g = map (\<lambda>m. m / (Fin 1 + omega_g stat))
                            (map2 (\<lambda>x y. x + y) (map (\<lambda>m. Fin 1 * m) [Fin 0, Fin 0]) (mu_g stat)),
                   omega_g = Fin 1 + omega_g stat,
                   sigma_g = [Fin 1, Fin 1], eta_g = PInf\<rparr>\<rparr>, RetSelf)"
    using assms nz
    by (simp add: gaussgamma_update_def update_gauss_def bind_err_def py_div_def np2_def xy Let_def)
next
  assume v: "gaussgamma_valid b"
  show "(\<forall>st. length (mu_g st) = dim_g b \<and> length (sigma_g st) = dim_g b
                    \<longrightarrow> (\<exists>r. gaussgamma_update b st = Inr (b, r)))
             \<longleftrightarrow> (omega_g (param_g b) = PInf \<and> eta_g (param_g b) = PInf)"
  proof
    assume all: "\<forall>st. length (mu_g st) = dim_g b \<and> length (sigma_g st) = dim_g b
                    \<longrightarrow> (\<exists>r. gaussgamma_update b st = Inr (b, r))"
    show "omega_g (param_g b) = PInf \<and> eta_g (param_g b) = PInf"
    proof (rule ccontr)
      assume ne: "\<not> (omega_g (param_g b) = PInf \<and> eta_g (param_g b) = PInf)"
      from all obtain r where
        "gaussgamma_update b \<lparr>mu_g = replicate (dim_g b) (Fin 0), omega_g = Fin 1,
            sigma_g = replicate (dim_g b) (Fin 0), eta_g = Fin 1\<rparr> = Inr (b, r)"
        by force
      with gaussgamma_update_changes[OF v ne] show False by blast
    qed
  next
    assume "omega_g (param_g b) = PInf \<and> eta_g (param_g b) = PInf"
    then show "\<forall>st. length (mu_g st) = dim_g b \<and> length (sigma_g st) = dim_g b
                    \<longrightarrow> (\<exists>r. gaussgamma_update b st = Inr (b, r))"
      using gaussgamma_update_singular by blast
  qed
qed

theorem gaussgamma_update_eta_infinite_witness:
  "gaussgamma_update
      \<lparr>dim_g = 2, param_g = \<lparr>mu_g = [Fin 0, Fin 0], omega_g = Fin 1,
                              sigma_g = [Fin 1, Fin 1], eta_g = PInf\<rparr>\<rparr>
      \<lparr>mu_g = [Fin 2, Fin 4], omega_g = Fin 1, sigma_g = [Fin 3, Fin 5], eta_g = Fin 2\<rparr>
     = Inr (\<lparr>dim_g = 2, param_g = \<lparr>mu_g = [Fin 1, Fin 2], omega_g = Fin 2,
                                    sigma_g = [Fin 1, Fin 1], eta_g = PInf\<rparr>\<rparr>, RetSelf)
   \<and> \<not> (\<forall>st. length (mu_g st) = 2 \<and> length (sigma_g st) = 2
           \<longrightarrow> (\<exists>r. gaussgamma_update
                       \<lparr>dim_g = 2, param_g = \<lparr>mu_g = [Fin 0, Fin 0], omega_g = Fin 1,
                                               sigma_g = [Fin 1, Fin 1], eta_g = PInf\<rparr>\<rparr> st
                     = Inr (\<lparr>dim_g = 2, param_g = \<lparr>mu_g = [Fin 0, Fin 0], omega_g = Fin 1,
                                               sigma_g = [Fin 1, Fin 1], eta_g = PInf\<rparr>\<rparr>, r)))"
proof -
  have v: "gaussgamma_valid \<lparr>dim_g = 2, param_g = \<lparr>mu_g = [Fin 0, Fin 0], omega_g = Fin 1,
                              sigma_g = [Fin 1, Fin 1], eta_g = PInf\<rparr>\<rparr>"
    by (simp add: gaussgamma_valid_def finite_vec_def pos_vec_def pos_or_inf_def pos_real_def)
  show ?thesis
    using v gaussgamma_update_eta_infinite[of
        "\<lparr>mu_g = [Fin 2, Fin 4], omega_g = Fin 1, sigma_g = [Fin 3, Fin 5], eta_g = Fin 2\<rparr>"
        "\<lparr>dim_g = 2, param_g = \<lparr>mu_g = [Fin 0, Fin 0], omega_g = Fin 1,
                              sigma_g = [Fin 1, Fin 1], eta_g = PInf\<rparr>\<rparr>"]
    by simp
qed

text \<open>
  C1. \<open>loglik\<close> with \<open>nu = None\<close> returns the plain Gaussian expected log-density, and
  with \<open>nu = +inf\<close> the same values and a unit weight vector. The code does not: both
  branches read the name \<open>numdim\<close>, which the module never binds, and raise NameError.
\<close>

theorem loglik_plain_raises_name_error:
  "gaussgamma_loglik dist_globals gammaln psi
      \<lparr>dim_g = 1, param_g = \<lparr>mu_g = [Fin 0], omega_g = Fin 1, sigma_g = [Fin 1], eta_g = Fin 1\<rparr>\<rparr>
      [[Fin 0]] None = Inl (NameError ''numdim'')
   \<and> gaussgamma_loglik dist_globals gammaln psi
      \<lparr>dim_g = 1, param_g = \<lparr>mu_g = [Fin 0], omega_g = Fin 1, sigma_g = [Fin 1], eta_g = Fin 1\<rparr>\<rparr>
      [[Fin 0]] (Some PInf) = Inl (NameError ''numdim'')
   \<and> gausswish_loglik dist_globals gammaln psi
      \<lparr>dim_w = 1, param_w = \<lparr>mu_w = [Fin 0], omega_w = Fin 1, sigma_w = [[Fin 1]], eta_w = Fin 1\<rparr>\<rparr>
      [[Fin 0]] None = Inl (NameError ''numdim'')
   \<and> gausswish_loglik dist_globals gammaln psi
      \<lparr>dim_w = 1, param_w = \<lparr>mu_w = [Fin 0], omega_w = Fin 1, sigma_w = [[Fin 1]], eta_w = Fin 1\<rparr>\<rparr>
      [[Fin 0]] (Some PInf) = Inl (NameError ''numdim'')
   \<and> loglik_result dist_globals gammaln d sz logdet sqerr None = Inl (NameError ''numdim'')
   \<and> loglik_result dist_globals gammaln d sz logdet sqerr (Some PInf) = Inl (NameError ''numdim'')"
  by (simp add: gaussgamma_loglik_def gausswish_loglik_def loglik_result_def lookup_name_def
      dist_globals_def bind_err_def np2_def py_div_def shape1_def Let_def resid_of_def
      linalg_cholesky_def linalg_solve_def is_shape_def)

lemma finite_on_posD: "finite_on_pos f \<Longrightarrow> 0 < x \<Longrightarrow> \<exists>y. f (Fin x) = Fin y"
  by (metis finite_on_pos_def isfinite.elims(2))

lemma np_sum_zeros: "list_all (\<lambda>x. x = Fin 0) xs \<Longrightarrow> np_sum xs = Fin 0"
  by (induction xs) auto

lemma map2_same: "map2 f xs xs = map (\<lambda>x. f x x) xs"
  by (induction xs) auto

lemma np_where_bound: "list_all (\<lambda>i. i < length c) (np_where c)"
  by (simp add: np_where_def list_all_iff)

lemma xor_same: "\<not> list_ex (\<lambda>b. b) (map2 logical_xor m m)"
  by (induction m) (auto simp: logical_xor_def)

lemma dirich_div_self:
  assumes v: "dirich_valid a" and g: "finite_on_pos gammaln" and p: "finite_on_pos psi"
  shows "dirich_div gammaln psi a a = Inr (Fin 0)"
proof -
  let ?p = "pi_d (param_d a)"
  from v have "list_all isfinite ?p"
    by (auto simp: dirich_valid_def simplex_def nonneg_real_def list_all_iff)
  then obtain ps where ps: "?p = map Fin ps" using finite_list_conv by blast
  from v have "pos_or_inf (alpha_d (param_d a))" by (simp add: dirich_valid_def)
  then show ?thesis
  proof (cases rule: pos_or_inf_cases)
    case 1
    have "list_all (\<lambda>b. b) (map2 np_equal ?p ?p)"
      unfolding ps by (induction ps) (auto simp: np_equal_def)
    then show ?thesis
      using 1 by (simp add: dirich_div_def Let_def np2_same_length bind_err_def)
  next
    case (2 r)
    let ?ind = "np_where (map (\<lambda>x. Fin 0 < x) ?p)"
    let ?a = "map (\<lambda>q. Fin r * q) (map (\<lambda>i. ?p ! i) ?ind)"
    have bound: "list_all (\<lambda>i. i < length ?p) ?ind"
      using np_where_bound[of "map (\<lambda>x. Fin 0 < x) ?p"] by simp
    have ti: "take_ind ?p ?ind = Inr (map (\<lambda>i. ?p ! i) ?ind)"
      using bound by (simp add: take_ind_def)
    have pos: "\<forall>x \<in> set ?a. \<exists>y. x = Fin y \<and> 0 < y"
    proof
      fix x assume "x \<in> set ?a"
      then obtain i where i: "i \<in> set ?ind" "x = Fin r * ?p ! i" by auto
      then have "i < length ps" "Fin 0 < ?p ! i"
        by (auto simp: np_where_def ps)
      then show "\<exists>y. x = Fin y \<and> 0 < y" using i 2 by (simp add: ps)
    qed
    obtain ga where ga: "gammaln (Fin r) = Fin ga" using finite_on_posD[OF g 2(2)] by blast
    obtain pa where pa: "psi (Fin r) = Fin pa" using finite_on_posD[OF p 2(2)] by blast
    have z1: "np_sum (map2 (\<lambda>x y. gammaln x - gammaln y) ?a ?a) = Fin 0"
    proof (rule np_sum_zeros)
      show "list_all (\<lambda>x. x = Fin 0) (map2 (\<lambda>x y. gammaln x - gammaln y) ?a ?a)"
        unfolding map2_same list_all_iff
      proof
        fix z assume "z \<in> set (map (\<lambda>x. gammaln x - gammaln x) ?a)"
        then obtain x where x: "x \<in> set ?a" "z = gammaln x - gammaln x" by auto
        then obtain y where "x = Fin y" "0 < y" using pos by blast
        then show "z = Fin 0" using finite_on_posD[OF g, of y] x by auto
      qed
    qed
    have z2: "np_sum (map2 (\<lambda>x y. x * y) (map2 (\<lambda>x y. x - y) ?a ?a)
                 (map (\<lambda>x. psi x - psi (Fin r)) ?a)) = Fin 0"
    proof (rule np_sum_zeros)
      show "list_all (\<lambda>x. x = Fin 0) (map2 (\<lambda>x y. x * y) (map2 (\<lambda>x y. x - y) ?a ?a)
                 (map (\<lambda>x. psi x - psi (Fin r)) ?a))"
        unfolding map2_same list_all_iff
      proof
        fix z assume "z \<in> set (map2 (\<lambda>x y. x * y) (map (\<lambda>x. x - x) ?a)
                 (map (\<lambda>x. psi x - psi (Fin r)) ?a))"
        then obtain x where x: "x \<in> set ?a" "z = (x - x) * (psi x - psi (Fin r))"
          by (auto simp: zip_map_map map2_same zip_same_conv_map)
        then obtain y where "x = Fin y" "0 < y" using pos by blast
        then show "z = Fin 0" using finite_on_posD[OF p, of y] x pa by auto
      qed
    qed
    have dot: "np_dot (map2 (\<lambda>x y. x - y) ?a ?a) (map (\<lambda>x. psi x - psi (Fin r)) ?a) = Inr (Fin 0)"
      using z2 by (simp add: np_dot_def)
    show ?thesis
      using 2 xor_same[of "map (\<lambda>x. Fin 0 < x) ?p"]
      by (simp add: dirich_div_def Let_def np2_same_length bind_err_def ti dot z1 ga del: map_map)
  qed
qed

lemma equal_self: "list_all (\<lambda>b. b) (map2 np_equal (map Fin rs) (map Fin rs))"
  by (induction rs) (auto simp: np_equal_def)

lemma sq_diff_self: "map2 (\<lambda>a b. np_sq \<bar>a - b\<bar>) (map Fin ms) (map Fin ms) = map (\<lambda>m. Fin 0) ms"
  by (induction ms) (auto simp: np_sq_def)

lemma zero_over_pos:
  "length ms = length ss \<Longrightarrow> \<forall>s \<in> set ss. 0 < s \<Longrightarrow>
   np_sum (map2 (\<lambda>a b. a / b) (map (\<lambda>m. Fin 0) ms) (map Fin ss)) = Fin 0"
  by (induction ms ss rule: list_induct2) auto

lemma ratio_self:
  "\<forall>s \<in> set ss. 0 < s \<Longrightarrow>
   np_sum (map2 (\<lambda>a b. a / b) (map Fin ss) (map Fin ss)) = Fin (real (length ss))"
  by (induction ss) auto

lemma log_det_finite:
  "\<forall>s \<in> set ss. 0 < s \<Longrightarrow> np_sum (map np_log (map Fin ss)) = Fin (sum_list (map ln ss))"
  by (induction ss) auto

lemma gauss_part_diag_self:
  assumes om: "pos_or_inf (omega_g p)" and ms: "mu_g p = map Fin ms" and ss: "sigma_g p = map Fin ss"
    and len: "length ms = length ss" and pos: "\<forall>s \<in> set ss. 0 < s"
  shows "gauss_part_diag d p p = Inr (Some (Fin 0))"
  using om
proof (cases rule: pos_or_inf_cases)
  case 1
  then show ?thesis
    using equal_self[of ms] by (simp add: gauss_part_diag_def ms np2_same_length bind_err_def)
next
  case (2 w)
  then show ?thesis
    using zero_over_pos[OF len pos]
    by (simp add: gauss_part_diag_def ms ss len np2_same_length bind_err_def py_div_def
        sq_diff_self)
qed

lemma gaussgamma_div_self:
  assumes v: "gaussgamma_valid b" and g: "finite_on_pos gammaln" and p: "finite_on_pos psi"
  shows "gaussgamma_div gammaln psi b b = Inr (Fin 0)"
proof -
  from v obtain ms where ms: "mu_g (param_g b) = map Fin ms" "length ms = dim_g b"
    using finite_vec_conv unfolding gaussgamma_valid_def by blast
  from v obtain ss where ss: "sigma_g (param_g b) = map Fin ss" "length ss = dim_g b"
      and pos: "\<forall>s \<in> set ss. 0 < s"
    using pos_vec_conv unfolding gaussgamma_valid_def by blast
  from v have om: "pos_or_inf (omega_g (param_g b))" and et: "pos_or_inf (eta_g (param_g b))"
    by (simp_all add: gaussgamma_valid_def)
  have gp: "gauss_part_diag (dim_g b) (param_g b) (param_g b) = Inr (Some (Fin 0))"
    using om ms(1) ss(1) _ pos by (rule gauss_part_diag_self) (simp add: ms ss)
  from et show ?thesis
  proof (cases rule: pos_or_inf_cases)
    case 1
    then show ?thesis
      using equal_self[of ss]
      by (simp add: gaussgamma_div_def Let_def gp bind_err_def ss np2_same_length)
  next
    case (2 e)
    then have e2: "0 < e / 2" by simp
    obtain ge where ge: "gammaln (Fin (e / 2)) = Fin ge" using finite_on_posD[OF g e2] by blast
    obtain pe where pe: "psi (Fin (e / 2)) = Fin pe" using finite_on_posD[OF p e2] by blast
    show ?thesis
      using 2 ratio_self[OF pos] log_det_finite[OF pos]
      by (simp add: gaussgamma_div_def Let_def gp bind_err_def ss np2_same_length ge pe
          algebra_simps)
  qed
qed

lemma np_sum_Fin_map [simp]: "np_sum (map (\<lambda>x. Fin (f x)) xs) = Fin (sum_list (map f xs))"
  by (induction xs) simp_all

lemma finite_dot:
  assumes "list_all isfinite xs" "list_all isfinite ys"
  shows "isfinite (np_sum (map2 (\<lambda>x y. x * y) xs ys))"
proof -
  obtain xr yr where "xs = map Fin xr" "ys = map Fin yr"
    using assms finite_list_conv by blast
  then have "map2 (\<lambda>x y. x * y) xs ys = map Fin (map2 (\<lambda>x y. x * y) xr yr)"
    by (auto simp: zip_map_map)
  then show ?thesis by (simp add: comp_def)
qed

lemma finite_take: "list_all isfinite l \<Longrightarrow> list_all isfinite (take j l)"
  by (auto simp: list_all_iff dest: in_set_takeD)

lemma finite_minus_div:
  "isfinite a \<Longrightarrow> isfinite s \<Longrightarrow> x \<noteq> 0 \<Longrightarrow> isfinite ((a - s) / Fin x)"
  by (cases a; cases s) auto

lemma chol_offdiag_props:
  assumes "list_all isfinite acc"
    and "\<forall>k < length ls. list_all isfinite (ls ! k) \<and> (\<exists>x. ls ! k ! (length acc + k) = Fin x \<and> x \<noteq> 0)"
    and "\<forall>j < length acc + length ls. isfinite (a ! j)"
  shows "length (chol_offdiag ls a acc) = length acc + length ls
         \<and> list_all isfinite (chol_offdiag ls a acc)"
  using assms
proof (induction ls arbitrary: acc)
  case Nil
  then show ?case by simp
next
  case (Cons l ls)
  let ?j = "length acc"
  let ?s = "np_sum (map2 (\<lambda>x y. x * y) acc (take ?j l))"
  from Cons.prems(2) have l: "list_all isfinite l" and "\<exists>x. l ! ?j = Fin x \<and> x \<noteq> 0"
    by force+
  then obtain x where x: "l ! ?j = Fin x" "x \<noteq> 0" by blast
  have fs: "isfinite ?s" using Cons.prems(1) l by (intro finite_dot finite_take)
  have fa: "isfinite (a ! ?j)" using Cons.prems(3) by simp
  have new: "isfinite ((a ! ?j - ?s) / (l ! ?j))"
    unfolding x using fa fs x(2) by (rule finite_minus_div)
  let ?acc = "acc @ [(a ! ?j - ?s) / (l ! ?j)]"
  have 1: "list_all isfinite ?acc" using Cons.prems(1) new by simp
  have 2: "\<forall>k < length ls. list_all isfinite (ls ! k)
              \<and> (\<exists>x. ls ! k ! (length ?acc + k) = Fin x \<and> x \<noteq> 0)"
  proof (intro allI impI)
    fix k assume "k < length ls"
    then have "Suc k < length (l # ls)" by simp
    with Cons.prems(2) have "list_all isfinite ((l # ls) ! Suc k)
        \<and> (\<exists>x. (l # ls) ! Suc k ! (length acc + Suc k) = Fin x \<and> x \<noteq> 0)" by blast
    then show "list_all isfinite (ls ! k) \<and> (\<exists>x. ls ! k ! (length ?acc + k) = Fin x \<and> x \<noteq> 0)"
      by simp
  qed
  have 3: "\<forall>j < length ?acc + length ls. isfinite (a ! j)" using Cons.prems(3) by simp
  from Cons.IH[OF 1 2 3] show ?case by (simp add: Let_def)
qed

lemma chol_rows_props:
  assumes "lower_factor n ls"
    and "list_all (\<lambda>a. length a = n \<and> list_all isfinite a) as"
    and "length ls + length as = n"
    and "chol_rows n as ls = Inr l"
  shows "lower_factor n l \<and> length l = n"
  using assms
proof (induction as arbitrary: ls)
  case Nil
  then show ?case by simp
next
  case (Cons a as)
  let ?i = "length ls"
  let ?acc = "chol_offdiag ls a []"
  let ?piv = "a ! ?i - np_sum (map (\<lambda>x. x * x) ?acc)"
  have i: "?i < n" using Cons.prems(3) by simp
  from Cons.prems(2) have a: "length a = n" "list_all isfinite a" by simp_all
  have "\<forall>k < length ls. list_all isfinite (ls ! k) \<and> (\<exists>x. ls ! k ! (length ([]::num list) + k) = Fin x \<and> x \<noteq> 0)"
    using Cons.prems(1) by (fastforce simp: lower_factor_def)
  moreover have "\<forall>j < length ([]::num list) + length ls. isfinite (a ! j)"
    using a i by (simp add: list_all_length)
  ultimately have acc: "length ?acc = ?i" "list_all isfinite ?acc"
    using chol_offdiag_props[of "[]" ls a] by simp_all
  from Cons.prems(4) have pos: "Fin 0 < ?piv"
    by (simp add: Let_def split: if_splits)
  obtain ar where ar: "?acc = map Fin ar" using acc(2) finite_list_conv by blast
  have "isfinite (a ! ?i)" using a i by (simp add: list_all_length)
  then obtain ai where ai: "a ! ?i = Fin ai" by (cases "a ! ?i") auto
  have "?piv = Fin (ai - sum_list (map (\<lambda>x. x * x) ar))"
    unfolding ar ai by (simp add: comp_def)
  with pos obtain p where p: "?piv = Fin p" "0 < p" by auto
  let ?r = "?acc @ [np_sqrt ?piv] @ replicate (n - Suc ?i) (Fin 0)"
  have rest: "chol_rows n as (ls @ [?r]) = Inr l"
    using Cons.prems(4) pos by (simp add: Let_def)
  have rlen: "length ?r = n" using acc(1) i by simp
  have rfin: "list_all isfinite ?r" using acc(2) p by (auto simp: list_all_iff)
  have rdiag: "?r ! ?i = Fin (sqrt p)" using acc(1) p by (simp add: nth_append)
  have rzero: "\<forall>j. ?i < j \<and> j < n \<longrightarrow> ?r ! j = Fin 0"
    using acc(1) by (auto simp: nth_append nth_Cons')
  have inv: "lower_factor n (ls @ [?r])"
    unfolding lower_factor_def
  proof (intro allI impI)
    fix k assume k: "k < length (ls @ [?r])"
    show "length ((ls @ [?r]) ! k) = n \<and> list_all isfinite ((ls @ [?r]) ! k)
        \<and> (\<exists>x. (ls @ [?r]) ! k ! k = Fin x \<and> 0 < x)
        \<and> (\<forall>j. k < j \<and> j < n \<longrightarrow> (ls @ [?r]) ! k ! j = Fin 0)"
    proof (cases "k < length ls")
      case True
      then show ?thesis using Cons.prems(1) by (simp add: lower_factor_def nth_append)
    next
      case False
      then have "k = ?i" using k by simp
      then show ?thesis using rlen rfin rdiag rzero p(2) by (simp add: nth_append)
    qed
  qed
  show ?case
    using Cons.IH[OF inv _ _ rest] Cons.prems(2,3) by simp
qed

lemma cholesky_props:
  assumes "is_shape d d s" "list_all (list_all isfinite) s" "linalg_cholesky s = Inr l"
  shows "lower_factor d l \<and> length l = d"
proof -
  have len: "length s = d" using assms(1) by (simp add: is_shape_def)
  have "lower_factor d []" by (simp add: lower_factor_def)
  moreover have "list_all (\<lambda>a. length a = d \<and> list_all isfinite a) s"
    using assms(1,2) by (auto simp: is_shape_def list_all_iff)
  moreover have "chol_rows d s [] = Inr l"
    using assms(1,3) len by (simp add: linalg_cholesky_def)
  ultimately show ?thesis using chol_rows_props[of d "[]" s l] len by simp
qed

lemma solve_rows_correct:
  assumes "length l = d" "length b = d" "length x = d" "\<forall>i < d. fsub_row l b x i" "k \<le> d"
  shows "solve_rows (drop k l) (drop k b) (take k x) = Inr x"
  using assms(5)
proof (induction "d - k" arbitrary: k)
  case 0
  then have "k = d" by simp
  then show ?case using assms(1-3) by simp
next
  case (Suc n)
  then have k: "k < d" by simp
  have dl: "drop k l = l ! k # drop (Suc k) l" using k assms(1) by (simp add: Cons_nth_drop_Suc)
  have db: "drop k b = b ! k # drop (Suc k) b" using k assms(2) by (simp add: Cons_nth_drop_Suc)
  have lk: "length (take k x) = k" using k assms(3) by simp
  from assms(4) k have f: "fsub_row l b x k" by simp
  have tk: "take (Suc k) x = take k x @ [x ! k]"
    using k assms(3) by (simp add: take_Suc_conv_app_nth)
  have ih: "solve_rows (drop (Suc k) l) (drop (Suc k) b) (take (Suc k) x) = Inr x"
    using Suc.hyps(1)[of "Suc k"] Suc.hyps(2) k by simp
  show ?case
    unfolding dl db
    using f ih k assms(3)
    by (simp add: Let_def fsub_row_def tk min_def)
qed

lemma map2_tab:
  "map2 g (map f1 [0..<d]) (map f2 [0..<d]) = map (\<lambda>j. g (f1 j) (f2 j)) [0..<d]"
  by (simp add: zip_map_map zip_same_conv_map comp_def)

lemma fold_unit:
  assumes "k + length cs \<le> d"
  shows "foldr (\<lambda>(c, y) acc. map2 (\<lambda>u v. c * u + v) y acc)
           (zip (map Fin cs) (map (\<lambda>i. map (\<lambda>j. if i = j then Fin 1 else Fin 0) [0..<d])
                                  [k..<k + length cs]))
           (map (\<lambda>j. Fin 0) [0..<d])
         = map (\<lambda>j. if k \<le> j \<and> j < k + length cs then Fin (cs ! (j - k)) else Fin 0) [0..<d]"
  using assms
proof (induction cs arbitrary: k)
  case Nil
  then show ?case by simp
next
  case (Cons c cs)
  have up: "[k..<k + length (c # cs)] = k # [Suc k..<Suc k + length cs]"
    using upt_conv_Cons[of k "k + Suc (length cs)"] by simp
  have ih: "foldr (\<lambda>(c, y) acc. map2 (\<lambda>u v. c * u + v) y acc)
           (zip (map Fin cs) (map (\<lambda>i. map (\<lambda>j. if i = j then Fin 1 else Fin 0) [0..<d])
                                  [Suc k..<Suc k + length cs]))
           (map (\<lambda>j. Fin 0) [0..<d])
         = map (\<lambda>j. if Suc k \<le> j \<and> j < Suc k + length cs then Fin (cs ! (j - Suc k)) else Fin 0) [0..<d]"
    using Cons.IH[of "Suc k"] Cons.prems by simp
  show ?case
    unfolding up
    apply (simp only: list.map zip_Cons_Cons foldr.simps comp_def prod.case ih map2_tab)
    apply (rule map_cong[OF refl])
    apply (auto simp: nth_Cons' Suc_diff_Suc)
    done
qed

lemma tabulate_Fin: "map Fin lr = map (\<lambda>j. Fin (lr ! j)) [0..<length lr]"
  by (rule nth_equalityI) simp_all

lemma lower_factor_shape: "lower_factor d l \<Longrightarrow> length l = d \<Longrightarrow> is_shape d d l"
  by (simp add: lower_factor_def is_shape_def list_all_length)

lemma fsub_row_self:
  assumes lf: "lower_factor d l" and len: "length l = d" and i: "i < d"
  shows "fsub_row l l (np_eye d) i"
proof -
  from lf i len have li: "length (l ! i) = d" "list_all isfinite (l ! i)"
    and zero: "\<forall>j. i < j \<and> j < d \<longrightarrow> l ! i ! j = Fin 0"
    by (simp_all add: lower_factor_def)
  from lf i len obtain x where x: "l ! i ! i = Fin x" "0 < x"
    by (auto simp: lower_factor_def)
  obtain lr where lr: "l ! i = map Fin lr" using li(2) finite_list_conv by blast
  have lrd: "length lr = d" using li(1) lr by simp
  have lri: "lr ! i = x" using x lr i lrd by simp
  have lrz: "\<forall>j. i < j \<and> j < d \<longrightarrow> lr ! j = 0" using zero lr lrd by simp
  have tab: "l ! i = map (\<lambda>j. Fin (lr ! j)) [0..<d]"
    using tabulate_Fin[of lr] lr lrd by simp
  have tk: "take i (l ! i) = map Fin (take i lr)" by (simp add: lr take_map)
  have te: "take i (np_eye d)
      = map (\<lambda>i. map (\<lambda>j. if i = j then Fin 1 else Fin 0) [0..<d]) [0..<0 + length (take i lr)]"
    using i lrd by (simp add: np_eye_def take_map)
  have rep: "replicate (length (l ! i)) (Fin 0) = map (\<lambda>j. Fin 0) [0..<d]"
    by (simp add: li(1) map_replicate_const)
  have fold: "foldr (\<lambda>(c, y) acc. map2 (\<lambda>u v. c * u + v) y acc)
                (zip (take i (l ! i)) (take i (np_eye d))) (replicate (length (l ! i)) (Fin 0))
      = map (\<lambda>j. if 0 \<le> j \<and> j < 0 + length (take i lr) then Fin (take i lr ! (j - 0)) else Fin 0)
          [0..<d]"
    unfolding tk te rep using i lrd by (intro fold_unit) simp
  have row: "np_eye d ! i = map (\<lambda>j. if i = j then Fin 1 else Fin 0) [0..<d]"
    using i by (simp add: np_eye_def)
  have "map2 (\<lambda>u v. (u - v) / Fin x) (map (\<lambda>j. Fin (lr ! j)) [0..<d])
          (map (\<lambda>j. if 0 \<le> j \<and> j < 0 + length (take i lr) then Fin (take i lr ! (j - 0)) else Fin 0)
             [0..<d])
        = map (\<lambda>j. if i = j then Fin 1 else Fin 0) [0..<d]"
    unfolding map2_tab
    using i lrd lri lrz x(2) by (intro map_cong[OF refl]) auto
  then show ?thesis
    unfolding fsub_row_def fold row x(1) using tab x(2) by simp
qed

lemma solve_self:
  assumes lf: "lower_factor d l" and len: "length l = d"
  shows "linalg_solve l l = Inr (np_eye d)"
proof -
  have "solve_rows (drop 0 l) (drop 0 l) (take 0 (np_eye d)) = Inr (np_eye d)"
    using fsub_row_self[OF lf len]
    by (intro solve_rows_correct[where d = d]) (simp_all add: len np_eye_def)
  then show ?thesis
    using lower_factor_shape[OF lf len] len by (simp add: linalg_solve_def)
qed

lemma fold_zero:
  "list_all isfinite cs \<Longrightarrow>
   foldr (\<lambda>(c, y) acc. map2 (\<lambda>u v. c * u + v) y acc) (zip cs (replicate n [Fin 0])) [Fin 0]
     = [Fin 0]"
proof (induction cs arbitrary: n)
  case Nil
  then show ?case by simp
next
  case (Cons c cs)
  then obtain x where "c = Fin x" by (cases c) auto
  with Cons show ?case by (cases n) auto
qed

lemma solve_zero:
  assumes lf: "lower_factor d l" and len: "length l = d" and ms: "length ms = d"
  shows "linalg_solve_vec l (map (\<lambda>m. Fin 0) ms) = Inr (map (\<lambda>m. Fin 0) ms)"
proof -
  let ?b = "map (\<lambda>x. [x]) (map (\<lambda>m. Fin 0) ms)"
  have b: "?b = replicate d [Fin 0]"
    using ms by (simp add: map_replicate_const comp_def)
  have row: "fsub_row l (replicate d [Fin 0]) (replicate d [Fin 0]) i" if i: "i < d" for i
  proof -
    from lf i len have fin: "list_all isfinite (l ! i)" by (simp add: lower_factor_def)
    from lf i len obtain x where x: "l ! i ! i = Fin x" "0 < x"
      by (auto simp: lower_factor_def)
    have "foldr (\<lambda>(c, y) acc. map2 (\<lambda>u v. c * u + v) y acc)
            (zip (take i (l ! i)) (replicate i [Fin 0])) [Fin 0] = [Fin 0]"
      using fin by (intro fold_zero finite_take)
    then show ?thesis
      using i x by (simp add: fsub_row_def min_def)
  qed
  have "solve_rows (drop 0 l) (drop 0 (replicate d [Fin 0])) (take 0 (replicate d [Fin 0]))
          = Inr (replicate d [Fin 0])"
    using row by (intro solve_rows_correct[where d = d]) (simp_all add: len)
  then have "linalg_solve l ?b = Inr (replicate d [Fin 0])"
    unfolding linalg_solve_def b using lower_factor_shape[OF lf len] len by simp
  then show ?thesis
    unfolding linalg_solve_vec_def using ms by (simp add: bind_err_def map_replicate_const)
qed

lemma unit_row_sum_zero:
  "d \<le> i \<Longrightarrow> sum_list (map (\<lambda>j. if i = j then (1::real) else 0) [0..<d]) = 0"
  by (induction d) auto

lemma unit_row_sum: "i < d \<Longrightarrow> sum_list (map (\<lambda>j. if i = j then (1::real) else 0) [0..<d]) = 1"
  by (induction d) (auto simp: less_Suc_eq unit_row_sum_zero)

lemma eye_frobenius:
  "np_sum (map (\<lambda>r. np_sum (map (\<lambda>x. np_sq \<bar>x\<bar>) r)) (np_eye d)) = Fin (real d)"
proof -
  have "map (\<lambda>r. np_sum (map (\<lambda>x. np_sq \<bar>x\<bar>) r)) (np_eye d) = map (\<lambda>i. Fin 1) [0..<d]"
    unfolding np_eye_def map_map comp_def
  proof (rule map_cong[OF refl])
    fix i assume "i \<in> set [0..<d]"
    then have i: "i < d" by simp
    have "(\<lambda>j. np_sq \<bar>if i = j then Fin 1 else Fin 0\<bar>) = (\<lambda>j. Fin (if i = j then 1 else 0))"
      by (auto simp: np_sq_def)
    then show "np_sum (map (\<lambda>j. np_sq \<bar>if i = j then Fin 1 else Fin 0\<bar>) [0..<d]) = Fin 1"
      using unit_row_sum[OF i] by simp
  qed
  then show ?thesis by (simp add: sum_list_triv)
qed

lemma finite_sum: "list_all isfinite xs \<Longrightarrow> \<exists>s. np_sum xs = Fin s"
  using finite_list_conv np_sum_Fin by metis

lemma log_diag_finite:
  assumes lf: "lower_factor d l" and len: "length l = d"
  shows "\<exists>s. np_sum (map np_log (np_diag l)) = Fin s"
proof (rule finite_sum)
  show "list_all isfinite (map np_log (np_diag l))"
    unfolding list_all_iff np_diag_def
  proof
    fix y assume "y \<in> set (map np_log (map (\<lambda>i. l ! i ! i) [0..<length l]))"
    then obtain i where "i < d" "y = np_log (l ! i ! i)" using len by auto
    moreover then obtain x where "l ! i ! i = Fin x" "0 < x"
      using lf len by (auto simp: lower_factor_def)
    ultimately show "isfinite y" by simp
  qed
qed

lemma special_sum_finite:
  assumes f: "finite_on_pos f" and e: "real d - 1 < e"
  shows "\<exists>s. np_sum (map (\<lambda>k. f ((Fin e - Fin (real k)) / Fin 2)) [0..<d]) = Fin s"
proof (rule finite_sum)
  show "list_all isfinite (map (\<lambda>k. f ((Fin e - Fin (real k)) / Fin 2)) [0..<d])"
    unfolding list_all_iff
  proof
    fix y assume "y \<in> set (map (\<lambda>k. f ((Fin e - Fin (real k)) / Fin 2)) [0..<d])"
    then obtain k where k: "k < d" "y = f ((Fin e - Fin (real k)) / Fin 2)" by auto
    then have "0 < (e - real k) / 2" using e by simp
    then show "isfinite y" using f k by (simp add: finite_on_pos_def)
  qed
qed

lemma diff_self: "map2 (\<lambda>a b. a - b) (map Fin ms) (map Fin ms) = map (\<lambda>m. Fin 0) ms"
  by (induction ms) auto

lemma sq_zero_sum: "np_sum (map (\<lambda>x. np_sq \<bar>x\<bar>) (map (\<lambda>m. Fin 0) ms)) = Fin 0"
  by (induction ms) (auto simp: np_sq_def)

lemma row_equal_self: "list_all isfinite r \<Longrightarrow> list_all (\<lambda>b. b) (map2 np_equal r r)"
  using equal_self finite_list_conv by metis

lemma mat_equal_self:
  "list_all (list_all isfinite) s \<Longrightarrow> list_all (list_all (\<lambda>b. b)) (map2 (map2 np_equal) s s)"
  by (induction s) (auto simp: row_equal_self)

lemma gauss_part_full_self:
  assumes om: "pos_or_inf (omega_w p)" and ms: "mu_w p = map Fin ms" and len: "length ms = d"
    and lf: "lower_factor d l" and ll: "length l = d"
  shows "gauss_part_full d l p p = Inr (Some (Fin 0))"
  using om
proof (cases rule: pos_or_inf_cases)
  case 1
  then show ?thesis
    using equal_self[of ms] by (simp add: gauss_part_full_def ms np2_same_length bind_err_def)
next
  case (2 w)
  then show ?thesis
    using solve_zero[OF lf ll len]
    by (simp add: gauss_part_full_def ms np2_same_length bind_err_def py_div_def diff_self
        sq_zero_sum del: map_map)
qed

lemma gausswish_div_self:
  assumes v: "gausswish_valid c" and g: "finite_on_pos gammaln" and p: "finite_on_pos psi"
  shows "gausswish_div gammaln psi c c = Inr (Fin 0)"
proof -
  let ?s = "sigma_w (param_w c)" and ?d = "dim_w c"
  from v obtain ms where ms: "mu_w (param_w c) = map Fin ms" "length ms = ?d"
    using finite_vec_conv unfolding gausswish_valid_def by blast
  from v have sh: "is_shape ?d ?d ?s" and fin: "list_all (list_all isfinite) ?s"
    and om: "pos_or_inf (omega_w (param_w c))" and et: "dof_ok ?d (eta_w (param_w c))"
    and dpos: "0 < ?d" and pd: "pos_def ?s"
    by (simp_all add: gausswish_valid_def)
  from pd obtain l where ch: "linalg_cholesky ?s = Inr l"
    by (auto simp: pos_def_def split: sum.splits)
  have lf: "lower_factor ?d l" and ll: "length l = ?d"
    using cholesky_props[OF sh fin ch] by simp_all
  have gp: "gauss_part_full ?d l (param_w c) (param_w c) = Inr (Some (Fin 0))"
    using om ms lf ll by (rule gauss_part_full_self)
  from et consider "eta_w (param_w c) = PInf"
    | e where "eta_w (param_w c) = Fin e" "real ?d - 1 < e"
    by (cases "eta_w (param_w c)") (auto simp: dof_ok_def)
  then show ?thesis
  proof cases
    case 1
    then show ?thesis
      using mat_equal_self[OF fin]
      by (simp add: gausswish_div_def Let_def ch gp bind_err_def mat2_same_shape[OF sh sh])
  next
    case 2
    then have e: "0 < e" using dpos by simp
    obtain ld where ld: "np_sum (map np_log (np_diag l)) = Fin ld"
      using log_diag_finite[OF lf ll] by blast
    obtain ps where ps: "np_sum (map (\<lambda>k. psi (Fin ((e - real k) / 2))) [0..<?d]) = Fin ps"
      using special_sum_finite[OF p 2(2)] by auto
    obtain gs where gs: "np_sum (map (\<lambda>k. gammaln (Fin ((e - real k) / 2))) [0..<?d]) = Fin gs"
      using special_sum_finite[OF g 2(2)] by auto
    show ?thesis
      using 2(1) e
      by (simp add: gausswish_div_def Let_def ch gp bind_err_def ld ps gs solve_self[OF lf ll]
          eye_frobenius algebra_simps)
  qed
qed

text \<open>
  C5. For every valid parameter set of the three families, \<open>div\<close> of an instance against
  an instance with the same parameters is 0 (in exact arithmetic, with \<open>gammaln\<close> and
  \<open>psi\<close> finite at positive arguments); the Gauss-Wishart case is the third part.
\<close>

theorem div_self_is_zero:
  assumes "finite_on_pos gammaln" and "finite_on_pos psi"
  shows "(dirich_valid a \<longrightarrow> dirich_div gammaln psi a a = Inr (Fin 0))
       \<and> (gaussgamma_valid b \<longrightarrow> gaussgamma_div gammaln psi b b = Inr (Fin 0))
       \<and> (gausswish_valid c \<longrightarrow> gausswish_div gammaln psi c c = Inr (Fin 0))"
  using assms dirich_div_self gaussgamma_div_self gausswish_div_self by blast

theorem div_self_is_zero_witness:
  "dirich_div (\<lambda>x. x) (\<lambda>x. x)
      \<lparr>dim_d = 2, param_d = \<lparr>pi_d = [Fin (1/2), Fin (1/2)], alpha_d = Fin 2\<rparr>\<rparr>
      \<lparr>dim_d = 2, param_d = \<lparr>pi_d = [Fin (1/2), Fin (1/2)], alpha_d = Fin 2\<rparr>\<rparr> = Inr (Fin 0)
   \<and> gaussgamma_div (\<lambda>x. x) (\<lambda>x. x)
      \<lparr>dim_g = 2, param_g = \<lparr>mu_g = [Fin 0, Fin 1], omega_g = Fin 1,
                              sigma_g = [Fin 1, Fin 2], eta_g = Fin 3\<rparr>\<rparr>
      \<lparr>dim_g = 2, param_g = \<lparr>mu_g = [Fin 0, Fin 1], omega_g = Fin 1,
                              sigma_g = [Fin 1, Fin 2], eta_g = Fin 3\<rparr>\<rparr> = Inr (Fin 0)
   \<and> gausswish_div (\<lambda>x. x) (\<lambda>x. x)
      \<lparr>dim_w = 2, param_w = \<lparr>mu_w = [Fin 0, Fin 1], omega_w = Fin 1,
                              sigma_w = [[Fin 4, Fin 2], [Fin 2, Fin 5]], eta_w = Fin 3\<rparr>\<rparr>
      \<lparr>dim_w = 2, param_w = \<lparr>mu_w = [Fin 0, Fin 1], omega_w = Fin 1,
                              sigma_w = [[Fin 4, Fin 2], [Fin 2, Fin 5]], eta_w = Fin 3\<rparr>\<rparr> = Inr (Fin 0)"
proof -
  have f: "finite_on_pos (\<lambda>x. x)" by (simp add: finite_on_pos_def)
  have a: "dirich_valid \<lparr>dim_d = 2, param_d = \<lparr>pi_d = [Fin (1/2), Fin (1/2)], alpha_d = Fin 2\<rparr>\<rparr>"
    by (simp add: dirich_valid_def simplex_def nonneg_real_def pos_or_inf_def pos_real_def
        spacing1_def)
  have b: "gaussgamma_valid \<lparr>dim_g = 2, param_g = \<lparr>mu_g = [Fin 0, Fin 1], omega_g = Fin 1,
                                  sigma_g = [Fin 1, Fin 2], eta_g = Fin 3\<rparr>\<rparr>"
    by (simp add: gaussgamma_valid_def finite_vec_def pos_vec_def pos_or_inf_def pos_real_def)
  have c: "gausswish_valid \<lparr>dim_w = 2, param_w = \<lparr>mu_w = [Fin 0, Fin 1], omega_w = Fin 1,
      sigma_w = [[Fin 4, Fin 2], [Fin 2, Fin 5]], eta_w = Fin 3\<rparr>\<rparr>"
    by (simp add: gausswish_valid_def finite_vec_def pos_or_inf_def pos_real_def is_shape_def
        mat_T_def pos_def_def linalg_cholesky_def dof_ok_def Let_def upt_rec numeral_2_eq_2)
  show ?thesis
    using a b c
      div_self_is_zero[OF f f, of
        "\<lparr>dim_d = 2, param_d = \<lparr>pi_d = [Fin (1/2), Fin (1/2)], alpha_d = Fin 2\<rparr>\<rparr>"
        "\<lparr>dim_g = 2, param_g = \<lparr>mu_g = [Fin 0, Fin 1], omega_g = Fin 1,
                                  sigma_g = [Fin 1, Fin 2], eta_g = Fin 3\<rparr>\<rparr>"
        "\<lparr>dim_w = 2, param_w = \<lparr>mu_w = [Fin 0, Fin 1], omega_w = Fin 1,
                                  sigma_w = [[Fin 4, Fin 2], [Fin 2, Fin 5]], eta_w = Fin 3\<rparr>\<rparr>"]
    by simp
qed

lemma bC_expand:
  "bC b i j a c = bC b i j 0 0 - c * bM b i - a * bM b j + a * c * bW b"
  unfolding bC_def bM_def bW_def
  by (simp add: algebra_simps sum.distrib sum_subtractf sum_distrib_left)

lemma tC_expand:
  "tC bs i j a c = tC bs i j 0 0 - c * tM bs i - a * tM bs j + a * c * tW bs"
proof (induction bs)
  case Nil
  show ?case by (simp add: tC_def tM_def tW_def)
next
  case (Cons b bs)
  have "tC (b # bs) i j a c = bC b i j a c + tC bs i j a c" by (simp add: tC_def)
  also have "\<dots> = (bC b i j 0 0 - c * bM b i - a * bM b j + a * c * bW b)
      + (tC bs i j 0 0 - c * tM bs i - a * tM bs j + a * c * tW bs)"
    using Cons bC_expand[of b i j a c] by simp
  finally show ?case by (simp add: tC_def tM_def tW_def algebra_simps)
qed

lemma parallel_axis:
  assumes "tW bs \<noteq> 0"
  shows "tC bs i j a c - tW bs * ((a - tM bs i / tW bs) * (c - tM bs j / tW bs))
         = tC bs i j (tM bs i / tW bs) (tM bs j / tW bs)"
proof -
  have 1: "tC bs i j a c = tC bs i j 0 0 - c * tM bs i - a * tM bs j + a * c * tW bs"
    by (rule tC_expand)
  have 2: "tC bs i j (tM bs i / tW bs) (tM bs j / tW bs)
      = tC bs i j 0 0 - (tM bs j / tW bs) * tM bs i - (tM bs i / tW bs) * tM bs j
        + (tM bs i / tW bs) * (tM bs j / tW bs) * tW bs"
    by (rule tC_expand)
  show ?thesis
    unfolding 1 2 using assms by (simp add: field_simps)
qed

lemma fin_real: "isfinite x \<Longrightarrow> Fin (real_of x) = x"
  by (cases x) auto

lemma np_sum_real: "list_all isfinite xs \<Longrightarrow> np_sum xs = Fin (\<Sum>k<length xs. real_of (xs ! k))"
proof (induction xs)
  case Nil
  show ?case by simp
next
  case (Cons x xs)
  then obtain r where "x = Fin r" by (cases x) auto
  with Cons show ?case by (simp add: sum.lessThan_Suc_shift del: sum.lessThan_Suc)
qed

lemma dot_real_aux:
  "length xr = length wr \<Longrightarrow>
   np_sum (map2 (\<lambda>x y. x * y) (map Fin xr) (map Fin wr)) = Fin (\<Sum>k<length xr. xr ! k * wr ! k)"
  by (induction xr wr rule: list_induct2)
     (simp_all add: sum.lessThan_Suc_shift del: sum.lessThan_Suc)

lemma dot_real:
  assumes "length xs = n" "length ws = n" "list_all isfinite xs" "list_all isfinite ws"
  shows "np_sum (map2 (\<lambda>x y. x * y) xs ws) = Fin (\<Sum>k<n. real_of (xs ! k) * real_of (ws ! k))"
proof -
  obtain xr wr where r: "xs = map Fin xr" "ws = map Fin wr"
    using assms(3,4) finite_list_conv by blast
  have l: "length xr = n" "length wr = n" using assms(1,2) r by simp_all
  show ?thesis
    unfolding r using dot_real_aux[of xr wr] l by simp
qed

lemma gaussgamma_accum_nth:
  assumes "length (mu_g stat) = d" "length (sigma_g stat) = d" "length obs = d" "length rf = d"
  shows "\<exists>st. gaussgamma_accum rf obs w ei stat = Inr st
           \<and> length (mu_g st) = d \<and> length (sigma_g st) = d
           \<and> omega_g st = omega_g stat + np_sum w \<and> eta_g st = eta_g stat + ei
           \<and> (\<forall>i<d. mu_g st ! i = mu_g stat ! i + np_sum (map2 (\<lambda>x y. x * y) (obs ! i) w)
                  \<and> sigma_g st ! i = sigma_g stat ! i
                       + np_sum (map2 (\<lambda>x y. x * y) (map (\<lambda>x. np_sq \<bar>x - rf ! i\<bar>) (obs ! i)) w))"
  using assms
  by (simp add: gaussgamma_accum_def resid_of_def np2_same_length bind_err_def dot_mv_def
      sum_axis1_def comp_def)

lemma ndim2_row: "ndim2 obs \<Longrightarrow> i < length obs \<Longrightarrow> length (obs ! i) = shape1 obs"
  by (cases obs) (auto simp: shape1_def list_all_length nth_Cons')

lemma batch_row:
  assumes "batch_ok d b" "i < d"
  shows "length (fst b ! i) = length (snd b)" and "list_all isfinite (fst b ! i)"
    and "list_all isfinite (snd b)"
  using assms ndim2_row[of "fst b" i]
  by (auto simp: batch_ok_def list_all_length)

lemma sq_dev_finite:
  assumes "list_all isfinite xs"
  shows "list_all isfinite (map (\<lambda>x. np_sq \<bar>x - Fin a\<bar>) xs)"
    and "k < length xs \<Longrightarrow> real_of (map (\<lambda>x. np_sq \<bar>x - Fin a\<bar>) xs ! k) = (real_of (xs ! k) - a)\<^sup>2"
proof -
  obtain xr where xr: "xs = map Fin xr" using assms finite_list_conv by blast
  show "list_all isfinite (map (\<lambda>x. np_sq \<bar>x - Fin a\<bar>) xs)"
    unfolding xr by (simp add: list_all_iff np_sq_def)
  show "k < length xs \<Longrightarrow> real_of (map (\<lambda>x. np_sq \<bar>x - Fin a\<bar>) xs ! k) = (real_of (xs ! k) - a)\<^sup>2"
    unfolding xr by (simp add: np_sq_def power2_eq_square)
qed

lemma gaussgamma_batch_sums:
  assumes ok: "batch_ok d (obs, w)" and i: "i < d"
  shows "np_sum (map2 (\<lambda>x y. x * y) (obs ! i) w) = Fin (bM (obs, w) i)"
    and "np_sum (map2 (\<lambda>x y. x * y) (map (\<lambda>x. np_sq \<bar>x - Fin a\<bar>) (obs ! i)) w)
           = Fin (bC (obs, w) i i a a)"
proof -
  have len: "length (obs ! i) = length w" and fo: "list_all isfinite (obs ! i)"
    and fw: "list_all isfinite w"
    using batch_row[OF ok i] by simp_all
  show "np_sum (map2 (\<lambda>x y. x * y) (obs ! i) w) = Fin (bM (obs, w) i)"
    using dot_real[OF len refl fo fw] by (simp add: bM_def)
  have "np_sum (map2 (\<lambda>x y. x * y) (map (\<lambda>x. np_sq \<bar>x - Fin a\<bar>) (obs ! i)) w)
      = Fin (\<Sum>k<length w. real_of (map (\<lambda>x. np_sq \<bar>x - Fin a\<bar>) (obs ! i) ! k) * real_of (w ! k))"
    using sq_dev_finite(1)[OF fo, of a] fw len by (intro dot_real) simp_all
  also have "(\<Sum>k<length w. real_of (map (\<lambda>x. np_sq \<bar>x - Fin a\<bar>) (obs ! i) ! k) * real_of (w ! k))
      = bC (obs, w) i i a a"
    unfolding bC_def fst_conv snd_conv
  proof (intro sum.cong refl)
    fix k assume "k \<in> {..<length w}"
    then have k: "k < length (obs ! i)" using len by simp
    show "real_of (map (\<lambda>x. np_sq \<bar>x - Fin a\<bar>) (obs ! i) ! k) * real_of (w ! k)
        = (real_of (obs ! i ! k) - a) * (real_of (w ! k) * (real_of (obs ! i ! k) - a))"
      unfolding sq_dev_finite(2)[OF fo k] by (simp add: power2_eq_square algebra_simps)
  qed
  finally show "np_sum (map2 (\<lambda>x y. x * y) (map (\<lambda>x. np_sq \<bar>x - Fin a\<bar>) (obs ! i)) w)
           = Fin (bC (obs, w) i i a a)" .
qed

lemma weight_sum: "batch_ok d (obs, w) \<Longrightarrow> np_sum w = Fin (bW (obs, w))"
  using np_sum_real[of w] by (simp add: batch_ok_def bW_def)

lemma gaussgamma_loop:
  assumes rf: "rf = map Fin r" "length r = d"
    and oks: "list_all (\<lambda>(obs, w, ei). batch_ok d (obs, w)) ts"
    and st: "length (mu_g stat) = d" "length (sigma_g stat) = d" "omega_g stat = Fin w0"
      "\<forall>i<d. mu_g stat ! i = Fin (m0 i) \<and> sigma_g stat ! i = Fin (q0 i)"
  shows "\<exists>st. stat_loop (\<lambda>(obs, w, ei). gaussgamma_accum rf obs w ei) ts stat = Inr st
           \<and> length (mu_g st) = d \<and> length (sigma_g st) = d
           \<and> omega_g st = Fin (w0 + tW (map (\<lambda>(obs, w, ei). (obs, w)) ts))
           \<and> (\<forall>i<d. mu_g st ! i = Fin (m0 i + tM (map (\<lambda>(obs, w, ei). (obs, w)) ts) i)
                  \<and> sigma_g st ! i
                      = Fin (q0 i + tC (map (\<lambda>(obs, w, ei). (obs, w)) ts) i i (r ! i) (r ! i)))"
  using oks st
proof (induction ts arbitrary: stat w0 m0 q0)
  case Nil
  then show ?case by (simp add: tW_def tM_def tC_def)
next
  case (Cons t ts)
  obtain obs w ei where t: "t = (obs, w, ei)" by (cases t) auto
  from Cons.prems(1) have ok: "batch_ok d (obs, w)" and oks': "list_all (\<lambda>(obs, w, ei). batch_ok d (obs, w)) ts"
    by (simp_all add: t)
  have lo: "length obs = d" using ok by (simp add: batch_ok_def)
  have lr: "length rf = d" using rf by simp
  from gaussgamma_accum_nth[OF Cons.prems(2,3) lo lr, of w ei]
  obtain st1 where st1: "gaussgamma_accum rf obs w ei stat = Inr st1"
    "length (mu_g st1) = d" "length (sigma_g st1) = d"
    "omega_g st1 = omega_g stat + np_sum w"
    "\<forall>i<d. mu_g st1 ! i = mu_g stat ! i + np_sum (map2 (\<lambda>x y. x * y) (obs ! i) w)
                  \<and> sigma_g st1 ! i = sigma_g stat ! i
                       + np_sum (map2 (\<lambda>x y. x * y) (map (\<lambda>x. np_sq \<bar>x - rf ! i\<bar>) (obs ! i)) w)"
    by blast
  have om: "omega_g st1 = Fin (w0 + bW (obs, w))"
    using st1(4) Cons.prems(4) weight_sum[OF ok] by simp
  have en: "\<forall>i<d. mu_g st1 ! i = Fin (m0 i + bM (obs, w) i)
               \<and> sigma_g st1 ! i = Fin (q0 i + bC (obs, w) i i (r ! i) (r ! i))"
  proof (intro allI impI)
    fix i assume i: "i < d"
    have ri: "rf ! i = Fin (r ! i)" using rf i by simp
    show "mu_g st1 ! i = Fin (m0 i + bM (obs, w) i)
               \<and> sigma_g st1 ! i = Fin (q0 i + bC (obs, w) i i (r ! i) (r ! i))"
      using st1(5) i Cons.prems(5) gaussgamma_batch_sums[OF ok i] by (simp add: ri)
  qed
  from Cons.IH[OF oks' st1(2,3) om en]
  obtain st where st: "stat_loop (\<lambda>(obs, w, ei). gaussgamma_accum rf obs w ei) ts st1 = Inr st"
    "length (mu_g st) = d" "length (sigma_g st) = d"
    "omega_g st = Fin (w0 + bW (obs, w) + tW (map (\<lambda>(obs, w, ei). (obs, w)) ts))"
    "\<forall>i<d. mu_g st ! i = Fin (m0 i + bM (obs, w) i + tM (map (\<lambda>(obs, w, ei). (obs, w)) ts) i)
         \<and> sigma_g st ! i = Fin (q0 i + bC (obs, w) i i (r ! i) (r ! i)
               + tC (map (\<lambda>(obs, w, ei). (obs, w)) ts) i i (r ! i) (r ! i))"
    by blast
  show ?case
    using st st1(1)
    by (intro exI[of _ st]) (simp add: t bind_err_def tW_def tM_def tC_def algebra_simps)
qed

lemma stat_loop_map:
  "(\<And>e st. e \<in> set es \<Longrightarrow> step e st = step' (f e) st)
     \<Longrightarrow> stat_loop step es stat = stat_loop step' (map f es) stat"
  by (induction es arbitrary: stat) (simp_all add: bind_err_def split: sum.splits)

lemma times_one: "x * Fin 1 = (x::num)"
  by (cases x) auto

lemma sum_ones: "length r = n \<Longrightarrow> np_sum (map2 (\<lambda>x y. x * y) r (replicate n (Fin 1))) = np_sum r"
  by (induction r arbitrary: n) (auto simp: times_one)

lemma rows_ones:
  "list_all (\<lambda>r. length r = n) m \<Longrightarrow> sum_axis1 m = dot_mv m (replicate n (Fin 1))"
  by (induction m) (simp_all add: sum_axis1_def dot_mv_def sum_ones)

lemma np_sum_replicate_one: "np_sum (replicate n (Fin 1)) = Fin (real n)"
  by (induction n) simp_all

lemma ndim2_rows: "ndim2 obs \<Longrightarrow> list_all (\<lambda>r. length r = shape1 obs) obs"
  by (cases obs) (auto simp: shape1_def)

lemma resid_rows:
  "length obs = length rf \<Longrightarrow> list_all (\<lambda>r. length r = n) obs
     \<Longrightarrow> list_all (\<lambda>r. length r = n)
           (map (map (\<lambda>x. np_sq \<bar>x\<bar>)) (map2 (\<lambda>r c. map (\<lambda>x. x - c) r) obs rf))"
  by (induction obs rf rule: list_induct2) auto

lemma gaussgamma_plain_accum:
  assumes "ndim2 obs" "length obs = d" "length rf = d"
  shows "gaussgamma_step_plain d rf obs stat
           = gaussgamma_accum rf obs (replicate (shape1 obs) (Fin 1)) (Fin (real (shape1 obs))) stat"
proof -
  have rows: "list_all (\<lambda>r. length r = shape1 obs) obs" using assms(1) by (rule ndim2_rows)
  have 1: "sum_axis1 obs = dot_mv obs (replicate (shape1 obs) (Fin 1))"
    using rows by (rule rows_ones)
  have len: "length obs = length rf" using assms by simp
  have 2: "sum_axis1 (map (map (\<lambda>x. np_sq \<bar>x\<bar>)) (map2 (\<lambda>r c. map (\<lambda>x. x - c) r) obs rf))
      = dot_mv (map (map (\<lambda>x. np_sq \<bar>x\<bar>)) (map2 (\<lambda>r c. map (\<lambda>x. x - c) r) obs rf))
          (replicate (shape1 obs) (Fin 1))"
    using len rows by (intro rows_ones resid_rows) simp_all
  show ?thesis
    unfolding gaussgamma_step_plain_def gaussgamma_accum_def resid_of_def
      np2_same_length[OF len] Let_def
    using assms(1,2) by (simp add: 1 2 bind_err_def np_sum_replicate_one del: map_map)
qed

lemma finite_times: "list_all isfinite xs \<Longrightarrow> list_all isfinite ys
    \<Longrightarrow> list_all isfinite (map2 (\<lambda>x y. x * y) xs ys)"
proof -
  assume "list_all isfinite xs" "list_all isfinite ys"
  then obtain xr yr where "xs = map Fin xr" "ys = map Fin yr" using finite_list_conv by blast
  then show ?thesis by (auto simp: list_all_iff zip_map_map)
qed

lemma batch_ok_product:
  "batch_ok d (obs, w) \<Longrightarrow> batch_ok d (obs, s) \<Longrightarrow> batch_ok d (obs, map2 (\<lambda>x y. x * y) w s)"
  by (simp add: batch_ok_def finite_times)

lemma gaussgamma_loop_modes:
  assumes ok: "evidence_ok d ev" and lr: "length rf = d"
  shows "\<exists>ts. (case ev of
                  Plain es \<Rightarrow> stat_loop (gaussgamma_step_plain d rf) es stat
                | Scaled es \<Rightarrow> stat_loop (gaussgamma_step_scaled d rf) es stat
                | WeightedScaled es \<Rightarrow> stat_loop (gaussgamma_step_weighted_scaled d rf) es stat
                | Weighted es \<Rightarrow> stat_loop (gaussgamma_step_weighted d rf) es stat)
              = stat_loop (\<lambda>(obs, w, ei). gaussgamma_accum rf obs w ei) ts stat
            \<and> map (\<lambda>(obs, w, ei). (obs, w)) ts = batches ev
            \<and> list_all (\<lambda>(obs, w, ei). batch_ok d (obs, w)) ts"
proof (cases ev)
  case (Plain es)
  let ?f = "\<lambda>obs. (obs, replicate (shape1 obs) (Fin 1), Fin (real (shape1 obs)))"
  have "stat_loop (gaussgamma_step_plain d rf) es stat
      = stat_loop (\<lambda>(obs, w, ei). gaussgamma_accum rf obs w ei) (map ?f es) stat"
    using ok lr
    by (intro stat_loop_map)
       (auto simp: Plain evidence_ok_def list_all_iff batch_ok_def gaussgamma_plain_accum)
  moreover have "map (\<lambda>(obs, w, ei). (obs, w)) (map ?f es) = batches ev"
    by (simp add: Plain batches_def comp_def)
  moreover have "list_all (\<lambda>(obs, w, ei). batch_ok d (obs, w)) (map ?f es)"
    using ok by (simp add: Plain evidence_ok_def list_all_iff)
  ultimately show ?thesis by (intro exI[of _ "map ?f es"]) (simp add: Plain)
next
  case (Scaled es)
  let ?f = "\<lambda>(obs, scale). (obs, scale, np_sum scale)"
  have "stat_loop (gaussgamma_step_scaled d rf) es stat
      = stat_loop (\<lambda>(obs, w, ei). gaussgamma_accum rf obs w ei) (map ?f es) stat"
    using ok
    by (intro stat_loop_map)
       (auto simp: Scaled evidence_ok_def list_all_iff batch_ok_def gaussgamma_step_scaled_def)
  moreover have "map (\<lambda>(obs, w, ei). (obs, w)) (map ?f es) = batches ev"
    by (simp add: Scaled batches_def comp_def case_prod_unfold)
  moreover have "list_all (\<lambda>(obs, w, ei). batch_ok d (obs, w)) (map ?f es)"
    using ok by (auto simp: Scaled evidence_ok_def list_all_iff)
  ultimately show ?thesis by (intro exI[of _ "map ?f es"]) (simp add: Scaled)
next
  case (WeightedScaled es)
  let ?f = "\<lambda>(obs, weight, scale). (obs, map2 (\<lambda>x y. x * y) weight scale, np_sum scale)"
  have "stat_loop (gaussgamma_step_weighted_scaled d rf) es stat
      = stat_loop (\<lambda>(obs, w, ei). gaussgamma_accum rf obs w ei) (map ?f es) stat"
    using ok
    by (intro stat_loop_map)
       (auto simp: WeightedScaled evidence_ok_def list_all_iff batch_ok_def
          gaussgamma_step_weighted_scaled_def)
  moreover have "map (\<lambda>(obs, w, ei). (obs, w)) (map ?f es) = batches ev"
    by (simp add: WeightedScaled batches_def comp_def case_prod_unfold)
  moreover have "list_all (\<lambda>(obs, w, ei). batch_ok d (obs, w)) (map ?f es)"
    using ok by (auto simp: WeightedScaled evidence_ok_def list_all_iff intro: batch_ok_product)
  ultimately show ?thesis by (intro exI[of _ "map ?f es"]) (simp add: WeightedScaled)
next
  case (Weighted es)
  let ?f = "\<lambda>(obs, weight). (obs, weight, Fin (real (shape1 obs)))"
  have "stat_loop (gaussgamma_step_weighted d rf) es stat
      = stat_loop (\<lambda>(obs, w, ei). gaussgamma_accum rf obs w ei) (map ?f es) stat"
    using ok
    by (intro stat_loop_map)
       (auto simp: Weighted evidence_ok_def list_all_iff batch_ok_def gaussgamma_step_weighted_def)
  moreover have "map (\<lambda>(obs, w, ei). (obs, w)) (map ?f es) = batches ev"
    by (simp add: Weighted batches_def comp_def case_prod_unfold)
  moreover have "list_all (\<lambda>(obs, w, ei). batch_ok d (obs, w)) (map ?f es)"
    using ok by (auto simp: Weighted evidence_ok_def list_all_iff)
  ultimately show ?thesis by (intro exI[of _ "map ?f es"]) (simp add: Weighted)
qed

lemma sum_list_upt: "sum_list (map f [0..<n]) = (\<Sum>k<n. f k)"
  by (simp add: interv_sum_list_conv_sum_set_nat atLeast_upt)

lemma finite_nth: "list_all isfinite xs \<Longrightarrow> k < length xs \<Longrightarrow> xs ! k = Fin (real_of (xs ! k))"
  by (simp add: list_all_length fin_real)

lemma batch_sq_dev:
  assumes ok: "batch_ok d b" and i: "i < d"
  shows "np_sum (map (\<lambda>k. snd b ! k * np_sq (fst b ! i ! k - Fin a)) [0..<length (snd b)])
           = Fin (bC b i i a a)"
proof -
  have len: "length (fst b ! i) = length (snd b)" and fo: "list_all isfinite (fst b ! i)"
    and fw: "list_all isfinite (snd b)"
    using batch_row[OF ok i] by simp_all
  have eq: "map (\<lambda>k. snd b ! k * np_sq (fst b ! i ! k - Fin a)) [0..<length (snd b)]
      = map (\<lambda>k. Fin ((real_of (fst b ! i ! k) - a) * (real_of (snd b ! k) * (real_of (fst b ! i ! k) - a))))
          [0..<length (snd b)]"
  proof (rule map_cong[OF refl])
    fix k assume "k \<in> set [0..<length (snd b)]"
    then have k: "k < length (snd b)" by simp
    have w: "snd b ! k = Fin (real_of (snd b ! k))" using fw k by (rule finite_nth)
    have x: "fst b ! i ! k = Fin (real_of (fst b ! i ! k))" using fo k len by (intro finite_nth) simp_all
    show "snd b ! k * np_sq (fst b ! i ! k - Fin a)
        = Fin ((real_of (fst b ! i ! k) - a) * (real_of (snd b ! k) * (real_of (fst b ! i ! k) - a)))"
      by (subst w, subst x) (simp add: np_sq_def algebra_simps)
  qed
  show ?thesis unfolding eq by (simp add: sum_list_upt bC_def)
qed

lemma wsd_entry:
  assumes "list_all (batch_ok d) bs" "i < d"
  shows "np_sum (map (\<lambda>(obs, w). np_sum (map (\<lambda>k. w ! k * np_sq (obs ! i ! k - Fin a)) [0..<length w])) bs)
           = Fin (tC bs i i a a)"
proof -
  have eq: "map (\<lambda>(obs, w). np_sum (map (\<lambda>k. w ! k * np_sq (obs ! i ! k - Fin a)) [0..<length w])) bs
      = map (\<lambda>b. Fin (bC b i i a a)) bs"
    using assms batch_sq_dev[of d _ i a]
    by (intro map_cong[OF refl]) (auto simp: list_all_iff case_prod_unfold)
  show ?thesis unfolding eq by (simp add: tC_def)
qed

lemma gaussgamma_stat_char:
  assumes mu: "finite_vec (dim_g self) (mu_g (param_g self))" and ok: "evidence_ok (dim_g self) ev"
  shows "\<exists>st. gaussgamma_stat self ev = Inr st \<and> length (mu_g st) = dim_g self
           \<and> omega_g st = Fin (tW (batches ev))
           \<and> (\<forall>i<dim_g self. mu_g st ! i = Fin (tM (batches ev) i))
           \<and> (0 < tW (batches ev) \<longrightarrow>
                sigma_g st = weighted_sq_dev (dim_g self) (batches ev)
                               (map (\<lambda>m. m / omega_g st) (mu_g st)))"
proof -
  let ?d = "dim_g self" and ?rf = "mu_g (param_g self)" and ?bs = "batches ev"
  let ?st0 = "\<lparr>mu_g = replicate ?d (Fin 0), omega_g = Fin 0,
               sigma_g = replicate ?d (Fin 0), eta_g = Fin 0\<rparr>"
  from mu obtain r where r: "?rf = map Fin r" "length r = ?d" using finite_vec_conv by blast
  have lr: "length ?rf = ?d" using r by simp
  from gaussgamma_loop_modes[OF ok lr, of ?st0]
  obtain ts where ts: "(case ev of
                  Plain es \<Rightarrow> stat_loop (gaussgamma_step_plain ?d ?rf) es ?st0
                | Scaled es \<Rightarrow> stat_loop (gaussgamma_step_scaled ?d ?rf) es ?st0
                | WeightedScaled es \<Rightarrow> stat_loop (gaussgamma_step_weighted_scaled ?d ?rf) es ?st0
                | Weighted es \<Rightarrow> stat_loop (gaussgamma_step_weighted ?d ?rf) es ?st0)
              = stat_loop (\<lambda>(obs, w, ei). gaussgamma_accum ?rf obs w ei) ts ?st0"
    and bs: "map (\<lambda>(obs, w, ei). (obs, w)) ts = ?bs"
    and oks: "list_all (\<lambda>(obs, w, ei). batch_ok ?d (obs, w)) ts"
    by blast
  have okb: "list_all (batch_ok ?d) ?bs"
    using oks unfolding bs[symmetric] by (auto simp: list_all_iff)
  from gaussgamma_loop[OF r oks, of ?st0 0 "\<lambda>i. 0" "\<lambda>i. 0"]
  obtain st1 where st1: "stat_loop (\<lambda>(obs, w, ei). gaussgamma_accum ?rf obs w ei) ts ?st0 = Inr st1"
    "length (mu_g st1) = ?d" "length (sigma_g st1) = ?d" "omega_g st1 = Fin (tW ?bs)"
    "\<forall>i<?d. mu_g st1 ! i = Fin (tM ?bs i) \<and> sigma_g st1 ! i = Fin (tC ?bs i i (r ! i) (r ! i))"
    unfolding bs by auto
  let ?W = "tW ?bs"
  show ?thesis
  proof (cases "0 < ?W")
    case False
    let ?sg = "map2 (\<lambda>x y. x - y) (sigma_g st1) (map (\<lambda>r. Fin ?W * np_sq \<bar>r\<bar>) ?rf)"
    have "gaussgamma_stat self ev = Inr (st1\<lparr>sigma_g := ?sg\<rparr>)"
      using False st1(1-4) lr
      by (simp add: gaussgamma_stat_def Let_def ts bind_err_def np2_same_length)
    then show ?thesis using st1 False by simp
  next
    case True
    let ?rf' = "map2 (\<lambda>x y. x - y) ?rf (map (\<lambda>m. m / Fin ?W) (mu_g st1))"
    let ?sg = "map2 (\<lambda>x y. x - y) (sigma_g st1) (map (\<lambda>r. Fin ?W * np_sq \<bar>r\<bar>) ?rf')"
    have res: "gaussgamma_stat self ev = Inr (st1\<lparr>sigma_g := ?sg\<rparr>)"
      using True st1(1-4) lr
      by (simp add: gaussgamma_stat_def Let_def ts bind_err_def np2_same_length)
    have "?sg = weighted_sq_dev ?d ?bs (map (\<lambda>m. m / Fin ?W) (mu_g st1))"
    proof (rule nth_equalityI)
      show "length ?sg = length (weighted_sq_dev ?d ?bs (map (\<lambda>m. m / Fin ?W) (mu_g st1)))"
        using st1(2,3) lr by (simp add: weighted_sq_dev_def)
    next
      fix i assume "i < length ?sg"
      then have i: "i < ?d" using st1(2,3) lr by simp
      have m: "mu_g st1 ! i = Fin (tM ?bs i)" and s: "sigma_g st1 ! i = Fin (tC ?bs i i (r ! i) (r ! i))"
        using st1(5) i by simp_all
      have ri: "?rf ! i = Fin (r ! i)" using r i by simp
      have W: "?W \<noteq> 0" using True by simp
      have lhs: "?sg ! i = Fin (tC ?bs i i (r ! i) (r ! i)
                   - ?W * ((r ! i - tM ?bs i / ?W) * (r ! i - tM ?bs i / ?W)))"
        using i st1(2,3) lr W by (simp add: m s ri np_sq_def)
      have rhs: "weighted_sq_dev ?d ?bs (map (\<lambda>m. m / Fin ?W) (mu_g st1)) ! i
          = Fin (tC ?bs i i (tM ?bs i / ?W) (tM ?bs i / ?W))"
        using i st1(2) W wsd_entry[OF okb i, of "tM ?bs i / ?W"]
        by (simp add: weighted_sq_dev_def m)
      show "?sg ! i = weighted_sq_dev ?d ?bs (map (\<lambda>m. m / Fin ?W) (mu_g st1)) ! i"
        unfolding lhs rhs using parallel_axis[OF W, of i i "r ! i" "r ! i"] by simp
    qed
    then show ?thesis using res st1 True by simp
  qed
qed

lemma shape_dot_T: "is_shape (length a) (length b) (dot_T a b)"
  by (simp add: is_shape_def dot_T_def list_all_iff)

lemma nth_dot_T:
  "i < length a \<Longrightarrow> j < length b \<Longrightarrow> dot_T a b ! i ! j = np_sum (map2 (\<lambda>x y. x * y) (a ! i) (b ! j))"
  by (simp add: dot_T_def)

lemma gausswish_accum_nth:
  assumes lm: "length (mu_w stat) = d" and ss: "is_shape d d (sigma_w stat)"
    and lo: "length obs = d" and lr: "length rf = d"
  shows "\<exists>st. gausswish_accum rf obs w ei stat = Inr st
           \<and> length (mu_w st) = d \<and> is_shape d d (sigma_w st)
           \<and> omega_w st = omega_w stat + np_sum w
           \<and> (\<forall>i<d. mu_w st ! i = mu_w stat ! i + np_sum (map2 (\<lambda>x y. x * y) (obs ! i) w)
                  \<and> (\<forall>j<d. sigma_w st ! i ! j = sigma_w stat ! i ! j
                       + np_sum (map2 (\<lambda>x y. x * y) (map (\<lambda>x. x - rf ! i) (obs ! i))
                                   (map2 (\<lambda>x y. x * y) w (map (\<lambda>x. x - rf ! j) (obs ! j))))))"
proof -
  let ?rs = "map2 (\<lambda>r c. map (\<lambda>x. x - c) r) obs rf"
  let ?ws = "map (\<lambda>r. map2 (\<lambda>x y. x * y) w r) ?rs"
  let ?g = "dot_T ?rs ?ws"
  let ?sg = "map2 (map2 (\<lambda>x y. x + y)) (sigma_w stat) ?g"
  have len: "length obs = length rf" using lo lr by simp
  have rs: "resid_of obs rf = Inr ?rs" unfolding resid_of_def using len by (rule np2_same_length)
  have lrs: "length ?rs = d" using lo lr by simp
  have gs: "is_shape d d ?g" using shape_dot_T[of ?rs ?ws] lrs by simp
  have m2: "mat2 (\<lambda>x y. x + y) (sigma_w stat) ?g = Inr ?sg" using ss gs by (rule mat2_same_shape)
  have mm: "np2 (\<lambda>x y. x + y) (mu_w stat) (dot_mv obs w) = Inr (map2 (\<lambda>x y. x + y) (mu_w stat) (dot_mv obs w))"
    using lm lo by (intro np2_same_length) (simp add: dot_mv_def)
  let ?st = "\<lparr>mu_w = map2 (\<lambda>x y. x + y) (mu_w stat) (dot_mv obs w), omega_w = omega_w stat + np_sum w,
             sigma_w = ?sg, eta_w = eta_w stat + ei\<rparr>"
  have res: "gausswish_accum rf obs w ei stat = Inr ?st"
    unfolding gausswish_accum_def rs mm bind_err_def sum.case m2 by (rule refl)
  have ent: "\<forall>i<d. mu_w ?st ! i = mu_w stat ! i + np_sum (map2 (\<lambda>x y. x * y) (obs ! i) w)
                  \<and> (\<forall>j<d. sigma_w ?st ! i ! j = sigma_w stat ! i ! j
                       + np_sum (map2 (\<lambda>x y. x * y) (map (\<lambda>x. x - rf ! i) (obs ! i))
                                   (map2 (\<lambda>x y. x * y) w (map (\<lambda>x. x - rf ! j) (obs ! j)))))"
  proof (intro allI impI conjI)
    fix i assume i: "i < d"
    show "mu_w ?st ! i = mu_w stat ! i + np_sum (map2 (\<lambda>x y. x * y) (obs ! i) w)"
      using i lm lo by (simp add: dot_mv_def)
    fix j assume j: "j < d"
    have e1: "?sg ! i ! j = sigma_w stat ! i ! j + ?g ! i ! j" by (rule nth_mat_map2[OF ss gs i j])
    have e2: "?g ! i ! j = np_sum (map2 (\<lambda>x y. x * y) (?rs ! i) (?ws ! j))"
      using i j lrs by (intro nth_dot_T) simp_all
    have e3: "?rs ! i = map (\<lambda>x. x - rf ! i) (obs ! i)" using i lo lr by simp
    have e4: "?ws ! j = map2 (\<lambda>x y. x * y) w (map (\<lambda>x. x - rf ! j) (obs ! j))"
      using j lo lr by simp
    show "sigma_w ?st ! i ! j = sigma_w stat ! i ! j
                       + np_sum (map2 (\<lambda>x y. x * y) (map (\<lambda>x. x - rf ! i) (obs ! i))
                                   (map2 (\<lambda>x y. x * y) w (map (\<lambda>x. x - rf ! j) (obs ! j))))"
      using e1 unfolding e2 e3 e4 by simp
  qed
  have "length (mu_w ?st) = d" using lm lo by (simp add: dot_mv_def)
  moreover have "is_shape d d (sigma_w ?st)" using shape_map2[OF ss gs] by simp
  ultimately show ?thesis using res ent by (intro exI[of _ ?st]) simp
qed

lemma gausswish_batch_sums:
  assumes ok: "batch_ok d (obs, w)" and i: "i < d" and j: "j < d"
  shows "np_sum (map2 (\<lambda>x y. x * y) (map (\<lambda>x. x - Fin a) (obs ! i))
                   (map2 (\<lambda>x y. x * y) w (map (\<lambda>x. x - Fin c) (obs ! j))))
           = Fin (bC (obs, w) i j a c)"
proof -
  have li: "length (obs ! i) = length w" and fi: "list_all isfinite (obs ! i)"
    and fw: "list_all isfinite w"
    using batch_row[OF ok i] by simp_all
  have lj: "length (obs ! j) = length w" and fj: "list_all isfinite (obs ! j)"
    using batch_row[OF ok j] by simp_all
  obtain xi xj wr where r: "obs ! i = map Fin xi" "obs ! j = map Fin xj" "w = map Fin wr"
    using fi fj fw finite_list_conv by blast
  have l: "length xi = length wr" "length xj = length wr" using li lj r by simp_all
  let ?A = "map (\<lambda>x. x - Fin a) (obs ! i)"
  let ?B = "map2 (\<lambda>x y. x * y) w (map (\<lambda>x. x - Fin c) (obs ! j))"
  have fa: "list_all isfinite ?A" unfolding r by (simp add: list_all_iff)
  have fb: "list_all isfinite ?B" unfolding r by (auto simp: list_all_iff zip_map_map)
  have "np_sum (map2 (\<lambda>x y. x * y) ?A ?B) = Fin (\<Sum>k<length wr. real_of (?A ! k) * real_of (?B ! k))"
    using fa fb l by (intro dot_real) (simp_all add: r)
  also have "(\<Sum>k<length wr. real_of (?A ! k) * real_of (?B ! k)) = bC (obs, w) i j a c"
    unfolding bC_def fst_conv snd_conv using l by (simp add: r)
  finally show ?thesis .
qed

lemma gausswish_loop:
  assumes rf: "rf = map Fin r" "length r = d"
    and oks: "list_all (\<lambda>(obs, w, ei). batch_ok d (obs, w)) ts"
    and st: "length (mu_w stat) = d" "is_shape d d (sigma_w stat)" "omega_w stat = Fin w0"
      "\<forall>i<d. mu_w stat ! i = Fin (m0 i) \<and> (\<forall>j<d. sigma_w stat ! i ! j = Fin (q0 i j))"
  shows "\<exists>st. stat_loop (\<lambda>(obs, w, ei). gausswish_accum rf obs w ei) ts stat = Inr st
           \<and> length (mu_w st) = d \<and> is_shape d d (sigma_w st)
           \<and> omega_w st = Fin (w0 + tW (map (\<lambda>(obs, w, ei). (obs, w)) ts))
           \<and> (\<forall>i<d. mu_w st ! i = Fin (m0 i + tM (map (\<lambda>(obs, w, ei). (obs, w)) ts) i)
                  \<and> (\<forall>j<d. sigma_w st ! i ! j
                      = Fin (q0 i j + tC (map (\<lambda>(obs, w, ei). (obs, w)) ts) i j (r ! i) (r ! j))))"
  using oks st
proof (induction ts arbitrary: stat w0 m0 q0)
  case Nil
  then show ?case by (simp add: tW_def tM_def tC_def)
next
  case (Cons t ts)
  obtain obs w ei where t: "t = (obs, w, ei)" by (cases t) auto
  from Cons.prems(1) have ok: "batch_ok d (obs, w)" and oks': "list_all (\<lambda>(obs, w, ei). batch_ok d (obs, w)) ts"
    by (simp_all add: t)
  have lo: "length obs = d" using ok by (simp add: batch_ok_def)
  have lr: "length rf = d" using rf by simp
  from gausswish_accum_nth[OF Cons.prems(2,3) lo lr, of w ei]
  obtain st1 where st1: "gausswish_accum rf obs w ei stat = Inr st1"
    "length (mu_w st1) = d" "is_shape d d (sigma_w st1)"
    "omega_w st1 = omega_w stat + np_sum w"
    "\<forall>i<d. mu_w st1 ! i = mu_w stat ! i + np_sum (map2 (\<lambda>x y. x * y) (obs ! i) w)
                  \<and> (\<forall>j<d. sigma_w st1 ! i ! j = sigma_w stat ! i ! j
                       + np_sum (map2 (\<lambda>x y. x * y) (map (\<lambda>x. x - rf ! i) (obs ! i))
                                   (map2 (\<lambda>x y. x * y) w (map (\<lambda>x. x - rf ! j) (obs ! j)))))"
    by blast
  have om: "omega_w st1 = Fin (w0 + bW (obs, w))"
    using st1(4) Cons.prems(4) weight_sum[OF ok] by simp
  have en: "\<forall>i<d. mu_w st1 ! i = Fin (m0 i + bM (obs, w) i)
               \<and> (\<forall>j<d. sigma_w st1 ! i ! j = Fin (q0 i j + bC (obs, w) i j (r ! i) (r ! j)))"
  proof (intro allI impI conjI)
    fix i assume i: "i < d"
    have ri: "rf ! i = Fin (r ! i)" using rf i by simp
    show "mu_w st1 ! i = Fin (m0 i + bM (obs, w) i)"
      using st1(5) i Cons.prems(5) gaussgamma_batch_sums(1)[OF ok i] by simp
    fix j assume j: "j < d"
    have rj: "rf ! j = Fin (r ! j)" using rf j by simp
    have "sigma_w st1 ! i ! j = sigma_w stat ! i ! j
                       + np_sum (map2 (\<lambda>x y. x * y) (map (\<lambda>x. x - rf ! i) (obs ! i))
                                   (map2 (\<lambda>x y. x * y) w (map (\<lambda>x. x - rf ! j) (obs ! j))))"
      using st1(5) i j by simp
    also have "\<dots> = Fin (q0 i j) + Fin (bC (obs, w) i j (r ! i) (r ! j))"
      unfolding ri rj gausswish_batch_sums[OF ok i j] using Cons.prems(5) i j by simp
    finally show "sigma_w st1 ! i ! j = Fin (q0 i j + bC (obs, w) i j (r ! i) (r ! j))" by simp
  qed
  from Cons.IH[OF oks' st1(2,3) om en]
  obtain st where st: "stat_loop (\<lambda>(obs, w, ei). gausswish_accum rf obs w ei) ts st1 = Inr st"
    "length (mu_w st) = d" "is_shape d d (sigma_w st)"
    "omega_w st = Fin (w0 + bW (obs, w) + tW (map (\<lambda>(obs, w, ei). (obs, w)) ts))"
    "\<forall>i<d. mu_w st ! i = Fin (m0 i + bM (obs, w) i + tM (map (\<lambda>(obs, w, ei). (obs, w)) ts) i)
         \<and> (\<forall>j<d. sigma_w st ! i ! j = Fin (q0 i j + bC (obs, w) i j (r ! i) (r ! j)
               + tC (map (\<lambda>(obs, w, ei). (obs, w)) ts) i j (r ! i) (r ! j)))"
    by blast
  show ?case
    using st st1(1)
    by (intro exI[of _ st]) (simp add: t bind_err_def tW_def tM_def tC_def algebra_simps)
qed

lemma one_times: "Fin 1 * x = (x::num)"
  by (cases x) auto

lemma ones_times: "length r = n \<Longrightarrow> map2 (\<lambda>x y. x * y) (replicate n (Fin 1)) r = r"
  by (induction r arbitrary: n) (auto simp: one_times)

lemma rows_ones_times:
  "list_all (\<lambda>r. length r = n) m \<Longrightarrow> map (\<lambda>r. map2 (\<lambda>x y. x * y) (replicate n (Fin 1)) r) m = m"
  by (induction m) (simp_all add: ones_times)

lemma resid_rows_plain:
  "length obs = length rf \<Longrightarrow> list_all (\<lambda>r. length r = n) obs
     \<Longrightarrow> list_all (\<lambda>r. length r = n) (map2 (\<lambda>r c. map (\<lambda>x. x - c) r) obs rf)"
  by (induction obs rf rule: list_induct2) auto

lemma gausswish_plain_accum:
  assumes "ndim2 obs" "length obs = d" "length rf = d"
  shows "gausswish_step_plain d rf obs stat
           = gausswish_accum rf obs (replicate (shape1 obs) (Fin 1)) (Fin (real (shape1 obs))) stat"
proof -
  have rows: "list_all (\<lambda>r. length r = shape1 obs) obs" using assms(1) by (rule ndim2_rows)
  have 1: "sum_axis1 obs = dot_mv obs (replicate (shape1 obs) (Fin 1))"
    using rows by (rule rows_ones)
  have len: "length obs = length rf" using assms by simp
  have 2: "map (\<lambda>r. map2 (\<lambda>x y. x * y) (replicate (shape1 obs) (Fin 1)) r)
             (map2 (\<lambda>r c. map (\<lambda>x. x - c) r) obs rf)
         = map2 (\<lambda>r c. map (\<lambda>x. x - c) r) obs rf"
    using len rows by (intro rows_ones_times resid_rows_plain) simp_all
  show ?thesis
    unfolding gausswish_step_plain_def gausswish_accum_def resid_of_def
      np2_same_length[OF len] Let_def
    using assms(1,2) by (simp add: 1 2 bind_err_def np_sum_replicate_one del: map_map)
qed

lemma gausswish_loop_modes:
  assumes ok: "evidence_ok d ev" and lr: "length rf = d"
  shows "\<exists>ts. (case ev of
                  Plain es \<Rightarrow> stat_loop (gausswish_step_plain d rf) es stat
                | Scaled es \<Rightarrow> stat_loop (gausswish_step_scaled d rf) es stat
                | WeightedScaled es \<Rightarrow> stat_loop (gausswish_step_weighted_scaled d rf) es stat
                | Weighted es \<Rightarrow> stat_loop (gausswish_step_weighted d rf) es stat)
              = stat_loop (\<lambda>(obs, w, ei). gausswish_accum rf obs w ei) ts stat
            \<and> map (\<lambda>(obs, w, ei). (obs, w)) ts = batches ev
            \<and> list_all (\<lambda>(obs, w, ei). batch_ok d (obs, w)) ts"
proof (cases ev)
  case (Plain es)
  let ?f = "\<lambda>obs. (obs, replicate (shape1 obs) (Fin 1), Fin (real (shape1 obs)))"
  have "stat_loop (gausswish_step_plain d rf) es stat
      = stat_loop (\<lambda>(obs, w, ei). gausswish_accum rf obs w ei) (map ?f es) stat"
    using ok lr
    by (intro stat_loop_map)
       (auto simp: Plain evidence_ok_def list_all_iff batch_ok_def gausswish_plain_accum)
  moreover have "map (\<lambda>(obs, w, ei). (obs, w)) (map ?f es) = batches ev"
    by (simp add: Plain batches_def comp_def)
  moreover have "list_all (\<lambda>(obs, w, ei). batch_ok d (obs, w)) (map ?f es)"
    using ok by (simp add: Plain evidence_ok_def list_all_iff)
  ultimately show ?thesis by (intro exI[of _ "map ?f es"]) (simp add: Plain)
next
  case (Scaled es)
  let ?f = "\<lambda>(obs, scale). (obs, scale, np_sum scale)"
  have "stat_loop (gausswish_step_scaled d rf) es stat
      = stat_loop (\<lambda>(obs, w, ei). gausswish_accum rf obs w ei) (map ?f es) stat"
    using ok
    by (intro stat_loop_map)
       (auto simp: Scaled evidence_ok_def list_all_iff batch_ok_def gausswish_step_scaled_def)
  moreover have "map (\<lambda>(obs, w, ei). (obs, w)) (map ?f es) = batches ev"
    by (simp add: Scaled batches_def comp_def case_prod_unfold)
  moreover have "list_all (\<lambda>(obs, w, ei). batch_ok d (obs, w)) (map ?f es)"
    using ok by (auto simp: Scaled evidence_ok_def list_all_iff)
  ultimately show ?thesis by (intro exI[of _ "map ?f es"]) (simp add: Scaled)
next
  case (WeightedScaled es)
  let ?f = "\<lambda>(obs, weight, scale). (obs, map2 (\<lambda>x y. x * y) weight scale, np_sum scale)"
  have "stat_loop (gausswish_step_weighted_scaled d rf) es stat
      = stat_loop (\<lambda>(obs, w, ei). gausswish_accum rf obs w ei) (map ?f es) stat"
    using ok
    by (intro stat_loop_map)
       (auto simp: WeightedScaled evidence_ok_def list_all_iff batch_ok_def
          gausswish_step_weighted_scaled_def)
  moreover have "map (\<lambda>(obs, w, ei). (obs, w)) (map ?f es) = batches ev"
    by (simp add: WeightedScaled batches_def comp_def case_prod_unfold)
  moreover have "list_all (\<lambda>(obs, w, ei). batch_ok d (obs, w)) (map ?f es)"
    using ok by (auto simp: WeightedScaled evidence_ok_def list_all_iff intro: batch_ok_product)
  ultimately show ?thesis by (intro exI[of _ "map ?f es"]) (simp add: WeightedScaled)
next
  case (Weighted es)
  let ?f = "\<lambda>(obs, weight). (obs, weight, Fin (real (shape1 obs)))"
  have "stat_loop (gausswish_step_weighted d rf) es stat
      = stat_loop (\<lambda>(obs, w, ei). gausswish_accum rf obs w ei) (map ?f es) stat"
    using ok
    by (intro stat_loop_map)
       (auto simp: Weighted evidence_ok_def list_all_iff batch_ok_def gausswish_step_weighted_def)
  moreover have "map (\<lambda>(obs, w, ei). (obs, w)) (map ?f es) = batches ev"
    by (simp add: Weighted batches_def comp_def case_prod_unfold)
  moreover have "list_all (\<lambda>(obs, w, ei). batch_ok d (obs, w)) (map ?f es)"
    using ok by (auto simp: Weighted evidence_ok_def list_all_iff)
  ultimately show ?thesis by (intro exI[of _ "map ?f es"]) (simp add: Weighted)
qed

lemma batch_outer_dev:
  assumes ok: "batch_ok d b" and i: "i < d" and j: "j < d"
  shows "np_sum (map (\<lambda>k. snd b ! k * ((fst b ! i ! k - Fin a) * (fst b ! j ! k - Fin c)))
                   [0..<length (snd b)])
           = Fin (bC b i j a c)"
proof -
  have li: "length (fst b ! i) = length (snd b)" and fi: "list_all isfinite (fst b ! i)"
    and fw: "list_all isfinite (snd b)"
    using batch_row[OF ok i] by simp_all
  have lj: "length (fst b ! j) = length (snd b)" and fj: "list_all isfinite (fst b ! j)"
    using batch_row[OF ok j] by simp_all
  have eq: "map (\<lambda>k. snd b ! k * ((fst b ! i ! k - Fin a) * (fst b ! j ! k - Fin c))) [0..<length (snd b)]
      = map (\<lambda>k. Fin ((real_of (fst b ! i ! k) - a) * (real_of (snd b ! k) * (real_of (fst b ! j ! k) - c))))
          [0..<length (snd b)]"
  proof (rule map_cong[OF refl])
    fix k assume "k \<in> set [0..<length (snd b)]"
    then have k: "k < length (snd b)" by simp
    have w: "snd b ! k = Fin (real_of (snd b ! k))" using fw k by (rule finite_nth)
    have x: "fst b ! i ! k = Fin (real_of (fst b ! i ! k))" using fi k li by (intro finite_nth) simp_all
    have y: "fst b ! j ! k = Fin (real_of (fst b ! j ! k))" using fj k lj by (intro finite_nth) simp_all
    show "snd b ! k * ((fst b ! i ! k - Fin a) * (fst b ! j ! k - Fin c))
        = Fin ((real_of (fst b ! i ! k) - a) * (real_of (snd b ! k) * (real_of (fst b ! j ! k) - c)))"
      by (subst w, subst x, subst y) (simp add: algebra_simps)
  qed
  show ?thesis unfolding eq by (simp add: sum_list_upt bC_def)
qed

lemma wod_entry:
  assumes "list_all (batch_ok d) bs" "i < d" "j < d"
  shows "np_sum (map (\<lambda>(obs, w). np_sum (map (\<lambda>k. w ! k * ((obs ! i ! k - Fin a) * (obs ! j ! k - Fin c)))
                                            [0..<length w])) bs)
           = Fin (tC bs i j a c)"
proof -
  have eq: "map (\<lambda>(obs, w). np_sum (map (\<lambda>k. w ! k * ((obs ! i ! k - Fin a) * (obs ! j ! k - Fin c)))
                                       [0..<length w])) bs
      = map (\<lambda>b. Fin (bC b i j a c)) bs"
    using assms batch_outer_dev[of d _ i j a c]
    by (intro map_cong[OF refl]) (auto simp: list_all_iff case_prod_unfold)
  show ?thesis unfolding eq by (simp add: tC_def)
qed

lemma shape_outer_dev: "is_shape d d (weighted_outer_dev d bs m)"
  by (simp add: weighted_outer_dev_def is_shape_def list_all_iff)

lemma gausswish_stat_char:
  assumes mu: "finite_vec (dim_w self) (mu_w (param_w self))" and ok: "evidence_ok (dim_w self) ev"
  shows "\<exists>st. gausswish_stat self ev = Inr st \<and> length (mu_w st) = dim_w self
           \<and> omega_w st = Fin (tW (batches ev))
           \<and> (\<forall>i<dim_w self. mu_w st ! i = Fin (tM (batches ev) i))
           \<and> (0 < tW (batches ev) \<longrightarrow>
                sigma_w st = weighted_outer_dev (dim_w self) (batches ev)
                               (map (\<lambda>m. m / omega_w st) (mu_w st)))"
proof -
  let ?d = "dim_w self" and ?rf = "mu_w (param_w self)" and ?bs = "batches ev"
  let ?st0 = "\<lparr>mu_w = replicate ?d (Fin 0), omega_w = Fin 0,
               sigma_w = replicate ?d (replicate ?d (Fin 0)), eta_w = Fin 0\<rparr>"
  from mu obtain r where r: "?rf = map Fin r" "length r = ?d" using finite_vec_conv by blast
  have lr: "length ?rf = ?d" using r by simp
  from gausswish_loop_modes[OF ok lr, of ?st0]
  obtain ts where ts: "(case ev of
                  Plain es \<Rightarrow> stat_loop (gausswish_step_plain ?d ?rf) es ?st0
                | Scaled es \<Rightarrow> stat_loop (gausswish_step_scaled ?d ?rf) es ?st0
                | WeightedScaled es \<Rightarrow> stat_loop (gausswish_step_weighted_scaled ?d ?rf) es ?st0
                | Weighted es \<Rightarrow> stat_loop (gausswish_step_weighted ?d ?rf) es ?st0)
              = stat_loop (\<lambda>(obs, w, ei). gausswish_accum ?rf obs w ei) ts ?st0"
    and bs: "map (\<lambda>(obs, w, ei). (obs, w)) ts = ?bs"
    and oks: "list_all (\<lambda>(obs, w, ei). batch_ok ?d (obs, w)) ts"
    by blast
  have okb: "list_all (batch_ok ?d) ?bs"
    using oks unfolding bs[symmetric] by (auto simp: list_all_iff)
  have s0: "is_shape ?d ?d (sigma_w ?st0)" using shape_replicate[of ?d ?d "Fin 0"] by simp
  have "\<exists>st. stat_loop (\<lambda>(obs, w, ei). gausswish_accum ?rf obs w ei) ts ?st0 = Inr st
           \<and> length (mu_w st) = ?d \<and> is_shape ?d ?d (sigma_w st)
           \<and> omega_w st = Fin (0 + tW (map (\<lambda>(obs, w, ei). (obs, w)) ts))
           \<and> (\<forall>i<?d. mu_w st ! i = Fin (0 + tM (map (\<lambda>(obs, w, ei). (obs, w)) ts) i)
                  \<and> (\<forall>j<?d. sigma_w st ! i ! j
                      = Fin (0 + tC (map (\<lambda>(obs, w, ei). (obs, w)) ts) i j (r ! i) (r ! j))))"
    using r oks _ s0 by (rule gausswish_loop) simp_all
  then obtain st1 where st1: "stat_loop (\<lambda>(obs, w, ei). gausswish_accum ?rf obs w ei) ts ?st0 = Inr st1"
    "length (mu_w st1) = ?d" "is_shape ?d ?d (sigma_w st1)" "omega_w st1 = Fin (tW ?bs)"
    "\<forall>i<?d. mu_w st1 ! i = Fin (tM ?bs i) \<and> (\<forall>j<?d. sigma_w st1 ! i ! j = Fin (tC ?bs i j (r ! i) (r ! j)))"
    unfolding bs by auto
  let ?W = "tW ?bs"
  show ?thesis
  proof (cases "0 < ?W")
    case False
    let ?o = "map (map (\<lambda>x. Fin ?W * x)) (outer ?rf ?rf)"
    let ?sg = "map2 (map2 (\<lambda>x y. x - y)) (sigma_w st1) ?o"
    have so: "is_shape ?d ?d ?o" using shape_map[OF shape_outer[of ?rf ?rf]] lr by simp
    have m2: "mat2 (\<lambda>x y. x - y) (sigma_w st1) ?o = Inr ?sg" using st1(3) so by (rule mat2_same_shape)
    have "gausswish_stat self ev = Inr (st1\<lparr>sigma_w := ?sg\<rparr>)"
      using False st1(1,4)
      by (simp add: gausswish_stat_def Let_def ts bind_err_def m2 del: map_map)
    then show ?thesis using st1 False by simp
  next
    case True
    let ?rf' = "map2 (\<lambda>x y. x - y) ?rf (map (\<lambda>m. m / Fin ?W) (mu_w st1))"
    let ?o = "map (map (\<lambda>x. Fin ?W * x)) (outer ?rf' ?rf')"
    let ?sg = "map2 (map2 (\<lambda>x y. x - y)) (sigma_w st1) ?o"
    have lrf': "length ?rf' = ?d" using lr st1(2) by simp
    have so0: "is_shape ?d ?d (outer ?rf' ?rf')" using shape_outer[of ?rf' ?rf'] lrf' by simp
    have so: "is_shape ?d ?d ?o" using so0 by (rule shape_map)
    have m2: "mat2 (\<lambda>x y. x - y) (sigma_w st1) ?o = Inr ?sg" using st1(3) so by (rule mat2_same_shape)
    have n2: "np2 (\<lambda>x y. x - y) ?rf (map (\<lambda>m. m / Fin ?W) (mu_w st1)) = Inr ?rf'"
      using lr st1(2) by (intro np2_same_length) simp
    have res: "gausswish_stat self ev = Inr (st1\<lparr>sigma_w := ?sg\<rparr>)"
      using True st1(1,4)
      by (simp add: gausswish_stat_def Let_def ts bind_err_def n2 m2 del: map_map)
    have "?sg = weighted_outer_dev ?d ?bs (map (\<lambda>m. m / Fin ?W) (mu_w st1))"
    proof (rule mat_eqI)
      show "is_shape ?d ?d ?sg" using st1(3) so by (rule shape_map2)
      show "is_shape ?d ?d (weighted_outer_dev ?d ?bs (map (\<lambda>m. m / Fin ?W) (mu_w st1)))"
        by (rule shape_outer_dev)
    next
      fix i j assume i: "i < ?d" and j: "j < ?d"
      have mi: "mu_w st1 ! i = Fin (tM ?bs i)" and mj: "mu_w st1 ! j = Fin (tM ?bs j)"
        and s: "sigma_w st1 ! i ! j = Fin (tC ?bs i j (r ! i) (r ! j))"
        using st1(5) i j by simp_all
      have ri: "?rf ! i = Fin (r ! i)" and rj: "?rf ! j = Fin (r ! j)" using r i j by simp_all
      have W: "?W \<noteq> 0" using True by simp
      have e1: "?sg ! i ! j = sigma_w st1 ! i ! j - ?o ! i ! j"
        by (rule nth_mat_map2[OF st1(3) so i j])
      have e2: "?o ! i ! j = Fin ?W * outer ?rf' ?rf' ! i ! j"
        by (rule nth_mat_map[OF so0 i j])
      have e3: "outer ?rf' ?rf' ! i ! j = ?rf' ! i * ?rf' ! j"
        using i j lrf' by (intro nth_outer) simp_all
      have e4: "?rf' ! i = Fin (r ! i - tM ?bs i / ?W)" "?rf' ! j = Fin (r ! j - tM ?bs j / ?W)"
        using i j lr st1(2) W by (simp_all add: mi mj ri rj)
      have lhs: "?sg ! i ! j = Fin (tC ?bs i j (r ! i) (r ! j)
                   - ?W * ((r ! i - tM ?bs i / ?W) * (r ! j - tM ?bs j / ?W)))"
        unfolding e1 e2 e3 e4 s by simp
      have rhs: "weighted_outer_dev ?d ?bs (map (\<lambda>m. m / Fin ?W) (mu_w st1)) ! i ! j
          = Fin (tC ?bs i j (tM ?bs i / ?W) (tM ?bs j / ?W))"
        using i j st1(2) W wod_entry[OF okb i j, of "tM ?bs i / ?W" "tM ?bs j / ?W"]
        by (simp add: weighted_outer_dev_def mi mj)
      show "?sg ! i ! j = weighted_outer_dev ?d ?bs (map (\<lambda>m. m / Fin ?W) (mu_w st1)) ! i ! j"
        unfolding lhs rhs using parallel_axis[OF W, of i j "r ! i" "r ! j"] by simp
    qed
    then show ?thesis using res st1 True by simp
  qed
qed

text \<open>
  C10. In each of the four evidence modes, for well-formed finite evidence of positive total
  weight, \<open>stat\<close> of a Gauss-Gamma or Gauss-Wishart instance with a finite \<open>mu\<close> returns a
  \<open>sigma\<close> that is the weighted sum of the squared deviations (elementwise squares in the
  diagonal family, outer products in the full-covariance family) of the observations from
  the weighted mean \<open>stat.mu / stat.omega\<close>; a second instance of the same dimension with
  another \<open>mu\<close> returns the same \<open>sigma\<close>. The arithmetic is exact.
\<close>

theorem stat_sigma_independent_of_mu:
  assumes "evidence_ok d ev" and "0 < tW (batches ev)"
    and "dim_g g1 = d" and "finite_vec d (mu_g (param_g g1))"
    and "dim_g g2 = d" and "finite_vec d (mu_g (param_g g2))"
    and "dim_w w1 = d" and "finite_vec d (mu_w (param_w w1))"
    and "dim_w w2 = d" and "finite_vec d (mu_w (param_w w2))"
  shows "(\<exists>st1 st2. gaussgamma_stat g1 ev = Inr st1 \<and> gaussgamma_stat g2 ev = Inr st2
            \<and> omega_g st1 = Fin (tW (batches ev))
            \<and> sigma_g st1 = weighted_sq_dev d (batches ev) (map (\<lambda>m. m / omega_g st1) (mu_g st1))
            \<and> sigma_g st2 = sigma_g st1)
       \<and> (\<exists>st1 st2. gausswish_stat w1 ev = Inr st1 \<and> gausswish_stat w2 ev = Inr st2
            \<and> omega_w st1 = Fin (tW (batches ev))
            \<and> sigma_w st1 = weighted_outer_dev d (batches ev) (map (\<lambda>m. m / omega_w st1) (mu_w st1))
            \<and> sigma_w st2 = sigma_w st1)"
proof
  from gaussgamma_stat_char[of g1 ev] assms
  obtain a where a: "gaussgamma_stat g1 ev = Inr a" "length (mu_g a) = d"
    "omega_g a = Fin (tW (batches ev))" "\<forall>i<d. mu_g a ! i = Fin (tM (batches ev) i)"
    "sigma_g a = weighted_sq_dev d (batches ev) (map (\<lambda>m. m / omega_g a) (mu_g a))"
    by auto
  from gaussgamma_stat_char[of g2 ev] assms
  obtain b where b: "gaussgamma_stat g2 ev = Inr b" "length (mu_g b) = d"
    "omega_g b = Fin (tW (batches ev))" "\<forall>i<d. mu_g b ! i = Fin (tM (batches ev) i)"
    "sigma_g b = weighted_sq_dev d (batches ev) (map (\<lambda>m. m / omega_g b) (mu_g b))"
    by auto
  have "mu_g a = mu_g b" using a(2,4) b(2,4) by (intro nth_equalityI) simp_all
  then have "sigma_g b = sigma_g a" using a(3,5) b(3,5) by simp
  then show "\<exists>st1 st2. gaussgamma_stat g1 ev = Inr st1 \<and> gaussgamma_stat g2 ev = Inr st2
            \<and> omega_g st1 = Fin (tW (batches ev))
            \<and> sigma_g st1 = weighted_sq_dev d (batches ev) (map (\<lambda>m. m / omega_g st1) (mu_g st1))
            \<and> sigma_g st2 = sigma_g st1"
    using a b by blast
next
  from gausswish_stat_char[of w1 ev] assms
  obtain a where a: "gausswish_stat w1 ev = Inr a" "length (mu_w a) = d"
    "omega_w a = Fin (tW (batches ev))" "\<forall>i<d. mu_w a ! i = Fin (tM (batches ev) i)"
    "sigma_w a = weighted_outer_dev d (batches ev) (map (\<lambda>m. m / omega_w a) (mu_w a))"
    by auto
  from gausswish_stat_char[of w2 ev] assms
  obtain b where b: "gausswish_stat w2 ev = Inr b" "length (mu_w b) = d"
    "omega_w b = Fin (tW (batches ev))" "\<forall>i<d. mu_w b ! i = Fin (tM (batches ev) i)"
    "sigma_w b = weighted_outer_dev d (batches ev) (map (\<lambda>m. m / omega_w b) (mu_w b))"
    by auto
  have "mu_w a = mu_w b" using a(2,4) b(2,4) by (intro nth_equalityI) simp_all
  then have "sigma_w b = sigma_w a" using a(3,5) b(3,5) by simp
  then show "\<exists>st1 st2. gausswish_stat w1 ev = Inr st1 \<and> gausswish_stat w2 ev = Inr st2
            \<and> omega_w st1 = Fin (tW (batches ev))
            \<and> sigma_w st1 = weighted_outer_dev d (batches ev) (map (\<lambda>m. m / omega_w st1) (mu_w st1))
            \<and> sigma_w st2 = sigma_w st1"
    using a b by blast
qed

theorem stat_sigma_independent_of_mu_witness:
  "(\<exists>st1 st2.
      gaussgamma_stat \<lparr>dim_g = 2, param_g = \<lparr>mu_g = [Fin 0, Fin 0], omega_g = Fin 1,
                                              sigma_g = [Fin 1, Fin 1], eta_g = Fin 1\<rparr>\<rparr>
        (WeightedScaled [([[Fin 1, Fin 3], [Fin 0, Fin 2]], [Fin 1, Fin 2], [Fin 1, Fin (1/2)])])
        = Inr st1
    \<and> gaussgamma_stat \<lparr>dim_g = 2, param_g = \<lparr>mu_g = [Fin 5, Fin (-1)], omega_g = Fin 1,
                                              sigma_g = [Fin 1, Fin 1], eta_g = Fin 1\<rparr>\<rparr>
        (WeightedScaled [([[Fin 1, Fin 3], [Fin 0, Fin 2]], [Fin 1, Fin 2], [Fin 1, Fin (1/2)])])
        = Inr st2
    \<and> omega_g st1 = Fin 2 \<and> sigma_g st1 = [Fin 2, Fin 2] \<and> sigma_g st2 = [Fin 2, Fin 2])
   \<and> (\<exists>st1 st2.
      gausswish_stat \<lparr>dim_w = 2, param_w = \<lparr>mu_w = [Fin 0, Fin 0], omega_w = Fin 1,
                                             sigma_w = [[Fin 1, Fin 0], [Fin 0, Fin 1]], eta_w = Fin 2\<rparr>\<rparr>
        (WeightedScaled [([[Fin 1, Fin 3], [Fin 0, Fin 2]], [Fin 1, Fin 2], [Fin 1, Fin (1/2)])])
        = Inr st1
    \<and> gausswish_stat \<lparr>dim_w = 2, param_w = \<lparr>mu_w = [Fin 5, Fin (-1)], omega_w = Fin 1,
                                             sigma_w = [[Fin 1, Fin 0], [Fin 0, Fin 1]], eta_w = Fin 2\<rparr>\<rparr>
        (WeightedScaled [([[Fin 1, Fin 3], [Fin 0, Fin 2]], [Fin 1, Fin 2], [Fin 1, Fin (1/2)])])
        = Inr st2
    \<and> omega_w st1 = Fin 2 \<and> sigma_w st1 = [[Fin 2, Fin 2], [Fin 2, Fin 2]]
    \<and> sigma_w st2 = [[Fin 2, Fin 2], [Fin 2, Fin 2]])"
proof -
  let ?ev = "WeightedScaled [([[Fin 1, Fin 3], [Fin 0, Fin 2]], [Fin 1, Fin 2], [Fin 1, Fin (1/2)])]"
  have h1: "evidence_ok 2 ?ev"
    by (simp add: evidence_ok_def batch_ok_def shape1_def)
  have w: "tW (batches ?ev) = 2"
    by (simp add: tW_def bW_def batches_def numeral_2_eq_2)
  have h2: "0 < tW (batches ?ev)" unfolding w by simp
  have sq: "\<And>st. omega_g st = Fin 2 \<Longrightarrow> mu_g st = [Fin 4, Fin 2] \<Longrightarrow>
      weighted_sq_dev 2 (batches ?ev) (map (\<lambda>m. m / omega_g st) (mu_g st)) = [Fin 2, Fin 2]"
    by (simp add: weighted_sq_dev_def batches_def numeral_2_eq_2 upt_rec np_sq_def)
  let ?g1 = "\<lparr>dim_g = 2, param_g = \<lparr>mu_g = [Fin 0, Fin 0], omega_g = Fin 1,
                                              sigma_g = [Fin 1, Fin 1], eta_g = Fin 1\<rparr>\<rparr>"
  let ?g2 = "\<lparr>dim_g = 2, param_g = \<lparr>mu_g = [Fin 5, Fin (-1)], omega_g = Fin 1,
                                              sigma_g = [Fin 1, Fin 1], eta_g = Fin 1\<rparr>\<rparr>"
  let ?w1 = "\<lparr>dim_w = 2, param_w = \<lparr>mu_w = [Fin 0, Fin 0], omega_w = Fin 1,
                                             sigma_w = [[Fin 1, Fin 0], [Fin 0, Fin 1]], eta_w = Fin 2\<rparr>\<rparr>"
  let ?w2 = "\<lparr>dim_w = 2, param_w = \<lparr>mu_w = [Fin 5, Fin (-1)], omega_w = Fin 1,
                                             sigma_w = [[Fin 1, Fin 0], [Fin 0, Fin 1]], eta_w = Fin 2\<rparr>\<rparr>"
  have g: "sigma_g (projr (gaussgamma_stat ?g1 ?ev)) = [Fin 2, Fin 2]"
    by (simp add: gaussgamma_stat_def gaussgamma_step_weighted_scaled_def gaussgamma_accum_def
        resid_of_def np2_def bind_err_def dot_mv_def sum_axis1_def np_sq_def shape1_def Let_def
        numeral_2_eq_2)
  have gw: "sigma_w (projr (gausswish_stat ?w1 ?ev)) = [[Fin 2, Fin 2], [Fin 2, Fin 2]]"
    by (simp add: gausswish_stat_def gausswish_step_weighted_scaled_def gausswish_accum_def
        resid_of_def np2_def mat2_def bind_err_def dot_mv_def dot_T_def outer_def
        shape1_def Let_def numeral_2_eq_2)
  have f: "finite_vec 2 [Fin 0, Fin 0]" "finite_vec 2 [Fin 5, Fin (-1)]"
    by (simp_all add: finite_vec_def)
  show ?thesis
    using stat_sigma_independent_of_mu[OF h1 h2, of ?g1 ?g2 ?w1 ?w2] f g gw w
    by auto
qed

lemma plus_zero [simp]: "x + Fin 0 = (x::num)"
  by (cases x) auto

lemma zero_plus [simp]: "Fin 0 + x = (x::num)"
  by (cases x) auto

lemma minus_zero [simp]: "x - Fin 0 = (x::num)"
  by (cases x) (auto simp: minus_num_def)

lemma bind_Inr: "bind_err (Inr x) f = f x"
  by (simp add: bind_err_def)

lemma bind_Inl: "bind_err (Inl e) f = Inl e"
  by (simp add: bind_err_def)

lemma np_diag1: "np_diag [[x]] = [x]"
  by (simp add: np_diag_def)

lemma np2_single: "np2 f [x] ys = Inr (map (f x) ys)"
proof (cases "length ys = 1")
  case True
  then obtain y where "ys = [y]" by (cases ys) auto
  then show ?thesis by (simp add: np2_def)
next
  case False
  then show ?thesis by (auto simp: np2_def)
qed

lemma loglik_result_single:
  "loglik_result glob gl d sz (Array [l]) sq nu = loglik_result glob gl d sz (Scalar l) sq nu"
  by (simp add: loglik_result_def np2_single Let_def split: option.splits)

lemma valid_dim1:
  assumes "gaussgamma_valid g" "dim_g g = 1"
  obtains m s where "mu_g (param_g g) = [Fin m]" "sigma_g (param_g g) = [Fin s]" "0 < s"
    "pos_or_inf (omega_g (param_g g))" "pos_or_inf (eta_g (param_g g))"
proof -
  from assms obtain ms where ms: "mu_g (param_g g) = map Fin ms" "length ms = 1"
    using finite_vec_conv[of 1 "mu_g (param_g g)"] by (auto simp: gaussgamma_valid_def)
  from assms obtain ss where ss: "sigma_g (param_g g) = map Fin ss" "length ss = 1" "\<forall>r \<in> set ss. 0 < r"
    using pos_vec_conv[of 1 "sigma_g (param_g g)"] by (auto simp: gaussgamma_valid_def)
  from ms obtain m where m: "ms = [m]" by (cases ms) auto
  from ss obtain s where s: "ss = [s]" by (cases ss) auto
  show ?thesis using that[of m s] ms ss m s assms by (simp add: gaussgamma_valid_def)
qed

lemma chol1: "0 < s \<Longrightarrow> linalg_cholesky [[Fin s]] = Inr [[Fin (sqrt s)]]"
  by (simp add: linalg_cholesky_def is_shape_def)

lemma solve1: "l \<noteq> 0 \<Longrightarrow> linalg_solve [[Fin l]] [row] = Inr [map (\<lambda>u. u / Fin l) row]"
  by (simp add: linalg_solve_def is_shape_def Let_def zip_replicate2 map2_map_map)

lemma diagflat1: "np_diagflat [x] = [[x]]"
  by (simp add: np_diagflat_def)

lemma sq_scaled: "0 < s \<Longrightarrow> np_sq \<bar>x / Fin (sqrt s)\<bar> = np_sq \<bar>x\<bar> / Fin s"
  by (cases x) (auto simp: np_sq_def power_divide simp flip: power2_eq_square)

lemma full_dim1:
  assumes "mu_g (param_g g) = [Fin m]" "sigma_g (param_g g) = [Fin s]" "dim_g g = 1"
  shows "dim_w (as_full g) = 1" "mu_w (param_w (as_full g)) = [Fin m]"
    "sigma_w (param_w (as_full g)) = [[Fin s]]"
    "omega_w (param_w (as_full g)) = omega_g (param_g g)"
    "eta_w (param_w (as_full g)) = eta_g (param_g g)"
  using assms by (simp_all add: as_full_def as_full_param_def diagflat1)

lemma ln_sqrt_half: "0 < s \<Longrightarrow> ln (sqrt s) = ln s / 2"
  by (simp add: ln_sqrt)

lemma loglik_dim1:
  assumes v: "gaussgamma_valid g" and d: "dim_g g = 1" and psi: "finite_on_pos psi"
  shows "gausswish_loglik glob gammaln psi (as_full g) obs nu
           = gaussgamma_loglik glob gammaln psi g obs nu"
proof -
  from v d obtain m s where p: "mu_g (param_g g) = [Fin m]" "sigma_g (param_g g) = [Fin s]" "0 < s"
    "pos_or_inf (omega_g (param_g g))" "pos_or_inf (eta_g (param_g g))"
    by (rule valid_dim1)
  note f = full_dim1[OF p(1,2) d]
  show ?thesis
  proof (cases "ndim2 obs \<and> length obs = 1")
    case False
    then show ?thesis using d f(1) by (auto simp: gausswish_loglik_def gaussgamma_loglik_def Let_def)
  next
    case True
    then obtain row where obs: "obs = [row]" by (cases obs) auto
    have sq: "map (\<lambda>x. np_sq \<bar>x\<bar>) (map (\<lambda>u. u / Fin (sqrt s)) (map (\<lambda>x. x - Fin m) row))
        = map (\<lambda>x. x / Fin s) (map (\<lambda>x. np_sq \<bar>x - Fin m\<bar>) row)"
      using p(3) by (simp add: sq_scaled)
    show ?thesis
      using p(5)
    proof (cases rule: pos_or_inf_cases)
      case 1
      show ?thesis
        using p(3)
        unfolding gausswish_loglik_def gaussgamma_loglik_def Let_def f p obs d
        by (simp add: chol1 resid_of_def np2_def bind_Inr bind_Inl solve1 sq 1 np_diag1
            ln_sqrt_half shape1_def del: map_map)
    next
      case (2 e)
      obtain y where y: "psi (Fin (e / 2)) = Fin y" using finite_on_posD[OF psi, of "e / 2"] 2 by auto
      show ?thesis
        using p(3) 2
        unfolding gausswish_loglik_def gaussgamma_loglik_def Let_def f p obs d
        by (simp add: chol1 resid_of_def np2_def bind_Inr bind_Inl solve1 sq y np_diag1
            ln_sqrt_half shape1_def loglik_result_single del: map_map)
    qed
  qed
qed

lemma valid_dim1_record:
  assumes "gaussgamma_valid g" "dim_g g = 1"
  obtains m s om et where
    "param_g g = \<lparr>mu_g = [Fin m], omega_g = om, sigma_g = [Fin s], eta_g = et\<rparr>"
    "param_w (as_full g) = \<lparr>mu_w = [Fin m], omega_w = om, sigma_w = [[Fin s]], eta_w = et\<rparr>"
    "0 < s" "pos_or_inf om" "pos_or_inf et"
proof -
  from assms obtain m s where p: "mu_g (param_g g) = [Fin m]" "sigma_g (param_g g) = [Fin s]" "0 < s"
    "pos_or_inf (omega_g (param_g g))" "pos_or_inf (eta_g (param_g g))"
    by (rule valid_dim1)
  have 1: "param_g g = \<lparr>mu_g = [Fin m], omega_g = omega_g (param_g g), sigma_g = [Fin s],
                         eta_g = eta_g (param_g g)\<rparr>"
    using p(1,2) by (cases "param_g g") simp
  have 2: "param_w (as_full g) = \<lparr>mu_w = [Fin m], omega_w = omega_g (param_g g),
                         sigma_w = [[Fin s]], eta_w = eta_g (param_g g)\<rparr>"
    using p(1,2) by (simp add: as_full_def as_full_param_def diagflat1)
  show ?thesis using that[OF 1 2 p(3,4,5)] .
qed

lemma solve_vec1: "l \<noteq> 0 \<Longrightarrow> linalg_solve_vec [[Fin l]] [x] = Inr [x / Fin l]"
  by (simp add: linalg_solve_vec_def solve1 bind_Inr)

lemma gauss_part_dim1:
  assumes "0 < s" "pos_or_inf o1" "pos_or_inf o2"
  shows "gauss_part_full 1 [[Fin (sqrt s)]]
           \<lparr>mu_w = [Fin m], omega_w = o1, sigma_w = [[Fin s]], eta_w = e1\<rparr>
           \<lparr>mu_w = [Fin m'], omega_w = o2, sigma_w = [[Fin s']], eta_w = e2\<rparr>
         = gauss_part_diag 1
           \<lparr>mu_g = [Fin m], omega_g = o1, sigma_g = [Fin s], eta_g = e1\<rparr>
           \<lparr>mu_g = [Fin m'], omega_g = o2, sigma_g = [Fin s'], eta_g = e2\<rparr>
       \<and> ((\<exists>v. gauss_part_diag 1
           \<lparr>mu_g = [Fin m], omega_g = o1, sigma_g = [Fin s], eta_g = e1\<rparr>
           \<lparr>mu_g = [Fin m'], omega_g = o2, sigma_g = [Fin s'], eta_g = e2\<rparr> = Inr (Some (Fin v)))
       \<or> gauss_part_diag 1
           \<lparr>mu_g = [Fin m], omega_g = o1, sigma_g = [Fin s], eta_g = e1\<rparr>
           \<lparr>mu_g = [Fin m'], omega_g = o2, sigma_g = [Fin s'], eta_g = e2\<rparr> = Inr None)"
proof -
  from assms(2) have c1: "o1 = PInf \<or> (\<exists>r. o1 = Fin r \<and> 0 < r)"
    by (auto elim: pos_or_inf_cases)
  from assms(3) have c2: "o2 = PInf \<or> (\<exists>r. o2 = Fin r \<and> 0 < r)"
    by (auto elim: pos_or_inf_cases)
  show ?thesis
    using c1 c2 assms(1)
    by (auto simp: gauss_part_full_def gauss_part_diag_def np2_def bind_Inr solve_vec1
            py_div_def np_sq_def)
qed

lemma sqrt_ratio_sq: "0 < s \<Longrightarrow> 0 < s' \<Longrightarrow> (sqrt s' / sqrt s) * (sqrt s' / sqrt s) = s' / s"
  by (simp add: real_sqrt_divide [symmetric] del: real_sqrt_divide)

lemma div_dim1:
  assumes vg: "gaussgamma_valid g" and dg: "dim_g g = 1"
    and vh: "gaussgamma_valid h" and dh: "dim_g h = 1"
    and gl: "finite_on_pos gammaln" and ps: "finite_on_pos psi"
  shows "gausswish_div gammaln psi (as_full g) (as_full h) = gaussgamma_div gammaln psi g h"
proof -
  from vg dg obtain m s o1 e1 where
    g: "param_g g = \<lparr>mu_g = [Fin m], omega_g = o1, sigma_g = [Fin s], eta_g = e1\<rparr>"
    "param_w (as_full g) = \<lparr>mu_w = [Fin m], omega_w = o1, sigma_w = [[Fin s]], eta_w = e1\<rparr>"
    "0 < s" "pos_or_inf o1" "pos_or_inf e1"
    by (rule valid_dim1_record)
  from vh dh obtain m' s' o2 e2 where
    h: "param_g h = \<lparr>mu_g = [Fin m'], omega_g = o2, sigma_g = [Fin s'], eta_g = e2\<rparr>"
    "param_w (as_full h) = \<lparr>mu_w = [Fin m'], omega_w = o2, sigma_w = [[Fin s']], eta_w = e2\<rparr>"
    "0 < s'" "pos_or_inf o2" "pos_or_inf e2"
    by (rule valid_dim1_record)
  have dims: "dim_w (as_full g) = 1" "dim_w (as_full h) = 1"
    using dg dh by (simp_all add: as_full_def)
  note gp = gauss_part_dim1[OF g(3,4) h(4), where m = m and m' = m' and s' = s' and ?e1.0 = e1 and ?e2.0 = e2]
  from gp consider (some) v where "gauss_part_diag 1
           \<lparr>mu_g = [Fin m], omega_g = o1, sigma_g = [Fin s], eta_g = e1\<rparr>
           \<lparr>mu_g = [Fin m'], omega_g = o2, sigma_g = [Fin s'], eta_g = e2\<rparr> = Inr (Some (Fin v))"
    | (none) "gauss_part_diag 1
           \<lparr>mu_g = [Fin m], omega_g = o1, sigma_g = [Fin s], eta_g = e1\<rparr>
           \<lparr>mu_g = [Fin m'], omega_g = o2, sigma_g = [Fin s'], eta_g = e2\<rparr> = Inr None"
    by blast
  then show ?thesis
  proof cases
    case none
    show ?thesis
      using g(3)
      unfolding gausswish_div_def gaussgamma_div_def Let_def dims dg dh g(1,2) h(1,2)
      by (simp add: chol1 bind_Inr gp[unfolded One_nat_def] none[unfolded One_nat_def])
  next
    case some
    from g(5) have c1: "e1 = PInf \<or> (\<exists>r. e1 = Fin r \<and> 0 < r)" by (auto elim: pos_or_inf_cases)
    from h(5) have c2: "e2 = PInf \<or> (\<exists>r. e2 = Fin r \<and> 0 < r)" by (auto elim: pos_or_inf_cases)
    show ?thesis
    proof (cases "\<exists>r1 r2. e1 = Fin r1 \<and> 0 < r1 \<and> e2 = Fin r2 \<and> 0 < r2")
      case False
      then show ?thesis
        using g(3) h(3) c1 c2
        unfolding gausswish_div_def gaussgamma_div_def Let_def dims dg dh g(1,2) h(1,2)
        by (auto simp: chol1 bind_Inr gp[unfolded One_nat_def] some[unfolded One_nat_def] np2_def mat2_def np_equal_def)
    next
      case True
      then obtain r1 r2 where e: "e1 = Fin r1" "0 < r1" "e2 = Fin r2" "0 < r2" by blast
      obtain a1 where a1: "gammaln (Fin (r1 / 2)) = Fin a1"
        using finite_on_posD[OF gl, of "r1 / 2"] e by auto
      obtain a2 where a2: "gammaln (Fin (r2 / 2)) = Fin a2"
        using finite_on_posD[OF gl, of "r2 / 2"] e by auto
      obtain b1 where b1: "psi (Fin (r1 / 2)) = Fin b1"
        using finite_on_posD[OF ps, of "r1 / 2"] e by auto
      show ?thesis
        using g(3) h(3) e(2,4)
        unfolding gausswish_div_def gaussgamma_div_def Let_def dims dg dh g(1,2) h(1,2)
        by (simp add: chol1 bind_Inr gp[unfolded One_nat_def e(1,3)] some[unfolded One_nat_def e(1,3)] np2_def e(1,3) a1 a2 b1 solve1 np_diag1 np_sq_def
            sqrt_ratio_sq ln_sqrt_half)
    qed
  qed
qed

lemma sq_abs: "np_sq \<bar>x\<bar> = x * (x::num)"
  by (cases x) (auto simp: np_sq_def)

lemma half_sum: "x / Fin 2 + x / Fin 2 = (x::num)"
  by (cases x) auto

lemma update_gauss_dim1:
  "(\<exists>e. update_gauss [x] om [a] w = Inl e)
     \<or> (\<exists>d wt x' om'. update_gauss [x] om [a] w = Inr ([d], wt, [x'], om'))"
  by (auto simp: update_gauss_def np2_def bind_err_def py_div_def)

lemma symmetrize1: "symmetrize [[x]] = Inr [[x]]"
  by (simp add: symmetrize_def mat2_def np2_def mat_T_def shape1_def bind_Inr half_sum)

lemma update_wishart1:
  "update_wishart [[s]] e [[b]] n [d] wt = Inr ([[(e * s + b + wt * (d * d)) / (e + n)]], e + n)"
  by (simp add: update_wishart_def mat2_def np2_def outer_def bind_Inr)

lemma update_gamma1:
  "update_gamma [s] e [b] n [d] wt = Inr ([(e * s + b + wt * (d * d)) / (e + n)], e + n)"
  by (simp add: update_gamma_def np2_def bind_Inr sq_abs)

lemma update_dim1:
  assumes vg: "gaussgamma_valid g" and dg: "dim_g g = 1"
  shows "map_sum id fst (gausswish_update (as_full g) (as_full_param st))
           = map_sum id (\<lambda>r. as_full (fst r)) (gaussgamma_update g st)"
proof -
  from vg dg obtain m s o1 e1 where
    g: "param_g g = \<lparr>mu_g = [Fin m], omega_g = o1, sigma_g = [Fin s], eta_g = e1\<rparr>"
    "param_w (as_full g) = \<lparr>mu_w = [Fin m], omega_w = o1, sigma_w = [[Fin s]], eta_w = e1\<rparr>"
    "0 < s" "pos_or_inf o1" "pos_or_inf e1"
    by (rule valid_dim1_record)
  have dims: "dim_w (as_full g) = 1" using dg by (simp add: as_full_def)
  show ?thesis
  proof (cases "length (mu_g st) = 1 \<and> length (sigma_g st) = 1")
    case False
    then show ?thesis
      unfolding gausswish_update_def gaussgamma_update_def dims dg
      by (auto simp: as_full_param_def np_diagflat_def is_shape_def)
  next
    case True
    then obtain a b where ab: "mu_g st = [a]" "sigma_g st = [b]"
      by (cases "mu_g st"; cases "sigma_g st") auto
    have st: "as_full_param st = \<lparr>mu_w = [a], omega_w = omega_g st, sigma_w = [[b]], eta_w = eta_g st\<rparr>"
      by (simp add: as_full_param_def ab diagflat1)
    have sh: "is_shape 1 1 [[b]]" by (simp add: is_shape_def)
    show ?thesis
    proof (cases "isinf o1 \<and> isinf e1")
      case True
      then show ?thesis
        unfolding gausswish_update_def gaussgamma_update_def dims dg g(1,2) st ab Let_def
        using sh by (simp add: as_full_def as_full_param_def diagflat1 g(1))
    next
      case False
      from update_gauss_dim1[of "Fin m" o1 a "omega_g st"]
      consider (err) e where "update_gauss [Fin m] o1 [a] (omega_g st) = Inl e"
        | (ok) d wt x' om' where "update_gauss [Fin m] o1 [a] (omega_g st) = Inr ([d], wt, [x'], om')"
        by blast
      then show ?thesis
      proof cases
        case err
        show ?thesis
          unfolding gausswish_update_def gaussgamma_update_def dims dg g(1,2) st ab Let_def
          using sh False by (simp add: err bind_Inl)
      next
        case ok
        show ?thesis
          unfolding gausswish_update_def gaussgamma_update_def dims dg g(1,2) st ab Let_def
          using sh False
          by (cases e1)
             (simp_all add: ok bind_Inr update_wishart1 update_gamma1 symmetrize1 as_full_def
              as_full_param_def diagflat1 g(1))
      qed
    qed
  qed
qed

lemma gram1: "dot_T (mat_T (shape1 [[y]]) [[y]]) (mat_T (shape1 [[y]]) [[y]]) = [[y * y]]"
  by (simp add: shape1_def mat_T_def dot_T_def)

lemma wishart_disp1:
  assumes "0 < s" "0 < e" "0 < x"
  shows "bind_err (mat2 (\<lambda>x y. x + y) (np_diagflat (map (\<lambda>x. np_sqrt (Fin 2 * x)) [Fin x]))
                     (np_tril [[n]] (- 1))) (\<lambda>fct0.
         bind_err (math_sqrt (Fin e)) (\<lambda>se.
         bind_err (linalg_cholesky [[Fin s]]) (\<lambda>ch.
         bind_err (linalg_solve fct0 (map (map (\<lambda>x. se * x)) (mat_T (shape1 ch) ch))) (\<lambda>fct.
           Inr (dot_T (mat_T (shape1 fct) fct) (mat_T (shape1 fct) fct), g2)))))
         = Inr ([[Fin (s * e / (2 * x))]], g2)"
proof -
  have 1: "mat2 (\<lambda>x y. x + y) (np_diagflat (map (\<lambda>x. np_sqrt (Fin 2 * x)) [Fin x]))
             (np_tril [[n]] (- 1)) = Inr [[Fin (sqrt (2 * x))]]"
    using assms by (simp add: diagflat1 np_tril_def mat2_def np2_def bind_Inr)
  have 2: "math_sqrt (Fin e) = Inr (Fin (sqrt e))" using assms by simp
  have 3: "linalg_solve [[Fin (sqrt (2 * x))]] [[Fin (sqrt e * sqrt s)]]
             = Inr [[Fin (sqrt e * sqrt s / sqrt (2 * x))]]"
    using assms solve1[of "sqrt (2 * x)" "[Fin (sqrt e * sqrt s)]"] by simp
  have 4: "(sqrt e * sqrt s / sqrt (2 * x)) * (sqrt e * sqrt s / sqrt (2 * x)) = s * e / (2 * x)"
  proof -
    have a: "sqrt e * sqrt e = e" "sqrt s * sqrt s = s" "sqrt (2 * x) * sqrt (2 * x) = 2 * x"
      using assms by simp_all
    have "(sqrt e * sqrt s / sqrt (2 * x)) * (sqrt e * sqrt s / sqrt (2 * x))
        = (sqrt e * sqrt e) * (sqrt s * sqrt s) / (sqrt (2 * x) * sqrt (2 * x))"
      by (simp only: times_divide_times_eq mult.assoc mult.left_commute)
    also have "\<dots> = e * s / (2 * x)" unfolding a ..
    finally show ?thesis by (simp add: mult.commute)
  qed
  have 5: "map (map (\<lambda>x. Fin (sqrt e) * x)) (mat_T (shape1 [[Fin (sqrt s)]]) [[Fin (sqrt s)]])
             = [[Fin (sqrt e * sqrt s)]]"
    by (simp add: shape1_def mat_T_def)
  have 6: "Fin (sqrt e * sqrt s / sqrt (2 * x)) * Fin (sqrt e * sqrt s / sqrt (2 * x))
             = Fin (s * e / (2 * x))"
    unfolding times_num.simps 4 ..
  show ?thesis
    unfolding 1 bind_Inr 2 chol1[OF assms(1)] 5 3 gram1 6 ..
qed

lemma gamma_disp1:
  assumes "0 < s" "0 < e" "0 < x"
  shows "np2 (\<lambda>s x. s / x) [Fin s] (map (\<lambda>x. x / (Fin e / Fin 2)) [Fin x])
           = Inr [Fin (s * e / (2 * x))]"
  using assms by (simp add: np2_def field_simps)

lemma randn1: "random_randn nrm (Suc 0) t = ([fst (nrm t)], snd (nrm t))"
  by (simp add: random_randn_def case_prod_unfold)

lemma randn2_1: "random_randn2 nrm (Suc 0) (Suc 0) t = ([[fst (nrm t)]], snd (nrm t))"
  by (simp add: random_randn2_def randn1)

lemma random_gamma1:
  "0 < a \<Longrightarrow> random_gamma gam [Fin a] t = Inr ([fst (gam (Fin a) t)], snd (gam (Fin a) t))"
  by (simp add: random_gamma_def case_prod_unfold)

lemma rand_dim1:
  assumes vg: "gaussgamma_valid g" and dg: "dim_g g = 1" and gs: "gamma_sampler gam"
  shows "map_sum id fst (gausswish_rand gam nrm (as_full g) t)
           = map_sum id (\<lambda>r. (fst (fst r), np_diagflat (snd (fst r))))
               (gaussgamma_rand gam
                  (if isfinite (eta_g (param_g g)) then (\<lambda>u. nrm (snd (nrm u))) else nrm) g t)"
proof -
  from vg dg obtain m s o1 e1 where
    g: "param_g g = \<lparr>mu_g = [Fin m], omega_g = o1, sigma_g = [Fin s], eta_g = e1\<rparr>"
    "param_w (as_full g) = \<lparr>mu_w = [Fin m], omega_w = o1, sigma_w = [[Fin s]], eta_w = e1\<rparr>"
    "0 < s" "pos_or_inf o1" "pos_or_inf e1"
    by (rule valid_dim1_record)
  have dims: "dim_w (as_full g) = 1" using dg by (simp add: as_full_def)
  from g(4) have c1: "o1 = PInf \<or> (\<exists>r. o1 = Fin r \<and> 0 < r)" by (auto elim: pos_or_inf_cases)
  show ?thesis
    using g(5)
  proof (cases rule: pos_or_inf_cases)
    case 1
    show ?thesis
      using c1 g(3)
      unfolding gausswish_rand_def gaussgamma_rand_def dims dg g(1,2) Let_def
      by (auto simp: 1 bind_Inr randn1 chol1 shape1_def dot_mv_def np2_def diagflat1)
  next
    case (2 e)
    have pe: "pos_real (Fin (e / 2))" using 2 by (simp add: pos_real_def)
    obtain y t1 where y: "gam (Fin (e / 2)) t = (y, t1)" by (cases "gam (Fin (e / 2)) t") auto
    have "pos_real y" using gs pe y unfolding gamma_sampler_def by (metis fst_conv)
    then obtain x where x: "y = Fin x" "0 < x" by (cases y) (auto simp: pos_real_def)
    obtain n t2 where n: "nrm t1 = (n, t2)" by (cases "nrm t1") auto
    obtain z t3 where z: "nrm t2 = (z, t3)" by (cases "nrm t2") auto
    have G: "random_gamma gam (map (\<lambda>k. (Fin e - Fin (real k)) / Fin 2) [0..<1]) t
               = Inr ([Fin x], t1)"
      using 2 by (simp add: random_gamma_def y x)
    have G': "random_gamma gam (replicate 1 (Fin e / Fin 2)) t = Inr ([Fin x], t1)"
      using 2 by (simp add: random_gamma_def y x)
    have R2: "random_randn2 nrm 1 1 t1 = ([[n]], t2)" by (simp add: randn2_1 n)
    have R1: "random_randn nrm (Suc 0) t2 = ([z], t3)" by (simp add: randn1 z)
    have R1': "random_randn (\<lambda>u. nrm (snd (nrm u))) (Suc 0) t1 = ([z], t3)"
      by (simp add: randn1 n z)
    note D = wishart_disp1[OF g(3) 2(2) x(2), of n t2]
    note D' = gamma_disp1[OF g(3) 2(2) x(2)]
    have pd: "0 < s * e / (2 * x)" using g(3) 2 x by simp
    have f: "isfinite (Fin e) = True" by simp
    show ?thesis
      using c1 pd
      unfolding gausswish_rand_def gaussgamma_rand_def dims dg g(1,2) Let_def
        gausswish_param.select_convs gaussgamma_param.select_convs 2(1) f if_True
        G G' bind_Inr prod.case R2 D D'
      by (auto simp: bind_Inr R1 R1' chol1 shape1_def dot_mv_def np2_def diagflat1)
  qed
qed

text \<open>
  C8. For one dimension and matching valid parameters the two Gaussian families agree in
  exact arithmetic: \<open>loglik\<close> and \<open>div\<close> return the same value (or raise the same error),
  \<open>update\<close> stores the same parameters for the same statistics, and \<open>rand\<close> returns the
  same dispersion. The location of \<open>rand\<close> is the same when \<open>eta\<close> is infinite; when \<open>eta\<close>
  is finite the full-covariance family draws one normal variate more before the variate
  of the location, so its sample is the sample of the diagonal family for a normal
  sampler that skips a variate.
\<close>

theorem dim1_families_agree:
  assumes "gaussgamma_valid g" and "dim_g g = 1" and "gaussgamma_valid h" and "dim_g h = 1"
    and "finite_on_pos gammaln" and "finite_on_pos psi" and "gamma_sampler gam"
  shows "gausswish_loglik glob gammaln psi (as_full g) obs nu
           = gaussgamma_loglik glob gammaln psi g obs nu
       \<and> gausswish_div gammaln psi (as_full g) (as_full h) = gaussgamma_div gammaln psi g h
       \<and> map_sum id fst (gausswish_update (as_full g) (as_full_param st))
           = map_sum id (\<lambda>r. as_full (fst r)) (gaussgamma_update g st)
       \<and> map_sum id fst (gausswish_rand gam nrm (as_full g) t)
           = map_sum id (\<lambda>r. (fst (fst r), np_diagflat (snd (fst r))))
               (gaussgamma_rand gam
                  (if isfinite (eta_g (param_g g)) then (\<lambda>u. nrm (snd (nrm u))) else nrm) g t)"
proof (intro conjI)
  show "gausswish_loglik glob gammaln psi (as_full g) obs nu
          = gaussgamma_loglik glob gammaln psi g obs nu"
    by (rule loglik_dim1[OF assms(1,2,6)])
  show "gausswish_div gammaln psi (as_full g) (as_full h) = gaussgamma_div gammaln psi g h"
    by (rule div_dim1[OF assms(1,2,3,4,5,6)])
  show "map_sum id fst (gausswish_update (as_full g) (as_full_param st))
          = map_sum id (\<lambda>r. as_full (fst r)) (gaussgamma_update g st)"
    by (rule update_dim1[OF assms(1,2)])
  show "map_sum id fst (gausswish_rand gam nrm (as_full g) t)
          = map_sum id (\<lambda>r. (fst (fst r), np_diagflat (snd (fst r))))
              (gaussgamma_rand gam
                 (if isfinite (eta_g (param_g g)) then (\<lambda>u. nrm (snd (nrm u))) else nrm) g t)"
    by (rule rand_dim1[OF assms(1,2,7)])
qed

theorem dim1_families_agree_witness:
  "gausswish_loglik dist_globals (\<lambda>x. x) (\<lambda>x. x)
      (as_full \<lparr>dim_g = 1, param_g = \<lparr>mu_g = [Fin 0], omega_g = Fin 1, sigma_g = [Fin 1],
                                       eta_g = Fin 4\<rparr>\<rparr>)
      [[Fin 1, Fin 2]] (Some (Fin 3))
     = gaussgamma_loglik dist_globals (\<lambda>x. x) (\<lambda>x. x)
      \<lparr>dim_g = 1, param_g = \<lparr>mu_g = [Fin 0], omega_g = Fin 1, sigma_g = [Fin 1], eta_g = Fin 4\<rparr>\<rparr>
      [[Fin 1, Fin 2]] (Some (Fin 3))
   \<and> gausswish_div (\<lambda>x. x) (\<lambda>x. x)
      (as_full \<lparr>dim_g = 1, param_g = \<lparr>mu_g = [Fin 0], omega_g = Fin 1, sigma_g = [Fin 1],
                                       eta_g = Fin 4\<rparr>\<rparr>)
      (as_full \<lparr>dim_g = 1, param_g = \<lparr>mu_g = [Fin 1], omega_g = Fin 2, sigma_g = [Fin 3],
                                       eta_g = PInf\<rparr>\<rparr>)
     = gaussgamma_div (\<lambda>x. x) (\<lambda>x. x)
      \<lparr>dim_g = 1, param_g = \<lparr>mu_g = [Fin 0], omega_g = Fin 1, sigma_g = [Fin 1], eta_g = Fin 4\<rparr>\<rparr>
      \<lparr>dim_g = 1, param_g = \<lparr>mu_g = [Fin 1], omega_g = Fin 2, sigma_g = [Fin 3], eta_g = PInf\<rparr>\<rparr>
   \<and> map_sum id fst (gausswish_update
      (as_full \<lparr>dim_g = 1, param_g = \<lparr>mu_g = [Fin 0], omega_g = Fin 1, sigma_g = [Fin 1],
                                       eta_g = Fin 4\<rparr>\<rparr>)
      (as_full_param \<lparr>mu_g = [Fin 4], omega_g = Fin 2, sigma_g = [Fin 2], eta_g = Fin 2\<rparr>))
     = map_sum id (\<lambda>r. as_full (fst r)) (gaussgamma_update
      \<lparr>dim_g = 1, param_g = \<lparr>mu_g = [Fin 0], omega_g = Fin 1, sigma_g = [Fin 1], eta_g = Fin 4\<rparr>\<rparr>
      \<lparr>mu_g = [Fin 4], omega_g = Fin 2, sigma_g = [Fin 2], eta_g = Fin 2\<rparr>)
   \<and> map_sum id fst (gausswish_rand (\<lambda>a n. (a, Suc n)) (\<lambda>n. (Fin (real n), Suc n))
      (as_full \<lparr>dim_g = 1, param_g = \<lparr>mu_g = [Fin 0], omega_g = Fin 1, sigma_g = [Fin 1],
                                       eta_g = Fin 4\<rparr>\<rparr>) 0)
     = map_sum id (\<lambda>r. (fst (fst r), np_diagflat (snd (fst r))))
        (gaussgamma_rand (\<lambda>a n. (a, Suc n)) (\<lambda>u. (Fin (real (Suc u)), Suc (Suc u)))
      \<lparr>dim_g = 1, param_g = \<lparr>mu_g = [Fin 0], omega_g = Fin 1, sigma_g = [Fin 1], eta_g = Fin 4\<rparr>\<rparr>
      0)"
proof -
  let ?g = "\<lparr>dim_g = 1, param_g = \<lparr>mu_g = [Fin 0], omega_g = Fin 1, sigma_g = [Fin 1],
                                    eta_g = Fin 4\<rparr>\<rparr>"
  let ?h = "\<lparr>dim_g = 1, param_g = \<lparr>mu_g = [Fin 1], omega_g = Fin 2, sigma_g = [Fin 3],
                                    eta_g = PInf\<rparr>\<rparr>"
  have f: "finite_on_pos (\<lambda>x. x)" by (simp add: finite_on_pos_def)
  have g: "gaussgamma_valid ?g"
    by (simp add: gaussgamma_valid_def finite_vec_def pos_vec_def pos_or_inf_def pos_real_def)
  have h: "gaussgamma_valid ?h"
    by (simp add: gaussgamma_valid_def finite_vec_def pos_vec_def pos_or_inf_def pos_real_def)
  have s: "gamma_sampler (\<lambda>a n. (a, Suc n))" by (simp add: gamma_sampler_def)
  show ?thesis
    using dim1_families_agree[OF g _ h _ f f s, where nrm = "\<lambda>n. (Fin (real n), Suc n)"
        and st = "\<lparr>mu_g = [Fin 4], omega_g = Fin 2, sigma_g = [Fin 2], eta_g = Fin 2\<rparr>"
        and glob = dist_globals and obs = "[[Fin 1, Fin 2]]" and nu = "Some (Fin 3)" and t = 0]
    by simp
qed

text \<open>
  From one state of the generator the two families do not return the same location when
  \<open>omega\<close> and \<open>eta\<close> are finite. The gamma sampler here returns its shape, the normal
  sampler the number of the draws before it: the diagonal family reads the normal variate
  1, the full-covariance family discards it in \<open>np.tril(random.randn(1, 1), -1)\<close> and reads
  the variate 2.
\<close>

theorem rand_location_differs:
  "gaussgamma_rand (\<lambda>a n. (a, Suc n)) (\<lambda>n. (Fin (real n), Suc n))
      \<lparr>dim_g = 1, param_g = \<lparr>mu_g = [Fin 0], omega_g = Fin 1, sigma_g = [Fin 1], eta_g = Fin 4\<rparr>\<rparr>
      (0::nat)
     = Inr (([Fin 1], [Fin 1]), 2)
   \<and> gausswish_rand (\<lambda>a n. (a, Suc n)) (\<lambda>n. (Fin (real n), Suc n))
      \<lparr>dim_w = 1, param_w = \<lparr>mu_w = [Fin 0], omega_w = Fin 1, sigma_w = [[Fin 1]], eta_w = Fin 4\<rparr>\<rparr>
      (0::nat)
     = Inr (([Fin 2], [[Fin 1]]), 3)"
  by (simp add: gaussgamma_rand_def gausswish_rand_def random_gamma_def random_randn_def
      random_randn2_def np2_def mat2_def bind_err_def Let_def np_diagflat_def np_tril_def
      linalg_cholesky_def linalg_solve_def is_shape_def shape1_def mat_T_def dot_T_def dot_mv_def)

lemma expo_numeral:
  "expo (numeral k) x =
     (if x < 1 then expo (pred_numeral k) (2 * x) - 1
      else if 2 \<le> x then expo (pred_numeral k) (x / 2) + 1 else 0)"
  by (simp add: numeral_eq_Suc)

lemma dirich_update_rounded_exact: "dirich_update_rounded (\<lambda>x. x) self stat = dirich_update self stat"
  by (simp add: dirich_update_rounded_def dirich_update_def)

text \<open>
  In doubles the all-zero record is not an identity of \<open>update\<close>: for \<open>pi = [0.1, 0.9]\<close> and
  \<open>alpha = 0.1\<close> (the doubles nearest to them, a valid instance) the product \<open>alpha * pi[0]\<close>
  rounds up, and the quotient by \<open>alpha\<close> is the double after \<open>0.1\<close>,
  \<open>0.10000000000000002\<close>.
\<close>

theorem update_zero_rounds:
  "dirich_valid \<lparr>dim_d = 2, param_d = \<lparr>pi_d = [Fin (3602879701896397 / 2 ^ 55),
                                                   Fin (8106479329266893 / 2 ^ 53)],
                                           alpha_d = Fin (3602879701896397 / 2 ^ 55)\<rparr>\<rparr>
   \<and> map fl [Fin (3602879701896397 / 2 ^ 55), Fin (8106479329266893 / 2 ^ 53)]
       = [Fin (3602879701896397 / 2 ^ 55), Fin (8106479329266893 / 2 ^ 53)]
   \<and> dirich_update_rounded fl
        \<lparr>dim_d = 2, param_d = \<lparr>pi_d = [Fin (3602879701896397 / 2 ^ 55),
                                         Fin (8106479329266893 / 2 ^ 53)],
                                 alpha_d = Fin (3602879701896397 / 2 ^ 55)\<rparr>\<rparr>
        (dirich_zero 2)
       = Inr (\<lparr>dim_d = 2, param_d = \<lparr>pi_d = [Fin (7205759403792795 / 2 ^ 56),
                                              Fin (8106479329266893 / 2 ^ 53)],
                                      alpha_d = Fin (3602879701896397 / 2 ^ 55)\<rparr>\<rparr>, RetSelf)
   \<and> Fin (7205759403792795 / 2 ^ 56) \<noteq> Fin (3602879701896397 / 2 ^ 55)"
proof (intro conjI)
  show "dirich_valid \<lparr>dim_d = 2, param_d = \<lparr>pi_d = [Fin (3602879701896397 / 2 ^ 55),
                                                   Fin (8106479329266893 / 2 ^ 53)],
                                           alpha_d = Fin (3602879701896397 / 2 ^ 55)\<rparr>\<rparr>"
    by (simp add: dirich_valid_def simplex_def nonneg_real_def pos_or_inf_def pos_real_def
        spacing1_def)
  have a: "fl (Fin (3602879701896397 / 2 ^ 55)) = Fin (3602879701896397 / 2 ^ 55)"
    by (simp add: fl_real_def expo_numeral pow2_def round_even_def Let_def)
  have b: "fl (Fin (8106479329266893 / 2 ^ 53)) = Fin (8106479329266893 / 2 ^ 53)"
    by (simp add: fl_real_def expo_numeral pow2_def round_even_def Let_def)
  show "map fl [Fin (3602879701896397 / 2 ^ 55), Fin (8106479329266893 / 2 ^ 53)]
       = [Fin (3602879701896397 / 2 ^ 55), Fin (8106479329266893 / 2 ^ 53)]"
    using a b by simp
  have p1: "fl (Fin (3602879701896397 / 2 ^ 55) * Fin (3602879701896397 / 2 ^ 55))
              = Fin (1441151880758559 / 2 ^ 57)"
    by (simp add: fl_real_def expo_numeral pow2_def round_even_def Let_def)
  have p2: "fl (Fin (3602879701896397 / 2 ^ 55) * Fin (8106479329266893 / 2 ^ 53))
              = Fin (6485183463413515 / 2 ^ 56)"
    by (simp add: fl_real_def expo_numeral pow2_def round_even_def Let_def)
  have s1: "fl (Fin (1441151880758559 / 2 ^ 57) + Fin 0) = Fin (1441151880758559 / 2 ^ 57)"
    by (simp add: fl_real_def expo_numeral pow2_def round_even_def Let_def)
  have s2: "fl (Fin (6485183463413515 / 2 ^ 56) + Fin 0) = Fin (6485183463413515 / 2 ^ 56)"
    by (simp add: fl_real_def expo_numeral pow2_def round_even_def Let_def)
  have s3: "fl (Fin (3602879701896397 / 2 ^ 55) + Fin 0) = Fin (3602879701896397 / 2 ^ 55)"
    by (simp add: fl_real_def expo_numeral pow2_def round_even_def Let_def)
  have q1: "fl (Fin (1441151880758559 / 2 ^ 57) / Fin (3602879701896397 / 2 ^ 55))
              = Fin (7205759403792795 / 2 ^ 56)"
    by (simp add: fl_real_def expo_numeral pow2_def round_even_def Let_def)
  have q2: "fl (Fin (6485183463413515 / 2 ^ 56) / Fin (3602879701896397 / 2 ^ 55))
              = Fin (8106479329266893 / 2 ^ 53)"
    by (simp add: fl_real_def expo_numeral pow2_def round_even_def Let_def)
  show "dirich_update_rounded fl
        \<lparr>dim_d = 2, param_d = \<lparr>pi_d = [Fin (3602879701896397 / 2 ^ 55),
                                         Fin (8106479329266893 / 2 ^ 53)],
                                 alpha_d = Fin (3602879701896397 / 2 ^ 55)\<rparr>\<rparr>
        (dirich_zero 2)
       = Inr (\<lparr>dim_d = 2, param_d = \<lparr>pi_d = [Fin (7205759403792795 / 2 ^ 56),
                                              Fin (8106479329266893 / 2 ^ 53)],
                                      alpha_d = Fin (3602879701896397 / 2 ^ 55)\<rparr>\<rparr>, RetSelf)"
    unfolding dirich_update_rounded_def dirich_zero_def Let_def
    by (simp only: dirich_param.select_convs dirich.select_convs dirich.update_convs
        length_replicate refl if_False not_True_eq_False isinf.simps list.map
        np2_def list.size replicate.simps numeral_2_eq_2 zip_Cons_Cons zip_Nil prod.case
        bind_err_def sum.case p1 p2 s1 s2 s3 q1 q2 add_Suc plus_nat.add_0 One_nat_def if_True)
  show "Fin (7205759403792795 / 2 ^ 56) \<noteq> Fin (3602879701896397 / 2 ^ 55)"
    by simp
qed

end
